(* ===== verification/FM_Prelude.thy ===== *)
theory FM_Prelude
  imports Main "HOL-Library.Word"
begin

text \<open>
  The prelude of the development: names for the machine integers of the C
  sources, the errno values the drivers return, the collections of facts that
  the component theories add to, and the generic lemmas on words and lists that
  several components use.
\<close>

unbundle bit_operations_syntax

section \<open>Machine integers and errno values\<close>

type_synonym u8 = "8 word"
type_synonym u16 = "16 word"
type_synonym u32 = "32 word"
type_synonym u64 = "64 word"

text \<open>
  A C \<open>int\<close> is modelled by \<^typ>\<open>int\<close>; where the sources convert one to an
  unsigned type the conversion is written out with \<^const>\<open>word_of_int\<close>, which
  reduces modulo the width as C does. A kernel function returns a negative errno
  value, so the return codes are kept as integers: some callers test them with
  \<open>< 0\<close> and some with \<open>!= 0\<close>, and the difference matters.
\<close>

abbreviation (input) ENOMEM :: int where "ENOMEM \<equiv> 12"
abbreviation (input) EFAULT :: int where "EFAULT \<equiv> 14"
abbreviation (input) ENODEV :: int where "ENODEV \<equiv> 19"
abbreviation (input) EINVAL :: int where "EINVAL \<equiv> 22"

section \<open>Collections of facts\<close>

named_theorems reg_offsets \<open>definitions of the register offset macros\<close>
named_theorems cq_simps \<open>the circular queue as a list\<close>
named_theorems frame_simps \<open>fields and registers that an operation leaves alone\<close>

section \<open>Loops that may return\<close>

text \<open>
  A \<open>for\<close> loop whose body may return from the function: the body gives \<open>Some r\<close> to
  return \<open>r\<close> and None to go on. The state is threaded through.
\<close>

fun for_ret :: "('a \<Rightarrow> 's \<Rightarrow> 'r option \<times> 's) \<Rightarrow> 'a list \<Rightarrow> 's \<Rightarrow> 'r option \<times> 's" where
  "for_ret f [] s = (None, s)"
| "for_ret f (x # xs) s =
     (case f x s of (Some r, s) \<Rightarrow> (Some r, s) | (None, s) \<Rightarrow> for_ret f xs s)"

text \<open>What every pass of the body keeps, the loop keeps.\<close>

lemma for_ret_keeps:
  assumes "\<And>x s. x \<in> set xs \<Longrightarrow> g (snd (f x s)) = g s"
  shows "g (snd (for_ret f xs s)) = g s"
  using assms
proof (induction xs arbitrary: s)
  case (Cons x xs)
  then have "g (snd (f x s)) = g s" and "\<And>s. g (snd (for_ret f xs s)) = g s" by simp_all
  then show ?case by (cases "f x s") (auto split: option.split)
qed simp

lemma for_ret_cong_None:
  "(\<And>x s. x \<in> set xs \<Longrightarrow> fst (f x s) = None) \<Longrightarrow> fst (for_ret f xs s) = None"
  by (induction xs arbitrary: s) (auto split: prod.splits option.splits, metis fst_conv option.distinct(1))

lemma for_ret_append:
  "for_ret f (xs @ ys) s =
     (case for_ret f xs s of (Some r, s) \<Rightarrow> (Some r, s) | (None, s) \<Rightarrow> for_ret f ys s)"
  by (induction xs arbitrary: s) (auto split: prod.splits option.splits)

text \<open>A loop whose passes lead from \<open>g i\<close> to \<open>g (Suc i)\<close>; one that returns at the first pass that does.\<close>

lemma for_ret_upt_None:
  "(\<And>i. i < n \<Longrightarrow> f i (g i) = (None, g (Suc i))) \<Longrightarrow> for_ret f [0..<n] (g 0) = (None, g n)"
  by (induction n) (simp_all add: for_ret_append)

lemma for_ret_upt_Some:
  assumes "k < n" and "for_ret f [0..<k] s = (None, s')" and "f k s' = (Some r, s'')"
  shows "for_ret f [0..<n] s = (Some r, s'')"
proof -
  have "[0..<n] = [0..<k] @ k # [Suc k..<n]" using assms(1)
    by (metis le_add_diff_inverse less_imp_le upt_add_eq_append upt_conv_Cons zero_le)
  then show ?thesis by (simp add: for_ret_append assms(2,3))
qed

text \<open>The functions return the value the loop returned, or 0 after it.\<close>

lemma snd_return_or_0 [simp]:
  "snd (case p of (None, s) \<Rightarrow> (0, s) | (Some r, s) \<Rightarrow> (r, s)) = snd p"
  by (simp split: prod.split option.split)

section \<open>Lists\<close>

lemma upt_update:
  "n < length xs \<Longrightarrow> (map f [0..<n] @ drop n xs)[n := f n] = map f [0..<Suc n] @ drop (Suc n) xs"
  by (simp add: list_update_append Cons_nth_drop_Suc [symmetric])

lemma all_less_double: "(\<forall>n<2 * k. P n) \<longleftrightarrow> (\<forall>i<k. P (2 * i) \<and> P (2 * i + 1))" for k :: nat
proof (intro iffI allI impI)
  fix n :: nat assume all: "\<forall>i<k. P (2 * i) \<and> P (2 * i + 1)" and "n < 2 * k"
  then have "n div 2 < k" and "n = 2 * (n div 2) \<or> n = 2 * (n div 2) + 1" by presburger+
  with all show "P n" by metis
qed simp

lemma first_bad: "\<not> (\<forall>i<n. P i) \<Longrightarrow> \<exists>k<n. \<not> P k \<and> (\<forall>i<k. P i)" for n :: nat
  using exists_least_iff [of "\<lambda>k. k < n \<and> \<not> P k"] by (auto dest: order_less_trans)

section \<open>Words\<close>

lemma unat_mask_and [simp]:
  "unat (x AND mask n :: 'a::len word) = unat x mod 2 ^ n"
  unfolding take_bit_eq_mask [symmetric] unsigned_take_bit_eq by (simp add: take_bit_eq_mod)

lemma uint_and_0xffff: "uint (x AND 0xffff :: 'a::len word) = uint x mod 2 ^ 16"
proof -
  have eq: "x AND 0xffff = take_bit 16 x"
    unfolding take_bit_eq_mask by (simp add: mask_eq_exp_minus_1)
  show ?thesis unfolding eq unsigned_take_bit_eq
    by (simp add: take_bit_eq_mod)
qed

lemma unat_drop_bit: "unat (drop_bit n w) = unat (w :: 'a::len word) div 2 ^ n"
proof -
  have "take_bit LENGTH('a) (unat w) = unat w"
    using unsigned_less [of w] by (intro take_bit_nat_eq_self) simp
  then show ?thesis unfolding unsigned_drop_bit_eq by (simp add: drop_bit_eq_div)
qed

lemma take_bit_ucast: "take_bit LENGTH('a) (ucast (x :: 'a::len word) :: 'b::len word) = ucast x"
  by (rule bit_word_eqI) (auto simp: bit_simps dest: bit_imp_le_length)

lemma int_and_exp_eq_0:
  assumes "0 \<le> x" and "x < (2::int) ^ k"
  shows "x AND 2 ^ k = 0"
proof (rule bit_eqI)
  fix n
  have "take_bit k x = x" using assms by (rule take_bit_int_eq_self)
  then have "\<not> bit x k" by (metis bit_take_bit_iff less_irrefl)
  then show "bit (x AND 2 ^ k) n = bit 0 n" by (auto simp: bit_and_iff bit_exp_iff)
qed

text \<open>Rounding up to a multiple of \<open>2^k\<close>, as \<open>__ALIGN_KERNEL\<close> and the libraries do it.\<close>

lemma and_not_mask_eq: "x AND NOT (mask k) = push_bit k (drop_bit k (x :: 'a::len word))"
  by (rule bit_word_eqI) (auto simp: bit_simps)

lemma unat_and_not_mask:
  "unat (x AND NOT (mask k) :: 'a::len word) = unat x div 2 ^ k * 2 ^ k"
proof -
  have "unat x div 2 ^ k * 2 ^ k < 2 ^ LENGTH('a)"
    using div_times_less_eq_dividend [of "unat x" "2 ^ k"] unsigned_less [of x] by (rule le_less_trans)
  then show ?thesis
    unfolding and_not_mask_eq unsigned_push_bit_eq unsigned_drop_bit_eq
    by (simp add: push_bit_eq_mult drop_bit_eq_div take_bit_nat_eq_self)
qed

lemma unat_align_up:
  fixes p :: "'a::len word"
  assumes "unat p + (2 ^ k - 1) < 2 ^ LENGTH('a)" and "k \<le> LENGTH('a)"
  shows "unat ((p + mask k) AND NOT (mask k)) = (unat p + (2 ^ k - 1)) div 2 ^ k * 2 ^ k"
proof -
  have "unat (mask k :: 'a word) = nat (uint (mask k :: 'a word))" by simp
  also have "\<dots> = 2 ^ k - 1"
    using assms(2) unfolding uint_mask_eq
    by (simp add: min_absorb2 nat_mask_eq mask_eq_exp_minus_1 [where 'a = nat])
  finally have "unat (mask k :: 'a word) = 2 ^ k - 1" .
  with assms have "unat (p + mask k) = unat p + (2 ^ k - 1)"
    by (simp add: unat_word_ariths)
  then show ?thesis by (simp add: unat_and_not_mask)
qed

lemma align_up_bounds:
  fixes n :: nat
  assumes "0 < a"
  shows "n \<le> (n + (a - 1)) div a * a" and "(n + (a - 1)) div a * a < n + a"
    and "a dvd (n + (a - 1)) div a * a"
proof -
  let ?m = "n + (a - 1)"
  have eq: "?m div a * a + ?m mod a = ?m" by simp
  have "?m mod a < a" using assms by simp
  with eq assms show "n \<le> ?m div a * a" by linarith
  from eq assms show "?m div a * a < n + a" by linarith
qed simp

end
