(* ===== verification/Mmio.thy ===== *)
theory Mmio
  imports FM_Prelude
begin

text \<open>
  Memory-mapped registers. The device behind the bus is hardware, so it is a
  parameter of the model: a record of a read and a write function over a hardware
  state of any type. Both drivers and the user libraries take it as their first
  argument. This theory holds the accessors (\<open>reg_read8\<close> to \<open>reg_write64\<close> of
  boards/default/lib/common.h and the kernel's \<open>ioread\<close> and \<open>iowrite\<close> the drivers
  call), the contract of those registers that behave as storage, as a locale, and
  its instance on a little-endian byte memory.
\<close>

section \<open>Regions and devices\<close>

text \<open>
  One constructor per base pointer that the sources pass to an accessor: the control,
  RX and TX engines of the NIC, its UDP engines, the IOCache and the PLIC.
  \<open>R_ACCNET_INFO\<close> is the memory of \<open>struct accnet_info\<close> itself: the getters of
  accnet_lib.h pass the struct pointer where the setters pass a register base.
\<close>

datatype region =
    R_CTRL | R_RX | R_TX | R_UDP_RX | R_UDP_TX | R_IOCACHE | R_PLIC | R_ACCNET_INFO

record 'd device =
  dev_read :: "region \<Rightarrow> nat \<Rightarrow> u64 \<Rightarrow> 'd \<Rightarrow> u64 \<times> 'd"
  dev_write :: "region \<Rightarrow> nat \<Rightarrow> u64 \<Rightarrow> u64 \<Rightarrow> 'd \<Rightarrow> 'd"

text \<open>A \<open>struct resource\<close> of the device tree, by its start and its \<open>resource_size\<close>.\<close>

record resource =
  res_start :: u64
  res_size :: u64

text \<open>Kernel accessors: the width is in bytes, the address is the offset from the base.\<close>

definition ioread8 :: "'d device \<Rightarrow> region \<Rightarrow> u64 \<Rightarrow> 'd \<Rightarrow> u8 \<times> 'd" where
  "ioread8 D r off h = (case dev_read D r 1 off h of (v, h') \<Rightarrow> (ucast v, h'))"

definition ioread16 :: "'d device \<Rightarrow> region \<Rightarrow> u64 \<Rightarrow> 'd \<Rightarrow> u16 \<times> 'd" where
  "ioread16 D r off h = (case dev_read D r 2 off h of (v, h') \<Rightarrow> (ucast v, h'))"

definition ioread32 :: "'d device \<Rightarrow> region \<Rightarrow> u64 \<Rightarrow> 'd \<Rightarrow> u32 \<times> 'd" where
  "ioread32 D r off h = (case dev_read D r 4 off h of (v, h') \<Rightarrow> (ucast v, h'))"

definition ioread64 :: "'d device \<Rightarrow> region \<Rightarrow> u64 \<Rightarrow> 'd \<Rightarrow> u64 \<times> 'd" where
  "ioread64 D r off h = dev_read D r 8 off h"

definition iowrite8 :: "'d device \<Rightarrow> region \<Rightarrow> u64 \<Rightarrow> u8 \<Rightarrow> 'd \<Rightarrow> 'd" where
  "iowrite8 D r off v h = dev_write D r 1 off (ucast v) h"

definition iowrite16 :: "'d device \<Rightarrow> region \<Rightarrow> u64 \<Rightarrow> u16 \<Rightarrow> 'd \<Rightarrow> 'd" where
  "iowrite16 D r off v h = dev_write D r 2 off (ucast v) h"

definition iowrite32 :: "'d device \<Rightarrow> region \<Rightarrow> u64 \<Rightarrow> u32 \<Rightarrow> 'd \<Rightarrow> 'd" where
  "iowrite32 D r off v h = dev_write D r 4 off (ucast v) h"

definition iowrite64 :: "'d device \<Rightarrow> region \<Rightarrow> u64 \<Rightarrow> u64 \<Rightarrow> 'd \<Rightarrow> 'd" where
  "iowrite64 D r off v h = dev_write D r 8 off v h"

text \<open>
  The user-space macros index an array of the access type, so the offset is rounded
  down to a multiple of the access size: \<open>((volatile uint32_t *)(base))[(reg)/4]\<close>.
\<close>

definition reg_read64 :: "'d device \<Rightarrow> region \<Rightarrow> u64 \<Rightarrow> 'd \<Rightarrow> u64 \<times> 'd" where
  "reg_read64 D base reg = ioread64 D base (8 * (reg div 8))"

definition reg_write64 :: "'d device \<Rightarrow> region \<Rightarrow> u64 \<Rightarrow> u64 \<Rightarrow> 'd \<Rightarrow> 'd" where
  "reg_write64 D base reg = iowrite64 D base (8 * (reg div 8))"

definition reg_read32 :: "'d device \<Rightarrow> region \<Rightarrow> u64 \<Rightarrow> 'd \<Rightarrow> u32 \<times> 'd" where
  "reg_read32 D base reg = ioread32 D base (4 * (reg div 4))"

definition reg_write32 :: "'d device \<Rightarrow> region \<Rightarrow> u64 \<Rightarrow> u32 \<Rightarrow> 'd \<Rightarrow> 'd" where
  "reg_write32 D base reg = iowrite32 D base (4 * (reg div 4))"

definition reg_read16 :: "'d device \<Rightarrow> region \<Rightarrow> u64 \<Rightarrow> 'd \<Rightarrow> u16 \<times> 'd" where
  "reg_read16 D base reg = ioread16 D base (2 * (reg div 2))"

definition reg_write16 :: "'d device \<Rightarrow> region \<Rightarrow> u64 \<Rightarrow> u16 \<Rightarrow> 'd \<Rightarrow> 'd" where
  "reg_write16 D base reg = iowrite16 D base (2 * (reg div 2))"

definition reg_read8 :: "'d device \<Rightarrow> region \<Rightarrow> u64 \<Rightarrow> 'd \<Rightarrow> u8 \<times> 'd" where
  "reg_read8 D base reg = ioread8 D base (reg div 1)"

definition reg_write8 :: "'d device \<Rightarrow> region \<Rightarrow> u64 \<Rightarrow> u8 \<Rightarrow> 'd \<Rightarrow> 'd" where
  "reg_write8 D base reg = iowrite8 D base (reg div 1)"

text \<open>On an aligned register the rounding does nothing.\<close>

lemma word_mult_div_dvd:
  assumes "unat n dvd unat x" and "n \<noteq> 0"
  shows "n * (x div n) = (x :: u64)"
proof -
  have "unat (n * (x div n)) = unat n * (unat x div unat n) mod 2 ^ 64"
    by (simp add: unat_word_ariths unat_div mod_mult_right_eq)
  also have "\<dots> = unat x" using assms(1) unsigned_less [of x, where 'a = nat] by simp
  finally show ?thesis by (rule unsigned_word_eqI)
qed

lemma reg_write_aligned:
  "reg_write8 D base reg = iowrite8 D base reg"
  "2 dvd unat reg \<Longrightarrow> reg_write16 D base reg = iowrite16 D base reg"
  "4 dvd unat reg \<Longrightarrow> reg_write32 D base reg = iowrite32 D base reg"
  "8 dvd unat reg \<Longrightarrow> reg_write64 D base reg = iowrite64 D base reg"
  using word_mult_div_dvd [of 2 reg] word_mult_div_dvd [of 4 reg] word_mult_div_dvd [of 8 reg]
  by (simp_all add: reg_write8_def reg_write16_def reg_write32_def reg_write64_def)

lemma reg_read_aligned:
  "reg_read8 D base reg = ioread8 D base reg"
  "2 dvd unat reg \<Longrightarrow> reg_read16 D base reg = ioread16 D base reg"
  "4 dvd unat reg \<Longrightarrow> reg_read32 D base reg = ioread32 D base reg"
  "8 dvd unat reg \<Longrightarrow> reg_read64 D base reg = ioread64 D base reg"
  using word_mult_div_dvd [of 2 reg] word_mult_div_dvd [of 4 reg] word_mult_div_dvd [of 8 reg]
  by (simp_all add: reg_read8_def reg_read16_def reg_read32_def reg_read64_def)

section \<open>Little-endian byte memory\<close>

type_synonym bytes_at = "nat \<Rightarrow> u8"

text \<open>Reading and writing \<open>n\<close> bytes at address \<open>a\<close>, least significant byte first.\<close>

primrec le_get :: "bytes_at \<Rightarrow> nat \<Rightarrow> nat \<Rightarrow> u64" where
  "le_get m a 0 = 0"
| "le_get m a (Suc n) = ucast (m a) OR push_bit 8 (le_get m (Suc a) n)"

definition le_byte :: "u64 \<Rightarrow> nat \<Rightarrow> u8" where
  "le_byte v i = ucast (drop_bit (8 * i) v)"

definition le_put :: "bytes_at \<Rightarrow> nat \<Rightarrow> nat \<Rightarrow> u64 \<Rightarrow> bytes_at" where
  "le_put m a n v = (\<lambda>b. if a \<le> b \<and> b < a + n then le_byte v (b - a) else m b)"

definition ram_device :: "(region \<Rightarrow> bytes_at) device" where
  "ram_device = \<lparr>
     dev_read = (\<lambda>r n off m. (le_get (m r) (unat off) n, m)),
     dev_write = (\<lambda>r n off v m. m(r := le_put (m r) (unat off) n v)) \<rparr>"

lemma le_get_numeral:
  "le_get m a (numeral k) = ucast (m a) OR push_bit 8 (le_get m (Suc a) (pred_numeral k))"
  by (simp add: numeral_eq_Suc)

lemma bit_le_get:
  "bit (le_get m a n) k \<longleftrightarrow> k < 64 \<and> k < 8 * n \<and> bit (m (a + k div 8)) (k mod 8)"
proof (induction n arbitrary: a k)
  case (Suc n)
  show ?case
  proof (cases "k < 8")
    case True
    then show ?thesis by (simp add: bit_or_iff bit_push_bit_iff bit_ucast_iff)
  next
    case False
    then have "a + k div 8 = Suc a + (k - 8) div 8" and "k mod 8 = (k - 8) mod 8"
      by (simp_all add: le_div_geq le_mod_geq)
    moreover have "\<not> bit (m a) k" using False by (auto dest: bit_imp_le_length)
    ultimately show ?thesis using False Suc.IH [of "Suc a" "k - 8"]
      by (auto simp: bit_or_iff bit_push_bit_iff bit_ucast_iff dest: bit_imp_le_length)
  qed
qed simp

lemma le_get_cong:
  "(\<And>i. i < n \<Longrightarrow> m (a + i) = m' (a + i)) \<Longrightarrow> le_get m a n = le_get m' a n"
proof (rule bit_eqI)
  fix k
  assume eq: "\<And>i. i < n \<Longrightarrow> m (a + i) = m' (a + i)"
  show "bit (le_get m a n) k = bit (le_get m' a n) k"
    using eq [of "k div 8"] by (auto simp: bit_le_get less_mult_imp_div_less mult.commute)
qed

lemma le_get_put_same:
  assumes "\<And>i. i < n \<Longrightarrow> m (a + i) = le_byte v i"
  shows "le_get m a n = take_bit (8 * n) v"
proof (rule bit_eqI)
  fix k
  show "bit (le_get m a n) k = bit (take_bit (8 * n) v) k"
  proof (cases "k < 8 * n")
    case True
    then have "k div 8 < n" by (simp add: less_mult_imp_div_less mult.commute)
    with assms have "m (a + k div 8) = le_byte v (k div 8)" .
    then show ?thesis using True
      by (auto simp: bit_le_get bit_take_bit_iff le_byte_def bit_ucast_iff bit_drop_bit_eq
          dest: bit_imp_le_length)
  qed (simp add: bit_le_get bit_take_bit_iff)
qed

section \<open>The contract of storage registers\<close>

text \<open>
  A register access covers a range of bytes of one region. \<open>reg_val\<close> is the value
  such a range holds in a given hardware state, seen through \<open>peek\<close>.
\<close>

definition span :: "region \<Rightarrow> u64 \<Rightarrow> nat \<Rightarrow> (region \<times> nat) set" where
  "span r off n = {r} \<times> {unat off ..< unat off + n}"

definition reg_val :: "('d \<Rightarrow> region \<times> nat \<Rightarrow> u8) \<Rightarrow> 'd \<Rightarrow> region \<Rightarrow> u64 \<Rightarrow> nat \<Rightarrow> u64" where
  "reg_val peek h r off n = le_get (\<lambda>b. peek h (r, b)) (unat off) n"

lemma reg_val_1: "reg_val peek h r off 1 = ucast (peek h (r, unat off))"
  by (simp add: reg_val_def)

lemma ucast_reg_val_1: "(ucast (reg_val peek h r off 1) = (0 :: u8)) = (reg_val peek h r off 1 = 0)"
proof -
  have "(ucast (ucast b :: u64) :: u8) = b" for b :: u8
    by (rule bit_word_eqI) (auto simp: bit_simps)
  then show ?thesis unfolding reg_val_1 by (metis unsigned_0)
qed

lemma in_span [simp]: "(r', b) \<in> span r off n \<longleftrightarrow> r' = r \<and> unat off \<le> b \<and> b < unat off + n"
  by (auto simp: span_def)

lemma span_disjoint:
  "span r a n \<inter> span r' b k = {} \<longleftrightarrow>
     r \<noteq> r' \<or> n = 0 \<or> k = 0 \<or> unat a + n \<le> unat b \<or> unat b + k \<le> unat a"
  by (auto simp: span_def Times_Int_Times Int_atLeastLessThan)

text \<open>
  \<open>S\<close> is the set of bytes that hold plain storage. A read inside it returns the
  stored bytes and no read changes them; a write that lies inside \<open>S\<close>, or outside it,
  changes exactly the storage bytes it covers. Nothing is said of the other bytes: a
  counter, a queue port or a status bit may answer as it likes.
\<close>

type_synonym wr = "region \<times> nat \<times> u64 \<times> u64"

text \<open>One write; whether it lies inside or outside of \<open>S\<close>; whether it misses a register.\<close>

fun do_write :: "'d device \<Rightarrow> wr \<Rightarrow> 'd \<Rightarrow> 'd" where
  "do_write D (r, n, off, v) h = dev_write D r n off v h"

fun wr_in :: "(region \<times> nat) set \<Rightarrow> wr \<Rightarrow> bool" where
  "wr_in S (r, n, off, v) \<longleftrightarrow> span r off n \<subseteq> S \<or> span r off n \<inter> S = {}"

fun apart :: "wr \<Rightarrow> region \<Rightarrow> u64 \<Rightarrow> nat \<Rightarrow> bool" where
  "apart (r, n, off, v) r' b k \<longleftrightarrow> r \<noteq> r' \<or> unat off + n \<le> unat b \<or> unat b + k \<le> unat off"

locale storage_device =
  fixes D :: "'d device"
    and S :: "(region \<times> nat) set"
    and peek :: "'d \<Rightarrow> region \<times> nat \<Rightarrow> u8"
  assumes read_val: "span r off n \<subseteq> S \<Longrightarrow> fst (dev_read D r n off h) = reg_val peek h r off n"
    and read_keeps: "x \<in> S \<Longrightarrow> peek (snd (dev_read D r n off h)) x = peek h x"
    and write_peek: "span r off n \<subseteq> S \<or> span r off n \<inter> S = {} \<Longrightarrow> x \<in> S \<Longrightarrow>
      peek (dev_write D r n off v h) x =
        (if x \<in> span r off n then le_byte v (snd x - unat off) else peek h x)"
begin

lemma reg_val_read [simp]:
  assumes "span r' b k \<subseteq> S"
  shows "reg_val peek (snd (dev_read D r n off h)) r' b k = reg_val peek h r' b k"
  unfolding reg_val_def
  by (rule le_get_cong) (use assms in \<open>auto simp: subset_iff intro!: read_keeps\<close>)

lemma reg_val_write_same:
  assumes "span r off n \<subseteq> S"
  shows "reg_val peek (dev_write D r n off v h) r off n = take_bit (8 * n) v"
  unfolding reg_val_def
  by (rule le_get_put_same) (use assms in \<open>auto simp: subset_iff write_peek\<close>)

lemma reg_val_write_other:
  assumes "span r' b k \<subseteq> S" and "span r off n \<subseteq> S \<or> span r off n \<inter> S = {}"
    and "span r off n \<inter> span r' b k = {}"
  shows "reg_val peek (dev_write D r n off v h) r' b k = reg_val peek h r' b k"
proof -
  have "peek (dev_write D r n off v h) (r', unat b + i) = peek h (r', unat b + i)" if "i < k" for i
  proof -
    from that have x: "(r', unat b + i) \<in> span r' b k" by simp
    with assms(3) have "(r', unat b + i) \<notin> span r off n" by blast
    with assms(1,2) x show ?thesis by (subst write_peek) auto
  qed
  then show ?thesis unfolding reg_val_def by (intro le_get_cong) simp
qed

text \<open>
  After a sequence of writes a register holds the value written to it, if every write of
  the sequence either goes to that register, with that value, or does not touch it.
\<close>

lemma reg_val_writes_other:
  assumes "span r' b k \<subseteq> S" and "\<forall>w\<in>set ws. wr_in S w \<and> apart w r' b k"
  shows "reg_val peek (fold (do_write D) ws h) r' b k = reg_val peek h r' b k"
  using assms(2)
proof (induction ws arbitrary: h)
  case (Cons w ws)
  obtain r n off v where w: "w = (r, n, off, v)" by (cases w)
  from Cons.prems have "wr_in S w" and "apart w r' b k" by simp_all
  then have "reg_val peek (do_write D w h) r' b k = reg_val peek h r' b k"
    using assms(1) unfolding w wr_in.simps apart.simps do_write.simps
    by (intro reg_val_write_other) (auto simp: span_disjoint)
  with Cons show ?case by simp
qed simp

lemma reg_val_writes:
  assumes "span r off n \<subseteq> S" and "(r, n, off, v) \<in> set ws"
    and "\<forall>w\<in>set ws. wr_in S w \<and> (w = (r, n, off, v) \<or> apart w r off n)"
  shows "reg_val peek (fold (do_write D) ws h) r off n = take_bit (8 * n) v"
  using assms(2,3)
proof (induction ws rule: rev_induct)
  case (snoc w ws)
  show ?case
  proof (cases "w = (r, n, off, v)")
    case True
    then show ?thesis using assms(1) by (simp add: reg_val_write_same)
  next
    case False
    with snoc.prems have "wr_in S w" and "apart w r off n" by simp_all
    with assms(1) have "reg_val peek (do_write D w h') r off n = reg_val peek h' r off n" for h'
      using reg_val_writes_other [of r off n "[w]"] by simp
    with snoc False show ?thesis by simp
  qed
qed simp

end

text \<open>What evaluates an access to \<^const>\<open>ram_device\<close>.\<close>

lemmas io_eval = ioread8_def ioread16_def ioread32_def ioread64_def iowrite8_def iowrite16_def
  iowrite32_def iowrite64_def ram_device_def le_get_numeral

lemma ram_storage: "storage_device ram_device S (\<lambda>m (r, a). m r a)"
  by unfold_locales (auto simp: ram_device_def reg_val_def le_put_def)

interpretation ram: storage_device ram_device UNIV "\<lambda>m (r, a). m r a"
  by (rule ram_storage)

end
