(* ===== verification/Accnet_Regs.thy ===== *)
theory Accnet_Regs
  imports Mmio
begin

text \<open>
  The register map and the size macros of boards/default/drivers/accnet-driver/accnet.h.
  Offsets are 64-bit, as the \<open>UL\<close> constants and the cast \<open>(uint64_t)(r)\<close> make them.
\<close>

section \<open>Interrupt mask bits and engine registers\<close>

definition ACCNET_INTMASK_TX :: u32 where [reg_offsets]: "ACCNET_INTMASK_TX = 1"
definition ACCNET_INTMASK_RX :: u32 where [reg_offsets]: "ACCNET_INTMASK_RX = 2"
definition ACCNET_INTMASK_BOTH :: u32 where [reg_offsets]: "ACCNET_INTMASK_BOTH = 3"

definition ACCNET_BASE :: u64 where [reg_offsets]: "ACCNET_BASE = 0"
definition ACCNET_CTRL_OFFSET :: u64 where [reg_offsets]: "ACCNET_CTRL_OFFSET = 0"
definition ACCNET_CTRL_BASE :: u64 where
  [reg_offsets]: "ACCNET_CTRL_BASE = ACCNET_BASE + ACCNET_CTRL_OFFSET"
definition ACCNET_INTR_MASK :: u64 where [reg_offsets]: "ACCNET_INTR_MASK = ACCNET_CTRL_BASE + 0x00"
definition ACCNET_CTRL_TIMESTAMP :: u64 where
  [reg_offsets]: "ACCNET_CTRL_TIMESTAMP = ACCNET_CTRL_BASE + 0x10"

definition ACCNET_RX_DMA_ADDR_COUNT :: u64 where [reg_offsets]: "ACCNET_RX_DMA_ADDR_COUNT = 0x04"
definition ACCNET_RX_DMA_ADDR :: u64 where [reg_offsets]: "ACCNET_RX_DMA_ADDR = 0x08"
definition ACCNET_RX_COMP_LOG :: u64 where [reg_offsets]: "ACCNET_RX_COMP_LOG = 0x10"
definition ACCNET_RX_COMP_COUNT :: u64 where [reg_offsets]: "ACCNET_RX_COMP_COUNT = 0x18"
definition ACCNET_RX_INTR_CLEAR :: u64 where [reg_offsets]: "ACCNET_RX_INTR_CLEAR = 0x24"

definition ACCNET_TX_REQ_COUNT :: u64 where [reg_offsets]: "ACCNET_TX_REQ_COUNT = 0x00"
definition ACCNET_TX_REQ :: u64 where [reg_offsets]: "ACCNET_TX_REQ = 0x08"
definition ACCNET_TX_COUNT :: u64 where [reg_offsets]: "ACCNET_TX_COUNT = 0x10"
definition ACCNET_TX_COMP_READ :: u64 where [reg_offsets]: "ACCNET_TX_COMP_READ = 0x12"
definition ACCNET_TX_INTR_CLEAR :: u64 where [reg_offsets]: "ACCNET_TX_INTR_CLEAR = 0x1C"

section \<open>UDP engines\<close>

definition ACCNET_UDP_RING_COUNT :: nat where "ACCNET_UDP_RING_COUNT = 64"

definition ACCNET_UDP_RX_RING_STRIDE :: u64 where [reg_offsets]: "ACCNET_UDP_RX_RING_STRIDE = 0x20"
definition ACCNET_UDP_RX_RING_REG :: "int \<Rightarrow> u64 \<Rightarrow> u64" where
  [reg_offsets]: "ACCNET_UDP_RX_RING_REG r off = word_of_int r * ACCNET_UDP_RX_RING_STRIDE + off"
definition ACCNET_UDP_RX_RING_HEAD :: "int \<Rightarrow> u64" where
  [reg_offsets]: "ACCNET_UDP_RX_RING_HEAD r = ACCNET_UDP_RX_RING_REG r 0x00"
definition ACCNET_UDP_RX_RING_TAIL :: "int \<Rightarrow> u64" where
  [reg_offsets]: "ACCNET_UDP_RX_RING_TAIL r = ACCNET_UDP_RX_RING_REG r 0x04"
definition ACCNET_UDP_RX_RING_DROP :: "int \<Rightarrow> u64" where
  [reg_offsets]: "ACCNET_UDP_RX_RING_DROP r = ACCNET_UDP_RX_RING_REG r 0x08"
definition ACCNET_UDP_RX_RING_LAST_TIMESTAMP :: "int \<Rightarrow> u64" where
  [reg_offsets]: "ACCNET_UDP_RX_RING_LAST_TIMESTAMP r = ACCNET_UDP_RX_RING_REG r 0x10"
definition ACCNET_UDP_RX_IRQ_PENDING :: u64 where [reg_offsets]: "ACCNET_UDP_RX_IRQ_PENDING = 0x400"
definition ACCNET_UDP_RX_IRQ_CLEAR :: u64 where [reg_offsets]: "ACCNET_UDP_RX_IRQ_CLEAR = 0x404"

definition ACCNET_UDP_TX_RING_STRIDE :: u64 where [reg_offsets]: "ACCNET_UDP_TX_RING_STRIDE = 0x10"
definition ACCNET_UDP_TX_RING_REG :: "int \<Rightarrow> u64 \<Rightarrow> u64" where
  [reg_offsets]: "ACCNET_UDP_TX_RING_REG r off = word_of_int r * ACCNET_UDP_TX_RING_STRIDE + off"
definition ACCNET_UDP_TX_RING_HEAD :: "int \<Rightarrow> u64" where
  [reg_offsets]: "ACCNET_UDP_TX_RING_HEAD r = ACCNET_UDP_TX_RING_REG r 0x00"
definition ACCNET_UDP_TX_RING_TAIL :: "int \<Rightarrow> u64" where
  [reg_offsets]: "ACCNET_UDP_TX_RING_TAIL r = ACCNET_UDP_TX_RING_REG r 0x04"
definition ACCNET_UDP_TX_RING_LAST_TIMESTAMP :: "int \<Rightarrow> u64" where
  [reg_offsets]: "ACCNET_UDP_TX_RING_LAST_TIMESTAMP r = ACCNET_UDP_TX_RING_REG r 0x08"

definition ACCNET_UDP_TX_MTU :: u64 where [reg_offsets]: "ACCNET_UDP_TX_MTU = 0x400"
definition ACCNET_UDP_TX_HDR_MAC_DST :: u64 where [reg_offsets]: "ACCNET_UDP_TX_HDR_MAC_DST = 0x408"
definition ACCNET_UDP_TX_HDR_MAC_SRC :: u64 where [reg_offsets]: "ACCNET_UDP_TX_HDR_MAC_SRC = 0x410"
definition ACCNET_UDP_TX_HDR_IP_TOS :: u64 where [reg_offsets]: "ACCNET_UDP_TX_HDR_IP_TOS = 0x420"
definition ACCNET_UDP_TX_HDR_IP_TTL :: u64 where [reg_offsets]: "ACCNET_UDP_TX_HDR_IP_TTL = 0x424"
definition ACCNET_UDP_TX_HDR_IP_ID :: u64 where [reg_offsets]: "ACCNET_UDP_TX_HDR_IP_ID = 0x428"
definition ACCNET_UDP_TX_IRQ_PENDING :: u64 where [reg_offsets]: "ACCNET_UDP_TX_IRQ_PENDING = 0x430"
definition ACCNET_UDP_TX_IRQ_CLEAR :: u64 where [reg_offsets]: "ACCNET_UDP_TX_IRQ_CLEAR = 0x434"

section \<open>Sizes and alignment\<close>

definition CONFIG_ACCNET_MTU :: int where "CONFIG_ACCNET_MTU = 1500"
definition CONFIG_ACCNET_TX_THRESHOLD :: int where "CONFIG_ACCNET_TX_THRESHOLD = 16"
definition ETH_HEADER_BYTES :: int where "ETH_HEADER_BYTES = 14"
definition ALIGN_BYTES :: nat where "ALIGN_BYTES = 64"
definition ALIGN_SHIFT :: nat where "ALIGN_SHIFT = 6"

text \<open>\<open>NET_IP_ALIGN\<close> is the kernel's, so the frame size takes it as an argument.\<close>

definition MAX_FRAME_SIZE :: "int \<Rightarrow> int" where
  "MAX_FRAME_SIZE net_ip_align = CONFIG_ACCNET_MTU + ETH_HEADER_BYTES + net_ip_align"

text \<open>\<open>__ALIGN_KERNEL(x, a)\<close> is \<open>(x + (a - 1)) & ~(a - 1)\<close>.\<close>

definition DMA_PTR_ALIGN :: "u64 \<Rightarrow> u64" where
  "DMA_PTR_ALIGN p = (p + (of_nat ALIGN_BYTES - 1)) AND NOT (of_nat ALIGN_BYTES - 1)"

definition DMA_LEN_ALIGN :: "int \<Rightarrow> int" where
  "DMA_LEN_ALIGN n = push_bit ALIGN_SHIFT (drop_bit ALIGN_SHIFT (n - 1) + 1)"

definition MACADDR_BYTES :: nat where "MACADDR_BYTES = 6"
definition MAGIC_CHAR :: u64 where "MAGIC_CHAR = 0xCCCCCCCC"

section \<open>Where the registers lie\<close>

text \<open>
  The spans of the per-ring registers, for the ring numbers the driver uses. All
  arithmetic on offsets happens below \<open>2^64\<close>, so it can be done on \<^typ>\<open>nat\<close>.
\<close>

lemma unat_word_of_int_small:
  "0 \<le> r \<Longrightarrow> r < 2 ^ 32 \<Longrightarrow> unat (word_of_int r :: u64) = nat r"
  by (simp add: unat_eq_nat_uint uint_word_of_int_eq take_bit_int_eq_self)

lemma unat_rx_ring_reg:
  assumes "0 \<le> r" and "r < 64" and "unat off < 0x20"
  shows "unat (ACCNET_UDP_RX_RING_REG r off) = nat r * 0x20 + unat off"
  using assms
  by (simp add: ACCNET_UDP_RX_RING_REG_def ACCNET_UDP_RX_RING_STRIDE_def unat_word_ariths
      unat_word_of_int_small nat_less_iff)

lemma unat_tx_ring_reg:
  assumes "0 \<le> r" and "r < 64" and "unat off < 0x10"
  shows "unat (ACCNET_UDP_TX_RING_REG r off) = nat r * 0x10 + unat off"
  using assms
  by (simp add: ACCNET_UDP_TX_RING_REG_def ACCNET_UDP_TX_RING_STRIDE_def unat_word_ariths
      unat_word_of_int_small nat_less_iff)

lemma DMA_PTR_ALIGN_unat:
  assumes "unat p + 63 < 2 ^ 64"
  shows "unat (DMA_PTR_ALIGN p) = (unat p + 63) div 64 * 64"
  using unat_align_up [of p 6] assms
  by (simp add: DMA_PTR_ALIGN_def ALIGN_BYTES_def mask_eq_exp_minus_1)

end
