(* ===== verification/Fifo.thy ===== *)
theory Fifo
  imports FM_Prelude
begin

text \<open>
  The contract of a first-in first-out queue, as the clients of the two queues of the
  sources use it: the ring of socket buffers of the AccNet driver
  (\<open>struct sk_buff_cq\<close>) and the timestamp queue of the RDMA echo server (\<open>rxq\<close>).
  The abstraction is the list of the queued elements, oldest first.
\<close>

text \<open>Take up to \<open>n\<close> elements out of a queue, stopping where it is empty.\<close>

primrec drain :: "('q \<Rightarrow> 'a option \<times> 'q) \<Rightarrow> nat \<Rightarrow> 'q \<Rightarrow> 'a list \<times> 'q" where
  "drain pop 0 q = ([], q)"
| "drain pop (Suc n) q =
     (case pop q of
        (None, q') \<Rightarrow> ([], q')
      | (Some x, q') \<Rightarrow> (case drain pop n q' of (xs, q'') \<Rightarrow> (x # xs, q'')))"

locale fifo =
  fixes push :: "'q \<Rightarrow> 'a \<Rightarrow> 'q"
    and pop :: "'q \<Rightarrow> 'a option \<times> 'q"
    and contents :: "'q \<Rightarrow> 'a list"
    and inv :: "'q \<Rightarrow> bool"
    and room :: "'q \<Rightarrow> bool"
  assumes contents_push: "inv q \<Longrightarrow> room q \<Longrightarrow> contents (push q x) = contents q @ [x]"
    and push_full: "inv q \<Longrightarrow> \<not> room q \<Longrightarrow> push q x = q"
    and inv_push: "inv q \<Longrightarrow> inv (push q x)"
    and pop_empty: "inv q \<Longrightarrow> contents q = [] \<Longrightarrow> pop q = (None, q)"
    and pop_Cons: "inv q \<Longrightarrow> contents q = x # xs \<Longrightarrow>
      fst (pop q) = Some x \<and> contents (snd (pop q)) = xs"
    and inv_pop: "inv q \<Longrightarrow> inv (snd (pop q))"
begin

lemma inv_pushes: "inv q \<Longrightarrow> inv (foldl push q xs)"
  by (induction xs arbitrary: q) (auto intro: inv_push)

lemma drain_contents:
  assumes "inv q"
  shows "fst (drain pop n q) = take n (contents q)
    \<and> contents (snd (drain pop n q)) = drop n (contents q) \<and> inv (snd (drain pop n q))"
  using assms
proof (induction n arbitrary: q)
  case (Suc n)
  show ?case
  proof (cases "contents q")
    case Nil
    with Suc.prems show ?thesis by (simp add: pop_empty)
  next
    case (Cons x xs)
    with Suc.prems have "fst (pop q) = Some x" and xs: "contents (snd (pop q)) = xs"
      using pop_Cons by blast+
    then have pop: "pop q = (Some x, snd (pop q))" by (metis prod.collapse)
    have "inv (snd (pop q))" using Suc.prems by (rule inv_pop)
    from Suc.IH [OF this] show ?thesis
      unfolding drain.simps by (subst (1 2 3) pop) (simp add: Cons xs case_prod_beta)
  qed
qed simp

end

text \<open>A queue of bounded capacity drops what does not fit and keeps what is queued.\<close>

locale bounded_fifo = fifo +
  fixes cap :: nat
  assumes room_iff: "inv q \<Longrightarrow> room q \<longleftrightarrow> length (contents q) < cap"
begin

lemma contents_pushes:
  "inv q \<Longrightarrow> contents (foldl push q xs) = contents q @ take (cap - length (contents q)) xs"
proof (induction xs arbitrary: q)
  case (Cons x xs)
  show ?case
  proof (cases "room q")
    case True
    with Cons.prems have "contents (push q x) = contents q @ [x]"
      and "length (contents q) < cap" by (simp_all add: contents_push room_iff)
    with Cons.IH [OF inv_push [OF Cons.prems]] show ?thesis
      by (simp add: Suc_diff_Suc [symmetric])
  next
    case False
    with Cons.prems have "push q x = q" and "cap \<le> length (contents q)"
      by (simp_all add: push_full room_iff)
    with Cons show ?thesis by simp
  qed
qed simp

lemma length_contents_pushes:
  assumes "inv q" and "length (contents q) \<le> cap"
  shows "length (contents (foldl push q xs)) \<le> cap"
  using assms by (simp add: contents_pushes)

end

end
