(* ===== verification/Sk_Buff_Cq.thy ===== *)
theory Sk_Buff_Cq
  imports Fifo
begin

text \<open>
  The circular queue of socket buffers of the AccNet driver: \<open>struct sk_buff_cq\<close> of
  boards/default/drivers/accnet-driver/accnet.h and its operations in accnet.c. A
  socket buffer belongs to the kernel; the model keeps what the driver reads of it,
  and \<open>skb_id\<close> stands for its address. A pointer is an option, None for NULL.
\<close>

record skb_frag =
  bv_page :: u64
  bv_offset :: u32
  bv_len :: u32

record sk_buff =
  skb_id :: nat
  skb_data :: u64
  skb_len :: u32
  skb_headlen :: u32
  skb_frags :: "skb_frag list"

record sk_buff_cq =
  entries :: "sk_buff option list"
  head :: int
  tail :: int

definition CONFIG_ACCNET_RING_SIZE :: int where
  "CONFIG_ACCNET_RING_SIZE = 1280"

definition sk_buff_cq_init :: "sk_buff_cq \<Rightarrow> sk_buff_cq" where
  "sk_buff_cq_init cq = cq\<lparr>head := 0, tail := 0\<rparr>"

definition sk_buff_cq_push :: "sk_buff_cq \<Rightarrow> sk_buff option \<Rightarrow> sk_buff_cq" where
  "sk_buff_cq_push cq skb =
     (if (head cq + 1) AND (CONFIG_ACCNET_RING_SIZE - 1) = tail cq then cq
      else cq\<lparr>entries := (entries cq)[nat (head cq) := skb],
              head := (head cq + 1) AND (CONFIG_ACCNET_RING_SIZE - 1)\<rparr>)"

definition sk_buff_cq_pop :: "sk_buff_cq \<Rightarrow> sk_buff option \<times> sk_buff_cq" where
  "sk_buff_cq_pop cq =
     (if head cq = tail cq then (None, cq)
      else (entries cq ! nat (tail cq),
            cq\<lparr>tail := (tail cq + 1) AND (CONFIG_ACCNET_RING_SIZE - 1)\<rparr>))"

text \<open>What dereferencing a bad pointer comes to.\<close>

datatype fault = NullDeref | UseAfterFree

text \<open>
  \<open>skb_shinfo(skb)->nr_frags + 1\<close> for the entry at the tail, which the function reads
  without looking whether the queue is empty. On an empty queue the entry is NULL, or
  a buffer that was popped before and that its new owner may have freed.
\<close>

definition sk_buff_cq_tail_nsegments :: "sk_buff_cq \<Rightarrow> fault + int" where
  "sk_buff_cq_tail_nsegments cq =
     (case entries cq ! nat (tail cq) of
        None \<Rightarrow> Inl NullDeref
      | Some skb \<Rightarrow>
          if head cq = tail cq then Inl UseAfterFree
          else Inr (int (length (skb_frags skb)) + 1))"

text \<open>A queue in the zeroed memory of a new device, after \<open>sk_buff_cq_init\<close>.\<close>

definition fresh_cq :: sk_buff_cq where
  "fresh_cq = sk_buff_cq_init
     \<lparr>entries = replicate (nat CONFIG_ACCNET_RING_SIZE) None, head = 0, tail = 0\<rparr>"

section \<open>The queue as a list\<close>

text \<open>
  The mask \<open>CONFIG_ACCNET_RING_SIZE - 1\<close> is 1279, which is not of the form
  \<open>2^k - 1\<close>: bits 8 and 9 are zero, so an index counts modulo 256 and only the first
  256 of the 1280 entries are ever used.
\<close>

definition cq_count :: "sk_buff_cq \<Rightarrow> nat" where
  "cq_count cq = nat ((head cq - tail cq) mod 256)"

definition cq_slot :: "sk_buff_cq \<Rightarrow> nat \<Rightarrow> nat" where
  "cq_slot cq i = nat ((tail cq + int i) mod 256)"

definition cq_list :: "sk_buff_cq \<Rightarrow> sk_buff list" where
  "cq_list cq = map (\<lambda>i. the (entries cq ! cq_slot cq i)) [0..<cq_count cq]"

definition cq_wf :: "sk_buff_cq \<Rightarrow> bool" where
  "cq_wf cq \<longleftrightarrow> length (entries cq) = nat CONFIG_ACCNET_RING_SIZE
     \<and> 0 \<le> head cq \<and> head cq < 256 \<and> 0 \<le> tail cq \<and> tail cq < 256
     \<and> list_all (\<lambda>i. entries cq ! cq_slot cq i \<noteq> None) [0..<cq_count cq]"

definition cq_room :: "sk_buff_cq \<Rightarrow> bool" where
  "cq_room cq \<longleftrightarrow> cq_count cq < 255"

lemma mask_1279:
  assumes "0 \<le> x" and "x < (512::int)"
  shows "x AND 1279 = x mod 256"
proof -
  have "x AND 1279 = x AND (mask 8 OR 2 ^ 10)" by (simp add: mask_eq_exp_minus_1)
  also have "\<dots> = (x AND mask 8) OR (x AND 2 ^ 10)" by (rule bit.conj_disj_distrib)
  also have "x AND 2 ^ 10 = 0" using assms by (intro int_and_exp_eq_0) simp_all
  finally show ?thesis by (simp add: take_bit_eq_mask [symmetric] take_bit_eq_mod)
qed

lemma cq_next:
  assumes "0 \<le> x" and "x < 256"
  shows "(x + 1) AND (CONFIG_ACCNET_RING_SIZE - 1) = (x + 1) mod 256"
  using mask_1279 [of "x + 1"] assms by (simp add: CONFIG_ACCNET_RING_SIZE_def)

text \<open>The two index computations of the ring, without \<open>mod\<close>.\<close>

lemma ring_diff:
  assumes "0 \<le> h" "h < (256::int)" "0 \<le> t" "t < 256"
  shows "(h - t) mod 256 = (if t \<le> h then h - t else h - t + 256)"
proof (cases "t \<le> h")
  case False
  have "(h - t) mod 256 = (h - t + 256) mod 256" by simp
  also have "\<dots> = h - t + 256" using False assms by (intro mod_pos_pos_trivial) simp_all
  finally show ?thesis using False by simp
qed (use assms in simp)

lemma ring_succ:
  assumes "0 \<le> x" "x < (256::int)"
  shows "(x + 1) mod 256 = (if x = 255 then 0 else x + 1)"
  using assms by simp

lemma cq_count_less: "cq_count cq < 256"
  by (simp add: cq_count_def nat_less_iff)

lemma cq_wfD:
  assumes "cq_wf cq"
  shows "length (entries cq) = 1280" "0 \<le> head cq" "head cq < 256" "0 \<le> tail cq" "tail cq < 256"
    and "\<And>i. i < cq_count cq \<Longrightarrow> entries cq ! cq_slot cq i \<noteq> None"
  using assms by (auto simp: cq_wf_def CONFIG_ACCNET_RING_SIZE_def list_all_iff)

lemma length_cq_list [simp]: "length (cq_list cq) = cq_count cq"
  by (simp add: cq_list_def)

lemma cq_empty_iff:
  assumes "cq_wf cq"
  shows "cq_list cq = [] \<longleftrightarrow> head cq = tail cq"
proof -
  have "(head cq - tail cq) mod 256 = 0 \<longleftrightarrow> head cq = tail cq"
    using cq_wfD(2-5) [OF assms] by (simp add: ring_diff)
  then show ?thesis by (auto simp: cq_list_def cq_count_def)
qed

lemma cq_full_iff:
  assumes "cq_wf cq"
  shows "(head cq + 1) AND (CONFIG_ACCNET_RING_SIZE - 1) = tail cq \<longleftrightarrow> \<not> cq_room cq"
proof -
  have "(head cq + 1) mod 256 = tail cq \<longleftrightarrow> (head cq - tail cq) mod 256 = 255"
    using cq_wfD(2-5) [OF assms] by (auto simp: ring_diff ring_succ)
  moreover have "(head cq - tail cq) mod 256 \<le> 255" and "0 \<le> (head cq - tail cq) mod 256"
    by simp_all
  ultimately show ?thesis
    using assms by (auto simp: cq_next cq_wfD cq_room_def cq_count_def)
qed

lemma cq_slot_inj:
  assumes "i < 256" and "j < 256" and "cq_slot cq i = cq_slot cq j"
  shows "i = j"
proof -
  from assms(3) have "(tail cq + int i) mod 256 = (tail cq + int j) mod 256"
    by (simp add: cq_slot_def nat_eq_iff)
  then have "int i mod 256 = int j mod 256" by (metis add_diff_cancel_left' mod_diff_left_eq)
  then show ?thesis using assms(1,2) by simp
qed

lemma cq_slot_less: "cq_slot cq i < 256"
  by (simp add: cq_slot_def nat_less_iff)

lemma cq_slot_head:
  assumes "cq_wf cq"
  shows "cq_slot cq (cq_count cq) = nat (head cq)"
  using cq_wfD(2-5) [OF assms] by (simp add: cq_slot_def cq_count_def mod_add_right_eq)

lemma cq_push_room:
  assumes "cq_wf cq" and "cq_room cq"
  shows "sk_buff_cq_push cq skb =
    cq\<lparr>entries := (entries cq)[nat (head cq) := skb], head := (head cq + 1) mod 256\<rparr>"
  using assms cq_full_iff [OF assms(1)] cq_next [OF cq_wfD(2,3) [OF assms(1)]]
  by (simp add: sk_buff_cq_push_def)

lemma cq_push_full: "cq_wf cq \<Longrightarrow> \<not> cq_room cq \<Longrightarrow> sk_buff_cq_push cq skb = cq"
  by (simp add: sk_buff_cq_push_def cq_full_iff)

lemma cq_push_spec:
  assumes "cq_wf cq" and "cq_room cq"
  shows "cq_count (sk_buff_cq_push cq skb) = Suc (cq_count cq)"
    and "cq_slot (sk_buff_cq_push cq skb) = cq_slot cq"
    and "i < cq_count cq \<Longrightarrow>
      entries (sk_buff_cq_push cq skb) ! cq_slot cq i = entries cq ! cq_slot cq i"
    and "entries (sk_buff_cq_push cq skb) ! cq_slot cq (cq_count cq) = skb"
proof -
  note [simp] = cq_push_room [OF assms]
  have "((head cq + 1) mod 256 - tail cq) mod 256 = (head cq - tail cq) mod 256 + 1"
    if "(head cq - tail cq) mod 256 < 255"
    using that cq_wfD(2-5) [OF assms(1)] ring_diff [of "(head cq + 1) mod 256" "tail cq"]
    by (auto simp: ring_diff ring_succ split: if_splits)
  with assms(2) show "cq_count (sk_buff_cq_push cq skb) = Suc (cq_count cq)"
    by (simp add: cq_count_def cq_room_def nat_add_distrib)
  show "cq_slot (sk_buff_cq_push cq skb) = cq_slot cq"
    by (simp add: cq_slot_def fun_eq_iff)
  show "entries (sk_buff_cq_push cq skb) ! cq_slot cq (cq_count cq) = skb"
    using assms(1) cq_slot_less [of cq "cq_count cq"] cq_wfD(1) [OF assms(1)]
    by (simp add: cq_slot_head)
  assume "i < cq_count cq"
  then have "cq_slot cq i \<noteq> cq_slot cq (cq_count cq)"
    using cq_count_less [of cq] cq_slot_inj [of i "cq_count cq" cq] by auto
  then show "entries (sk_buff_cq_push cq skb) ! cq_slot cq i = entries cq ! cq_slot cq i"
    by (simp add: cq_slot_head [OF assms(1)])
qed

lemma cq_wf_push:
  assumes "cq_wf cq" and "skb \<noteq> None"
  shows "cq_wf (sk_buff_cq_push cq skb)"
proof (cases "cq_room cq")
  case True
  note push = cq_push_spec [OF assms(1) True]
  have "entries (sk_buff_cq_push cq skb) ! cq_slot cq i \<noteq> None" if "i < Suc (cq_count cq)" for i
    using that push(3,4) assms cq_wfD(6) by (auto simp: less_Suc_eq)
  moreover have "length (entries (sk_buff_cq_push cq skb)) = nat CONFIG_ACCNET_RING_SIZE"
    and "0 \<le> head (sk_buff_cq_push cq skb)" "head (sk_buff_cq_push cq skb) < 256"
    and "tail (sk_buff_cq_push cq skb) = tail cq"
    using assms(1) by (simp_all add: cq_push_room [OF assms(1) True] cq_wf_def)
  ultimately show ?thesis
    using cq_wfD(4,5) [OF assms(1)] push(1,2) by (simp add: cq_wf_def list_all_iff)
qed (simp add: assms cq_push_full)

lemma cq_list_push:
  assumes "cq_wf cq" and "cq_room cq"
  shows "cq_list (sk_buff_cq_push cq (Some skb)) = cq_list cq @ [skb]"
  by (simp add: cq_list_def cq_push_spec [OF assms] cong: map_cong)

lemma cq_pop_nonempty:
  assumes "cq_wf cq" and "head cq \<noteq> tail cq"
  shows "sk_buff_cq_pop cq = (entries cq ! cq_slot cq 0, cq\<lparr>tail := (tail cq + 1) mod 256\<rparr>)"
  using assms(2) cq_wfD(4,5) [OF assms(1)] cq_next [OF cq_wfD(4,5) [OF assms(1)]]
  by (simp add: sk_buff_cq_pop_def cq_slot_def)

lemma cq_pop_spec:
  assumes "cq_wf cq" and "head cq \<noteq> tail cq"
  shows "cq_count cq = Suc (cq_count (snd (sk_buff_cq_pop cq)))"
    and "cq_slot (snd (sk_buff_cq_pop cq)) i = cq_slot cq (Suc i)"
    and "entries (snd (sk_buff_cq_pop cq)) = entries cq"
proof -
  note [simp] = cq_pop_nonempty [OF assms]
  have "(head cq - tail cq) mod 256 = (head cq - (tail cq + 1) mod 256) mod 256 + 1"
    using assms(2) cq_wfD(2-5) [OF assms(1)] ring_diff [of "head cq" "(tail cq + 1) mod 256"]
    by (auto simp: ring_diff ring_succ split: if_splits)
  then show "cq_count cq = Suc (cq_count (snd (sk_buff_cq_pop cq)))"
    by (simp add: cq_count_def nat_add_distrib)
  show "cq_slot (snd (sk_buff_cq_pop cq)) i = cq_slot cq (Suc i)"
    by (simp add: cq_slot_def mod_add_left_eq add.assoc)
qed (simp add: cq_pop_nonempty [OF assms])

lemma cq_wf_pop:
  assumes "cq_wf cq"
  shows "cq_wf (snd (sk_buff_cq_pop cq))"
proof (cases "head cq = tail cq")
  case False
  have "head (snd (sk_buff_cq_pop cq)) = head cq"
    and "tail (snd (sk_buff_cq_pop cq)) = (tail cq + 1) mod 256"
    by (simp_all add: cq_pop_nonempty [OF assms False])
  with cq_pop_spec [OF assms False] cq_wfD [OF assms] show ?thesis
    by (auto simp: cq_wf_def list_all_iff CONFIG_ACCNET_RING_SIZE_def)
qed (simp add: assms sk_buff_cq_pop_def)

lemma cq_list_pop:
  assumes "cq_wf cq" and "head cq \<noteq> tail cq"
  shows "fst (sk_buff_cq_pop cq) = Some (hd (cq_list cq))"
    and "cq_list (snd (sk_buff_cq_pop cq)) = tl (cq_list cq)"
proof -
  have "cq_list cq = map (\<lambda>i. the (entries cq ! cq_slot cq i))
      (0 # map Suc [0..<cq_count (snd (sk_buff_cq_pop cq))])"
    unfolding cq_list_def cq_pop_spec(1) [OF assms]
    by (simp only: upt_conv_Cons zero_less_Suc map_Suc_upt)
  moreover have "entries cq ! cq_slot cq 0 \<noteq> None"
    using cq_wfD(6) [OF assms(1)] cq_pop_spec(1) [OF assms] by simp
  ultimately show "fst (sk_buff_cq_pop cq) = Some (hd (cq_list cq))"
    and "cq_list (snd (sk_buff_cq_pop cq)) = tl (cq_list cq)"
    using cq_pop_nonempty [OF assms] cq_pop_spec(2,3) [OF assms]
    by (auto simp: cq_list_def)
qed

interpretation cq: bounded_fifo "\<lambda>q x. sk_buff_cq_push q (Some x)" sk_buff_cq_pop cq_list cq_wf
    cq_room 255
proof unfold_locales
  fix q :: sk_buff_cq and x xs
  assume wf: "cq_wf q" and Cons: "cq_list q = x # xs"
  then have "head q \<noteq> tail q" using cq_empty_iff by fastforce
  from cq_list_pop [OF wf this] Cons
  show "fst (sk_buff_cq_pop q) = Some x \<and> cq_list (snd (sk_buff_cq_pop q)) = xs" by simp
next
  fix q :: sk_buff_cq
  assume "cq_wf q" and "cq_list q = []"
  then show "sk_buff_cq_pop q = (None, q)" by (simp add: cq_empty_iff sk_buff_cq_pop_def)
qed (simp_all add: cq_list_push cq_push_full cq_wf_push cq_wf_pop cq_room_def)

lemma fresh_cq [simp]: "cq_wf fresh_cq" "cq_list fresh_cq = []"
  by (simp_all add: fresh_cq_def sk_buff_cq_init_def cq_wf_def cq_list_def cq_count_def)

text \<open>
  Property C1. The ring refines a first-in first-out queue of capacity 255: pushing
  buffers and then popping up to \<open>n\<close> returns what was queued, oldest first, followed by
  the pushed buffers that found room, in order. A push onto a full ring is dropped and
  nothing that was queued is overwritten or reordered.
\<close>

theorem sk_buff_cq_fifo:
  assumes "cq_wf q"
  shows "fst (drain sk_buff_cq_pop n (foldl (\<lambda>q x. sk_buff_cq_push q (Some x)) q xs)) =
    take n (cq_list q @ take (255 - length (cq_list q)) xs)"
  using cq.drain_contents [OF cq.inv_pushes [OF assms]] by (simp add: cq.contents_pushes [OF assms])

theorem sk_buff_cq_fifo_witness:
  "cq_wf fresh_cq \<and>
   map skb_id (fst (drain sk_buff_cq_pop 2 (foldl (\<lambda>q x. sk_buff_cq_push q (Some x)) fresh_cq
     (map (\<lambda>i. \<lparr>skb_id = i, skb_data = 0, skb_len = 60, skb_headlen = 60, skb_frags = []\<rparr>) [7, 8, 9]))))
   = [7, 8]"
  by (subst sk_buff_cq_fifo) simp_all

text \<open>
  The ring has 1280 entries and loses buffers long before they are used
  up: of 256 pushes onto a new ring the last one is dropped, because the index mask
  \<open>CONFIG_ACCNET_RING_SIZE - 1\<close> makes the ring 256 entries long.
\<close>

lemma sk_buff_cq_capacity:
  assumes "length xs = 256"
  shows "nat CONFIG_ACCNET_RING_SIZE = 1280 \<and>
    cq_list (foldl (\<lambda>q x. sk_buff_cq_push q (Some x)) fresh_cq xs) = butlast xs"
  using assms by (simp add: cq.contents_pushes CONFIG_ACCNET_RING_SIZE_def butlast_conv_take)

lemma sk_buff_cq_capacity_witness:
  "cq_count (foldl (\<lambda>q x. sk_buff_cq_push q (Some x)) fresh_cq
     (replicate 256 \<lparr>skb_id = 0, skb_data = 0, skb_len = 60, skb_headlen = 60, skb_frags = []\<rparr>)) = 255"
  using sk_buff_cq_capacity [of "replicate 256
     \<lparr>skb_id = 0, skb_data = 0, skb_len = 60, skb_headlen = 60, skb_frags = []\<rparr>"]
  by (simp flip: length_cq_list)

end
