(* ===== verification/Accnet_Driver.thy ===== *)
theory Accnet_Driver
  imports Accnet_Regs Sk_Buff_Cq
begin

text \<open>
  The data path of the AccNet network driver,
  boards/default/drivers/accnet-driver/accnet.c: posting and completing sends and
  receives, the interrupt handlers, the NAPI poll function and the net_device
  operations. The NIC is the device parameter \<open>D\<close>. The rest of the kernel is seen in
  two ways: a call for its effect is an event appended to the log \<open>klog\<close>, and a call
  for its answer is a field of the parameter \<open>K\<close>, which may look at the log. The
  sections under a spin lock are atomic steps, as are the NAPI callbacks, which the
  kernel never runs concurrently with themselves.
\<close>

section \<open>Kernel interface\<close>

datatype kcall =
    K_consume_skb "sk_buff option"   \<comment> \<open>\<open>dev_consume_skb_irq\<close>\<close>
  | K_kfree_skb sk_buff              \<comment> \<open>\<open>dev_kfree_skb_any\<close>\<close>
  | K_netdev_alloc_skb int
  | K_skb_put sk_buff int
  | K_eth_type_trans sk_buff
  | K_netif_receive_skb sk_buff
  | K_skb_tx_timestamp sk_buff
  | K_netif_start_queue
  | K_netif_stop_queue
  | K_netif_wake_queue
  | K_napi_enable
  | K_napi_disable
  | K_napi_schedule_prep
  | K_napi_schedule                  \<comment> \<open>\<open>__napi_schedule\<close>\<close>
  | K_napi_complete_done int
  | K_netif_napi_add
  | K_netif_napi_del
  | K_ether_setup
  | K_ndev_config int                \<comment> \<open>the assignments to \<open>ndev\<close>, with its \<open>max_mtu\<close>\<close>
  | K_dev_addr_set "u8 list"
  | K_register_netdev
  | K_unregister_netdev
  | K_request_irq int
  | K_misc_register
  | K_misc_deregister

record kernel =
  page_to_phys :: "u64 \<Rightarrow> u64"
  virt_to_phys :: "u64 \<Rightarrow> u64"
  skb_reserve :: "sk_buff \<Rightarrow> int \<Rightarrow> sk_buff"
  netdev_alloc_skb :: "kcall list \<Rightarrow> int \<Rightarrow> sk_buff option"
  netif_queue_stopped :: "kcall list \<Rightarrow> bool"
  napi_schedule_prep :: "kcall list \<Rightarrow> bool"
  MAX_SKB_FRAGS :: int
  NET_IP_ALIGN :: int

section \<open>Device state\<close>

text \<open>
  \<open>struct accnet_device\<close> with the \<open>net_device\<close> statistics the driver updates. The
  locks, the NAPI context and the misc device are the kernel's.
\<close>

record 'd nic =
  hw :: 'd
  klog :: "kcall list"
  send_cq :: sk_buff_cq
  recv_cq :: sk_buff_cq
  tx_irq :: int
  rx_irq :: int
  tx_packets :: u64
  tx_bytes :: u64
  tx_dropped :: u64
  rx_packets :: u64
  rx_bytes :: u64
  hw_regs_control_size :: u64
  hw_regs_control_phys :: u64
  hw_regs_udp_tx_size :: u64
  hw_regs_udp_tx_phys :: u64
  hw_regs_udp_rx_size :: u64
  hw_regs_udp_rx_phys :: u64
  magic :: u64

definition kcall_log :: "kcall \<Rightarrow> 'd nic \<Rightarrow> 'd nic" where
  "kcall_log e s = s\<lparr>klog := klog s @ [e]\<rparr>"

section \<open>Engine counters and the interrupt mask\<close>

definition send_req_avail :: "'d device \<Rightarrow> 'd nic \<Rightarrow> int \<times> 'd nic" where
  "send_req_avail D s =
     (case ioread16 D R_TX ACCNET_TX_REQ_COUNT (hw s) of (v, h) \<Rightarrow>
        (64 - uint (v AND 0xffff), s\<lparr>hw := h\<rparr>))"

definition recv_req_avail :: "'d device \<Rightarrow> 'd nic \<Rightarrow> int \<times> 'd nic" where
  "recv_req_avail D s =
     (case ioread16 D R_RX ACCNET_RX_DMA_ADDR_COUNT (hw s) of (v, h) \<Rightarrow>
        (64 - uint (v AND 0xffff), s\<lparr>hw := h\<rparr>))"

definition send_comp_avail :: "'d device \<Rightarrow> 'd nic \<Rightarrow> int \<times> 'd nic" where
  "send_comp_avail D s =
     (case ioread16 D R_TX ACCNET_TX_COUNT (hw s) of (v, h) \<Rightarrow>
        (uint (v AND 0xffff), s\<lparr>hw := h\<rparr>))"

definition recv_comp_avail :: "'d device \<Rightarrow> 'd nic \<Rightarrow> int \<times> 'd nic" where
  "recv_comp_avail D s =
     (case ioread16 D R_RX ACCNET_RX_COMP_COUNT (hw s) of (v, h) \<Rightarrow>
        (uint (v AND 0xffff), s\<lparr>hw := h\<rparr>))"

text \<open>\<open>atomic_fetch_or\<close> and \<open>atomic_fetch_and\<close> on the 32-bit mask register.\<close>

definition set_intmask :: "'d device \<Rightarrow> u32 \<Rightarrow> 'd nic \<Rightarrow> 'd nic" where
  "set_intmask D m s =
     (case ioread32 D R_CTRL ACCNET_INTR_MASK (hw s) of (v, h) \<Rightarrow>
        s\<lparr>hw := iowrite32 D R_CTRL ACCNET_INTR_MASK (v OR m) h\<rparr>)"

definition clear_intmask :: "'d device \<Rightarrow> u32 \<Rightarrow> 'd nic \<Rightarrow> 'd nic" where
  "clear_intmask D m s =
     (case ioread32 D R_CTRL ACCNET_INTR_MASK (hw s) of (v, h) \<Rightarrow>
        s\<lparr>hw := iowrite32 D R_CTRL ACCNET_INTR_MASK (v AND NOT m) h\<rparr>)"

section \<open>Posting\<close>

text \<open>\<open>packet = (partial << 63) | (len << 48) | (addr & 0xffffffffffffL)\<close>.\<close>

definition tx_packet :: "u64 \<Rightarrow> u64 \<Rightarrow> u64 \<Rightarrow> u64" where
  "tx_packet partial len addr =
     push_bit 63 partial OR push_bit 48 len OR (addr AND 0xffffffffffff)"

definition post_send_frag :: "kernel \<Rightarrow> 'd device \<Rightarrow> skb_frag \<Rightarrow> bool \<Rightarrow> 'd nic \<Rightarrow> 'd nic" where
  "post_send_frag K D frag is_last s =
     (let addr = page_to_phys K (bv_page frag) + ucast (bv_offset frag);
          len = ucast (bv_len frag);
          partial = (if is_last then 0 else 1)
      in s\<lparr>hw := iowrite64 D R_TX ACCNET_TX_REQ (tx_packet partial len addr) (hw s)\<rparr>)"

text \<open>The loop over \<open>shinfo->frags\<close>; the last fragment is the one with none after it.\<close>

fun post_send_frags :: "kernel \<Rightarrow> 'd device \<Rightarrow> skb_frag list \<Rightarrow> 'd nic \<Rightarrow> 'd nic" where
  "post_send_frags K D [] s = s"
| "post_send_frags K D (frag # frags) s =
     post_send_frags K D frags (post_send_frag K D frag (frags = []) s)"

definition post_send :: "kernel \<Rightarrow> 'd device \<Rightarrow> sk_buff \<Rightarrow> 'd nic \<Rightarrow> 'd nic" where
  "post_send K D skb s =
     (let addr = virt_to_phys K (skb_data skb);
          (len, partial) = (if length (skb_frags skb) > 0 then (ucast (skb_headlen skb), 1)
                            else (ucast (skb_len skb), 0));
          s = s\<lparr>hw := iowrite64 D R_TX ACCNET_TX_REQ (tx_packet partial len addr) (hw s)\<rparr>;
          s = post_send_frags K D (skb_frags skb) s
      in s\<lparr>send_cq := sk_buff_cq_push (send_cq s) (Some skb)\<rparr>)"

text \<open>\<open>skb->data\<close> is read first, so a NULL buffer faults here.\<close>

definition post_recv :: "kernel \<Rightarrow> 'd device \<Rightarrow> sk_buff option \<Rightarrow> 'd nic \<Rightarrow> fault + 'd nic" where
  "post_recv K D skb s =
     (case skb of
        None \<Rightarrow> Inl NullDeref
      | Some b \<Rightarrow>
          (let align = sint (ucast (DMA_PTR_ALIGN (skb_data b) - skb_data b) :: u32);
               b = skb_reserve K b align;
               addr = virt_to_phys K (skb_data b);
               s = s\<lparr>hw := iowrite64 D R_RX ACCNET_RX_DMA_ADDR addr (hw s)\<rparr>
           in Inr (s\<lparr>recv_cq := sk_buff_cq_push (recv_cq s) (Some b)\<rparr>)))"

definition send_space :: "'d device \<Rightarrow> int \<Rightarrow> 'd nic \<Rightarrow> bool \<times> 'd nic" where
  "send_space D nfrags s =
     (case send_req_avail D s of (avail, s) \<Rightarrow> (avail \<ge> nfrags, s))"

section \<open>Completing\<close>

text \<open>The inner loop of \<open>complete_send\<close>: one read per segment takes it off the device's count.\<close>

primrec comp_reads :: "'d device \<Rightarrow> nat \<Rightarrow> 'd \<Rightarrow> 'd" where
  "comp_reads D 0 h = h"
| "comp_reads D (Suc n) h = comp_reads D n (snd (ioread16 D R_TX ACCNET_TX_COMP_READ h))"

lemma tail_nsegments_pos: "sk_buff_cq_tail_nsegments cq = Inr n \<Longrightarrow> 1 \<le> n"
  by (auto simp: sk_buff_cq_tail_nsegments_def split: option.splits if_splits)

function complete_send_loop :: "'d device \<Rightarrow> int \<Rightarrow> 'd nic \<Rightarrow> fault + 'd nic" where
  "complete_send_loop D n s =
     (if n > 0 then
        (case sk_buff_cq_tail_nsegments (send_cq s) of
           Inl f \<Rightarrow> Inl f
         | Inr nsegs \<Rightarrow>
             if nsegs > n then Inr s
             else
               (let s = s\<lparr>hw := comp_reads D (nat nsegs) (hw s)\<rparr>;
                    (skb, cq) = sk_buff_cq_pop (send_cq s);
                    s = kcall_log (K_consume_skb skb) (s\<lparr>send_cq := cq\<rparr>)
                in complete_send_loop D (n - nsegs) s))
      else Inr s)"
  by pat_completeness auto
termination
  by (relation "measure (\<lambda>(D, n, s). nat n)") (auto dest: tail_nsegments_pos)

declare complete_send_loop.simps [simp del]

definition complete_send :: "kernel \<Rightarrow> 'd device \<Rightarrow> 'd nic \<Rightarrow> fault + 'd nic" where
  "complete_send K D s =
     (case send_comp_avail D s of (n, s) \<Rightarrow>
        (case complete_send_loop D n s of
           Inl f \<Rightarrow> Inl f
         | Inr s \<Rightarrow>
             (case send_space D (MAX_SKB_FRAGS K) s of (space, s) \<Rightarrow>
                Inr (if space \<and> netif_queue_stopped K (klog s)
                     then kcall_log K_netif_wake_queue s else s))))"

primrec complete_recv_loop :: "'d device \<Rightarrow> nat \<Rightarrow> 'd nic \<Rightarrow> fault + 'd nic" where
  "complete_recv_loop D 0 s = Inr s"
| "complete_recv_loop D (Suc n) s =
     (let (res, h) = ioread64 D R_RX ACCNET_RX_COMP_LOG (hw s);
          len = uint (res AND 0xffff);
          s = s\<lparr>hw := h\<rparr>;
          (skb, cq) = sk_buff_cq_pop (recv_cq s);
          s = s\<lparr>recv_cq := cq\<rparr>
      in case skb of
           None \<Rightarrow> Inl NullDeref
         | Some b \<Rightarrow>
             (let s = kcall_log (K_eth_type_trans b) (kcall_log (K_skb_put b len) s);
                  s = s\<lparr>rx_packets := rx_packets s + 1,
                        rx_bytes := rx_bytes s + word_of_int len\<rparr>
              in complete_recv_loop D n (kcall_log (K_netif_receive_skb b) s)))"

definition complete_recv :: "'d device \<Rightarrow> int \<Rightarrow> 'd nic \<Rightarrow> fault + int \<times> 'd nic" where
  "complete_recv D budget s =
     (case recv_comp_avail D s of (n, s) \<Rightarrow>
        (let n = (if budget < n then budget else n)
         in case complete_recv_loop D (nat n) s of
              Inl f \<Rightarrow> Inl f
            | Inr s \<Rightarrow> Inr (n, s)))"

primrec alloc_recv_loop :: "kernel \<Rightarrow> 'd device \<Rightarrow> nat \<Rightarrow> 'd nic \<Rightarrow> fault + 'd nic" where
  "alloc_recv_loop K D 0 s = Inr s"
| "alloc_recv_loop K D (Suc n) s =
     (let len = DMA_LEN_ALIGN (MAX_FRAME_SIZE (NET_IP_ALIGN K));
          skb = netdev_alloc_skb K (klog s) len;
          s = kcall_log (K_netdev_alloc_skb len) s
      in case post_recv K D skb s of
           Inl f \<Rightarrow> Inl f
         | Inr s \<Rightarrow> alloc_recv_loop K D n s)"

definition alloc_recv :: "kernel \<Rightarrow> 'd device \<Rightarrow> 'd nic \<Rightarrow> fault + 'd nic" where
  "alloc_recv K D s =
     (case recv_req_avail D s of (recv_cnt, s) \<Rightarrow> alloc_recv_loop K D (nat recv_cnt) s)"

section \<open>Interrupts and NAPI\<close>

datatype irqreturn = IRQ_NONE | IRQ_HANDLED

definition accnet_schedule :: "kernel \<Rightarrow> 'd nic \<Rightarrow> 'd nic" where
  "accnet_schedule K s =
     (let ok = napi_schedule_prep K (klog s);
          s = kcall_log K_napi_schedule_prep s
      in if ok then kcall_log K_napi_schedule s else s)"

definition accnet_tx_isr :: "kernel \<Rightarrow> 'd device \<Rightarrow> int \<Rightarrow> 'd nic \<Rightarrow> irqreturn \<times> 'd nic" where
  "accnet_tx_isr K D irq s =
     (if irq \<noteq> tx_irq s then (IRQ_NONE, s)
      else
        (let s = clear_intmask D ACCNET_INTMASK_TX s;
             s = s\<lparr>hw := iowrite8 D R_TX ACCNET_TX_INTR_CLEAR 0x1 (hw s)\<rparr>
         in (IRQ_HANDLED, accnet_schedule K s)))"

definition accnet_rx_isr :: "kernel \<Rightarrow> 'd device \<Rightarrow> int \<Rightarrow> 'd nic \<Rightarrow> irqreturn \<times> 'd nic" where
  "accnet_rx_isr K D irq s =
     (if irq \<noteq> rx_irq s then (IRQ_NONE, s)
      else
        (let s = clear_intmask D ACCNET_INTMASK_RX s;
             s = s\<lparr>hw := iowrite8 D R_RX ACCNET_RX_INTR_CLEAR 0x1 (hw s)\<rparr>
         in (IRQ_HANDLED, accnet_schedule K s)))"

definition accnet_poll :: "kernel \<Rightarrow> 'd device \<Rightarrow> int \<Rightarrow> 'd nic \<Rightarrow> fault + int \<times> 'd nic" where
  "accnet_poll K D budget s =
     (case complete_send K D s of
        Inl f \<Rightarrow> Inl f
      | Inr s \<Rightarrow>
          (case complete_recv D budget s of
             Inl f \<Rightarrow> Inl f
           | Inr (work_done, s) \<Rightarrow>
               (case alloc_recv K D s of
                  Inl f \<Rightarrow> Inl f
                | Inr s \<Rightarrow>
                    Inr (work_done,
                      if work_done < budget
                      then set_intmask D ACCNET_INTMASK_BOTH
                             (kcall_log (K_napi_complete_done work_done) s)
                      else s))))"

section \<open>The net_device operations\<close>

datatype netdev_tx = NETDEV_TX_OK | NETDEV_TX_BUSY

definition accnet_open_ndo :: "kernel \<Rightarrow> 'd device \<Rightarrow> 'd nic \<Rightarrow> fault + int \<times> 'd nic" where
  "accnet_open_ndo K D s =
     (case alloc_recv K D (kcall_log K_napi_enable s) of
        Inl f \<Rightarrow> Inl f
      | Inr s \<Rightarrow>
          (let s = kcall_log K_netif_start_queue s;
               s = set_intmask D ACCNET_INTMASK_RX s;
               s = set_intmask D ACCNET_INTMASK_TX s
           in Inr (0, s)))"

definition accnet_stop :: "'d device \<Rightarrow> 'd nic \<Rightarrow> int \<times> 'd nic" where
  "accnet_stop D s =
     (let s = kcall_log K_napi_disable s;
          s = clear_intmask D ACCNET_INTMASK_BOTH s
      in (0, kcall_log K_netif_stop_queue s))"

text \<open>What \<open>accnet_start_xmit\<close> does once the buffer is posted.\<close>

definition xmit_reschedule :: "kernel \<Rightarrow> 'd device \<Rightarrow> 'd nic \<Rightarrow> 'd nic" where
  "xmit_reschedule K D s =
     (let (comp, s) = send_comp_avail D s;
          s = (if comp > CONFIG_ACCNET_TX_THRESHOLD then accnet_schedule K s else s);
          (space, s) = send_space D (MAX_SKB_FRAGS K) s
      in if \<not> space then accnet_schedule K (kcall_log K_netif_stop_queue s) else s)"

definition accnet_start_xmit :: "kernel \<Rightarrow> 'd device \<Rightarrow> sk_buff \<Rightarrow> 'd nic \<Rightarrow> netdev_tx \<times> 'd nic" where
  "accnet_start_xmit K D skb s =
     (case send_space D (int (length (skb_frags skb)) + 1) s of (space, s) \<Rightarrow>
        if \<not> space then
          (let s = kcall_log K_netif_stop_queue s;
               s = kcall_log (K_kfree_skb skb) s
           in (NETDEV_TX_BUSY, s\<lparr>tx_dropped := tx_dropped s + 1\<rparr>))
        else
          (let s = kcall_log (K_skb_tx_timestamp skb) s;
               s = post_send K D skb s;
               s = s\<lparr>tx_packets := tx_packets s + 1,
                     tx_bytes := tx_bytes s + ucast (skb_len skb)\<rparr>
           in (NETDEV_TX_OK, xmit_reschedule K D s)))"

end
