(* ===== verification/Accnet_Data_Path.thy ===== *)
theory Accnet_Data_Path
  imports Accnet_Driver
begin

text \<open>
  What the data path of the AccNet driver does, for any device and any kernel that
  answers its calls: which buffers a run of \<open>complete_send\<close>, \<open>complete_recv\<close> and
  \<open>alloc_recv\<close> hands over, in which order, and when it faults; and that the stream of
  descriptors written to the TX engine can be cut back into the frames it came from.
\<close>

section \<open>Completing sends\<close>

text \<open>
  The segments of a buffer, of a list of buffers, and how many buffers at the front of
  the queue are covered by \<open>n\<close> completed segments.
\<close>

definition nsegs :: "sk_buff \<Rightarrow> int" where
  "nsegs skb = int (length (skb_frags skb)) + 1"

definition segs :: "sk_buff list \<Rightarrow> int" where
  "segs xs = (\<Sum>skb\<leftarrow>xs. nsegs skb)"

fun retired :: "int \<Rightarrow> sk_buff list \<Rightarrow> nat" where
  "retired n [] = 0"
| "retired n (skb # q) = (if nsegs skb \<le> n then Suc (retired (n - nsegs skb) q) else 0)"

lemma nsegs_pos [simp]: "0 < nsegs skb" "nsegs skb \<noteq> 0"
  by (simp_all add: nsegs_def)

lemma segs_simps [simp]: "segs [] = 0" "segs (skb # q) = nsegs skb + segs q"
  by (simp_all add: segs_def)

lemma segs_nonneg [simp]: "0 \<le> segs xs"
  by (induction xs) (auto simp: add_nonneg_nonneg less_imp_le)

lemma retired_maximal:
  assumes "0 \<le> n"
  shows "retired n q \<le> length q \<and> segs (take (retired n q) q) \<le> n
    \<and> (retired n q < length q \<longrightarrow> n < segs (take (Suc (retired n q)) q))"
  using assms
proof (induction n q rule: retired.induct)
  case (2 n skb q)
  then show ?case by (cases "nsegs skb \<le> n") (force)+
qed simp

lemma retired_nonpos [simp]: "n \<le> 0 \<Longrightarrow> retired n q = 0"
  using nsegs_pos by (cases q) (auto simp: not_le intro: le_less_trans)

lemma tail_nsegments_Cons:
  assumes "cq_wf cq" and "cq_list cq = skb # q"
  shows "sk_buff_cq_tail_nsegments cq = Inr (nsegs skb)"
proof -
  from assms have ne: "head cq \<noteq> tail cq" using cq_empty_iff by fastforce
  have "entries cq ! nat (tail cq) = Some skb"
    using cq_list_pop(1) [OF assms(1) ne] assms(2) ne by (simp add: sk_buff_cq_pop_def)
  with ne show ?thesis by (simp add: sk_buff_cq_tail_nsegments_def nsegs_def)
qed

lemma tail_nsegments_Nil:
  assumes "cq_wf cq" and "cq_list cq = []"
  shows "\<exists>f. sk_buff_cq_tail_nsegments cq = Inl f"
  using assms by (auto simp: sk_buff_cq_tail_nsegments_def cq_empty_iff split: option.split)

lemma comp_reads_add: "comp_reads D (m + n) h = comp_reads D n (comp_reads D m h)"
  by (induction m arbitrary: h) simp_all

lemma complete_send_loop_Cons:
  assumes "cq_wf (send_cq s)" and "cq_list (send_cq s) = skb # q"
  shows "complete_send_loop D n s =
    (if nsegs skb \<le> n then
       complete_send_loop D (n - nsegs skb)
         (s\<lparr>hw := comp_reads D (nat (nsegs skb)) (hw s),
            send_cq := snd (sk_buff_cq_pop (send_cq s)),
            klog := klog s @ [K_consume_skb (Some skb)]\<rparr>)
     else Inr s)"
proof -
  have "fst (sk_buff_cq_pop (send_cq s)) = Some skb" using cq.pop_Cons [OF assms] by blast
  moreover have "n > 0" if "nsegs skb \<le> n" using that nsegs_pos(1) [of skb] by linarith
  ultimately show ?thesis
    by (subst complete_send_loop.simps)
      (auto simp: tail_nsegments_Cons [OF assms] kcall_log_def case_prod_beta)
qed

lemma complete_send_loop_ok:
  assumes "cq_wf (send_cq s)" and "cq_list (send_cq s) = q" and "n \<le> segs q"
  shows "complete_send_loop D n s =
     Inr (s\<lparr>hw := comp_reads D (nat (segs (take (retired n q) q))) (hw s),
            send_cq := snd (drain sk_buff_cq_pop (retired n q) (send_cq s)),
            klog := klog s @ map (K_consume_skb \<circ> Some) (take (retired n q) q)\<rparr>)"
  using assms
proof (induction q arbitrary: n s)
  case Nil
  then show ?case by (subst complete_send_loop.simps) simp
next
  case (Cons skb q)
  obtain cq where pop: "sk_buff_cq_pop (send_cq s) = (Some skb, cq)"
    and cq: "cq_list cq = q" "cq_wf cq"
    using cq.pop_Cons [OF Cons.prems(1,2)] cq.inv_pop [OF Cons.prems(1)]
    by (metis prod.collapse snd_conv)
  show ?case
    by (cases "nsegs skb \<le> n")
      (use Cons.prems(3) in \<open>simp_all add: complete_send_loop_Cons [OF Cons.prems(1,2)] pop cq
        Cons.IH nat_add_distrib comp_reads_add less_imp_le case_prod_beta\<close>)
qed

lemma complete_send_loop_fault:
  assumes "cq_wf (send_cq s)" and "cq_list (send_cq s) = q" and "segs q < n"
  shows "\<exists>f. complete_send_loop D n s = Inl f"
  using assms
proof (induction q arbitrary: n s)
  case Nil
  from tail_nsegments_Nil [OF Nil(1,2)] Nil(3) show ?case
    by (subst complete_send_loop.simps) auto
next
  case (Cons skb q)
  have "nsegs skb \<le> n" using Cons.prems(3) segs_nonneg [of q] unfolding segs_simps by linarith
  moreover have "cq_list (snd (sk_buff_cq_pop (send_cq s))) = q"
    using cq.pop_Cons [OF Cons.prems(1,2)] by blast
  ultimately show ?case
    using Cons.prems(1,3) by (simp add: complete_send_loop_Cons [OF Cons.prems(1,2)] Cons.IH cq_wf_pop)
qed

section \<open>Completing receives\<close>

text \<open>
  The lengths that \<open>n\<close> reads of the completion log return, with the device after them,
  and the calls that deliver one buffer to the network stack.
\<close>

primrec comp_log :: "'d device \<Rightarrow> nat \<Rightarrow> 'd \<Rightarrow> int list \<times> 'd" where
  "comp_log D 0 h = ([], h)"
| "comp_log D (Suc n) h =
     (let (res, h) = ioread64 D R_RX ACCNET_RX_COMP_LOG h; (ls, h) = comp_log D n h
      in (uint (res AND 0xffff) # ls, h))"

fun delivery :: "sk_buff \<times> int \<Rightarrow> kcall list" where
  "delivery (b, len) = [K_skb_put b len, K_eth_type_trans b, K_netif_receive_skb b]"

lemma length_comp_log [simp]: "length (fst (comp_log D n h)) = n"
  by (induction n arbitrary: h) (simp_all add: case_prod_beta)

lemma comp_log_16bit: "list_all (\<lambda>l. 0 \<le> l \<and> l < 65536) (fst (comp_log D n h))"
proof (induction n arbitrary: h)
  case (Suc n)
  then show ?case by (simp add: case_prod_beta uint_and_0xffff)
qed simp

lemma complete_recv_loop_ok:
  assumes "cq_wf (recv_cq s)" and "n \<le> length (cq_list (recv_cq s))"
  shows "complete_recv_loop D n s =
     (let (lens, h) = comp_log D n (hw s) in
      Inr (s\<lparr>hw := h, recv_cq := snd (drain sk_buff_cq_pop n (recv_cq s)),
             rx_packets := rx_packets s + of_nat n,
             rx_bytes := rx_bytes s + word_of_int (sum_list lens),
             klog := klog s @ concat (map delivery (zip (take n (cq_list (recv_cq s))) lens))\<rparr>))"
  using assms
proof (induction n arbitrary: s)
  case (Suc n)
  obtain b q where q: "cq_list (recv_cq s) = b # q"
    using Suc.prems(2) by (cases "cq_list (recv_cq s)") simp_all
  obtain cq where pop: "sk_buff_cq_pop (recv_cq s) = (Some b, cq)"
    and cq: "cq_list cq = q" "cq_wf cq"
    using cq.pop_Cons [OF Suc.prems(1) q] cq.inv_pop [OF Suc.prems(1)]
    by (metis prod.collapse snd_conv)
  have "n \<le> length q" using Suc.prems(2) unfolding q by simp
  then show ?case
    by (simp add: pop q cq kcall_log_def case_prod_beta Let_def Suc.IH algebra_simps)
qed simp

lemma complete_recv_loop_fault:
  assumes "cq_wf (recv_cq s)" and "length (cq_list (recv_cq s)) < n"
  shows "complete_recv_loop D n s = Inl NullDeref"
  using assms
proof (induction n arbitrary: s)
  case (Suc n)
  show ?case
  proof (cases "cq_list (recv_cq s)")
    case Nil
    with Suc.prems(1) show ?thesis by (simp add: cq.pop_empty case_prod_beta)
  next
    case (Cons b q)
    with Suc.prems(2) have "length q < n" by (simp del: length_cq_list)
    with Suc.prems(1) cq.pop_Cons [OF Suc.prems(1) Cons] show ?thesis
      by (simp add: case_prod_beta kcall_log_def Suc.IH cq_wf_pop del: length_cq_list)
  qed
qed simp

section \<open>The two completion handlers\<close>

lemma send_space_eq:
  "send_space D n s = (n \<le> fst (send_req_avail D s), snd (send_req_avail D s))"
  by (simp add: send_space_def case_prod_beta)

lemma avail_snd:
  "snd (send_req_avail D s) = s\<lparr>hw := snd (ioread16 D R_TX ACCNET_TX_REQ_COUNT (hw s))\<rparr>"
  "snd (recv_req_avail D s) = s\<lparr>hw := snd (ioread16 D R_RX ACCNET_RX_DMA_ADDR_COUNT (hw s))\<rparr>"
  "snd (send_comp_avail D s) = s\<lparr>hw := snd (ioread16 D R_TX ACCNET_TX_COUNT (hw s))\<rparr>"
  "snd (recv_comp_avail D s) = s\<lparr>hw := snd (ioread16 D R_RX ACCNET_RX_COMP_COUNT (hw s))\<rparr>"
  by (simp_all add: send_req_avail_def recv_req_avail_def send_comp_avail_def recv_comp_avail_def
      case_prod_beta)

lemma complete_send_ok:
  fixes s :: "'d nic" and D :: "'d device"
  defines "q \<equiv> cq_list (send_cq s)" and "n \<equiv> fst (send_comp_avail D s)"
  assumes "cq_wf (send_cq s)" and "n \<le> segs q"
  shows "\<exists>s' w. complete_send K D s = Inr s'
      \<and> send_cq s' = snd (drain sk_buff_cq_pop (retired n q) (send_cq s)) \<and> recv_cq s' = recv_cq s
      \<and> klog s' = klog s @ map (K_consume_skb \<circ> Some) (take (retired n q) q) @ w
      \<and> (w = [] \<or> w = [K_netif_wake_queue])
      \<and> hw s' = snd (ioread16 D R_TX ACCNET_TX_REQ_COUNT
          (comp_reads D (nat (segs (take (retired n q) q))) (hw (snd (send_comp_avail D s)))))"
  using assms
  by (simp add: complete_send_def case_prod_beta complete_send_loop_ok avail_snd
        send_space_eq kcall_log_def)

lemma complete_send_fault:
  assumes "cq_wf (send_cq s)" and "segs (cq_list (send_cq s)) < fst (send_comp_avail D s)"
  shows "\<exists>f. complete_send K D s = Inl f"
proof -
  obtain f where "complete_send_loop D (fst (send_comp_avail D s)) (snd (send_comp_avail D s)) = Inl f"
    using complete_send_loop_fault [of "snd (send_comp_avail D s)", OF _ refl] assms
    by (auto simp: avail_snd)
  then show ?thesis by (simp add: complete_send_def case_prod_beta)
qed

lemma complete_recv_eq:
  "complete_recv D budget s =
    (case complete_recv_loop D (nat (min budget (fst (recv_comp_avail D s)))) (snd (recv_comp_avail D s)) of
       Inl f \<Rightarrow> Inl f | Inr s' \<Rightarrow> Inr (min budget (fst (recv_comp_avail D s)), s'))"
  by (auto simp: complete_recv_def case_prod_beta Let_def min_def split: sum.split)

lemma complete_recv_ok:
  fixes s :: "'d nic" and D :: "'d device" and budget :: int
  defines "q \<equiv> cq_list (recv_cq s)" and "n \<equiv> min budget (fst (recv_comp_avail D s))"
  defines "lens \<equiv> fst (comp_log D (nat n) (hw (snd (recv_comp_avail D s))))"
  assumes "cq_wf (recv_cq s)" and "n \<le> int (length q)"
  shows "\<exists>s'. complete_recv D budget s = Inr (n, s')
      \<and> recv_cq s' = snd (drain sk_buff_cq_pop (nat n) (recv_cq s)) \<and> send_cq s' = send_cq s
      \<and> klog s' = klog s @ concat (map delivery (zip (take (nat n) q) lens))
      \<and> rx_packets s' = rx_packets s + of_nat (nat n)
      \<and> rx_bytes s' = rx_bytes s + word_of_int (sum_list lens)
      \<and> hw s' = snd (comp_log D (nat n) (hw (snd (recv_comp_avail D s))))"
  using assms(4,5) unfolding complete_recv_eq n_def [symmetric]
  by (subst complete_recv_loop_ok)
    (simp_all add: avail_snd case_prod_beta Let_def nat_le_iff q_def lens_def)

lemma complete_recv_fault:
  assumes "cq_wf (recv_cq s)"
    and "int (length (cq_list (recv_cq s))) < min budget (fst (recv_comp_avail D s))"
  shows "complete_recv D budget s = Inl NullDeref"
  using assms complete_recv_loop_fault [of "snd (recv_comp_avail D s)"]
  by (auto simp: complete_recv_def case_prod_beta avail_snd)

section \<open>Refilling the receive ring\<close>

text \<open>
  A buffer after \<open>post_recv\<close> has moved its data pointer up to the next DMA boundary,
  and the buffers one run of the refill loop posts: None where the allocator fails.
\<close>

definition reserved :: "kernel \<Rightarrow> sk_buff \<Rightarrow> sk_buff" where
  "reserved K b = skb_reserve K b (sint (ucast (DMA_PTR_ALIGN (skb_data b) - skb_data b) :: u32))"

definition recv_len :: "kernel \<Rightarrow> int" where
  "recv_len K = DMA_LEN_ALIGN (MAX_FRAME_SIZE (NET_IP_ALIGN K))"

primrec recv_bufs :: "kernel \<Rightarrow> nat \<Rightarrow> kcall list \<Rightarrow> sk_buff list option" where
  "recv_bufs K 0 log = Some []"
| "recv_bufs K (Suc n) log =
     (case netdev_alloc_skb K log (recv_len K) of
        None \<Rightarrow> None
      | Some b \<Rightarrow> map_option ((#) (reserved K b))
                    (recv_bufs K n (log @ [K_netdev_alloc_skb (recv_len K)])))"

definition post_addr :: "kernel \<Rightarrow> 'd device \<Rightarrow> 'd \<Rightarrow> sk_buff \<Rightarrow> 'd" where
  "post_addr K D h b = iowrite64 D R_RX ACCNET_RX_DMA_ADDR (virt_to_phys K (skb_data b)) h"

lemma length_recv_bufs: "recv_bufs K n log = Some bs \<Longrightarrow> length bs = n"
  by (induction n arbitrary: log bs) (auto split: option.splits)

lemma alloc_recv_loop_eq:
  "alloc_recv_loop K D n s =
     (case recv_bufs K n (klog s) of
        None \<Rightarrow> Inl NullDeref
      | Some bs \<Rightarrow> Inr (s\<lparr>klog := klog s @ replicate n (K_netdev_alloc_skb (recv_len K)),
           hw := foldl (post_addr K D) (hw s) bs,
           recv_cq := foldl (\<lambda>q b. sk_buff_cq_push q (Some b)) (recv_cq s) bs\<rparr>))"
proof (induction n arbitrary: s)
  case (Suc n)
  show ?case
    by (cases "netdev_alloc_skb K (klog s) (recv_len K)")
      (auto simp: post_recv_def kcall_log_def Let_def Suc.IH post_addr_def 
        split: option.splits simp flip: recv_len_def reserved_def)
qed simp

lemma alloc_recv_eq:
  "alloc_recv K D s =
     (let n = nat (fst (recv_req_avail D s)) in
      case recv_bufs K n (klog s) of
        None \<Rightarrow> Inl NullDeref
      | Some bs \<Rightarrow> Inr (s\<lparr>klog := klog s @ replicate n (K_netdev_alloc_skb (recv_len K)),
           hw := foldl (post_addr K D) (snd (ioread16 D R_RX ACCNET_RX_DMA_ADDR_COUNT (hw s))) bs,
           recv_cq := foldl (\<lambda>q b. sk_buff_cq_push q (Some b)) (recv_cq s) bs\<rparr>))"
  by (simp add: alloc_recv_def case_prod_beta alloc_recv_loop_eq avail_snd Let_def cong: option.case_cong)

lemma reserved_data:
  assumes "\<And>b n. skb_data (skb_reserve K b n) = skb_data b + word_of_int n"
    and "unat (skb_data b) + 63 < 2 ^ 64"
  shows "skb_data (reserved K b) = DMA_PTR_ALIGN (skb_data b)"
proof -
  let ?p = "skb_data b" and ?a = "DMA_PTR_ALIGN (skb_data b)"
  have "unat ?p \<le> unat ?a" and "unat ?a < unat ?p + 64"
    using align_up_bounds [of 64 "unat ?p"] DMA_PTR_ALIGN_unat [OF assms(2)] by simp_all
  then have d: "unat (?a - ?p) < 64" by (simp add: unat_sub_if')
  then have "?a - ?p < 64" by (simp add: word_less_nat_alt)
  then have "uint (?a - ?p) < 64" by (simp add: word_less_def)
  moreover have "- (2 ^ 31) \<le> uint (?a - ?p)" by (rule order_trans [of _ 0]) simp_all
  ultimately have "sint (ucast (?a - ?p) :: u32) = uint (?a - ?p)"
    using signed_take_bit_int_eq_self [of 31 "uint (?a - ?p)"]
    by (simp add: sint_uint unsigned_ucast_eq take_bit_int_eq_self)
  then show ?thesis by (simp add: reserved_def assms(1))
qed

lemma reserved_aligned:
  assumes "\<And>b n. skb_data (skb_reserve K b n) = skb_data b + word_of_int n"
    and "unat (skb_data b) + 63 < 2 ^ 64"
  shows "64 dvd unat (skb_data (reserved K b))"
    and "unat (skb_data b) \<le> unat (skb_data (reserved K b))"
    and "unat (skb_data (reserved K b)) < unat (skb_data b) + 64"
  unfolding reserved_data [OF assms] DMA_PTR_ALIGN_unat [OF assms(2)]
  using align_up_bounds [of 64 "unat (skb_data b)"] by simp_all

section \<open>The descriptor stream\<close>

text \<open>
  A descriptor as the TX engine reads it: bit 63 says that more segments of the same
  frame follow, bits 48 to 62 are the length and bits 0 to 47 the address. \<open>deframe\<close>
  cuts a stream of descriptors into frames by that bit.
\<close>

definition desc_more :: "u64 \<Rightarrow> bool" where "desc_more d = bit d 63"
definition desc_len :: "u64 \<Rightarrow> u64" where "desc_len d = take_bit 15 (drop_bit 48 d)"
definition desc_addr :: "u64 \<Rightarrow> u64" where "desc_addr d = take_bit 48 d"

fun deframe :: "(u64 \<times> u64) list \<Rightarrow> u64 list \<Rightarrow> (u64 \<times> u64) list list" where
  "deframe cur [] = []"
| "deframe cur (d # ds) =
     (let cur = cur @ [(desc_addr d, desc_len d)]
      in if desc_more d then deframe cur ds else cur # deframe [] ds)"

definition frag_seg :: "kernel \<Rightarrow> skb_frag \<Rightarrow> u64 \<times> u64" where
  "frag_seg K f = (take_bit 48 (page_to_phys K (bv_page f) + ucast (bv_offset f)), ucast (bv_len f))"

definition head_seg :: "kernel \<Rightarrow> sk_buff \<Rightarrow> u64 \<times> u64" where
  "head_seg K skb = (take_bit 48 (virt_to_phys K (skb_data skb)),
     ucast (if skb_frags skb = [] then skb_len skb else skb_headlen skb))"

definition tx_segs :: "kernel \<Rightarrow> sk_buff \<Rightarrow> (u64 \<times> u64) list" where
  "tx_segs K skb = head_seg K skb # map (frag_seg K) (skb_frags skb)"

fun frag_descs :: "kernel \<Rightarrow> skb_frag list \<Rightarrow> u64 list" where
  "frag_descs K [] = []"
| "frag_descs K (f # fs) =
     tx_packet (if fs = [] then 0 else 1) (ucast (bv_len f))
       (page_to_phys K (bv_page f) + ucast (bv_offset f)) # frag_descs K fs"

definition tx_descs :: "kernel \<Rightarrow> sk_buff \<Rightarrow> u64 list" where
  "tx_descs K skb =
     tx_packet (if skb_frags skb = [] then 0 else 1)
       (ucast (if skb_frags skb = [] then skb_len skb else skb_headlen skb))
       (virt_to_phys K (skb_data skb)) # frag_descs K (skb_frags skb)"

definition post_desc :: "'d device \<Rightarrow> 'd \<Rightarrow> u64 \<Rightarrow> 'd" where
  "post_desc D h d = iowrite64 D R_TX ACCNET_TX_REQ d h"

text \<open>The 15 bits the descriptor has for a length.\<close>

definition seg_fits :: "u64 \<times> u64 \<Rightarrow> bool" where
  "seg_fits x \<longleftrightarrow> snd x < 0x8000"

lemma post_send_frags_eq:
  "post_send_frags K D fs s = s\<lparr>hw := foldl (post_desc D) (hw s) (frag_descs K fs)\<rparr>"
  by (induction fs arbitrary: s) (simp_all add: post_send_frag_def post_desc_def Let_def)

lemma post_send_eq:
  "post_send K D skb s =
     s\<lparr>hw := foldl (post_desc D) (hw s) (tx_descs K skb),
       send_cq := sk_buff_cq_push (send_cq s) (Some skb)\<rparr>"
  by (simp add: post_send_def post_send_frags_eq tx_descs_def post_desc_def Let_def)

lemma mask48: "(0xffffffffffff :: u64) = mask 48"
  by (simp add: mask_eq_exp_minus_1)

lemma bit_15_imp:
  assumes "x < (0x8000 :: u64)" and "bit x n"
  shows "n < 15"
proof -
  from assms(1) have "take_bit 15 (unat x) = unat x"
    by (intro take_bit_nat_eq_self) (simp add: word_less_nat_alt)
  moreover from assms(2) have "bit (unat x) n" by (simp add: bit_unsigned_iff)
  ultimately show ?thesis by (metis bit_take_bit_iff)
qed

lemma tx_packet_decode:
  assumes "len < 0x8000" and "partial = 0 \<or> partial = 1"
  shows "desc_more (tx_packet partial len addr) \<longleftrightarrow> partial = 1"
    and "desc_len (tx_packet partial len addr) = len"
    and "desc_addr (tx_packet partial len addr) = take_bit 48 addr"
proof -
  note len = bit_15_imp [OF assms(1)]
  show "desc_more (tx_packet partial len addr) \<longleftrightarrow> partial = 1"
    using assms(2) len [of 15]
    by (auto simp: desc_more_def tx_packet_def mask48 bit_simps)
  show "desc_len (tx_packet partial len addr) = len"
    using assms(2) by (intro bit_word_eqI)
      (auto simp: desc_len_def tx_packet_def mask48 bit_simps dest: len)
  show "desc_addr (tx_packet partial len addr) = take_bit 48 addr"
    using assms(2) by (intro bit_word_eqI)
      (auto simp: desc_addr_def tx_packet_def mask48 bit_simps)
qed

lemma deframe_frags:
  assumes "list_all seg_fits (map (frag_seg K) fs)" and "fs \<noteq> []"
  shows "deframe cur (frag_descs K fs @ ds) = (cur @ map (frag_seg K) fs) # deframe [] ds"
  using assms
  by (induction fs arbitrary: cur)
    (auto simp: tx_packet_decode Let_def frag_seg_def seg_fits_def)

lemma deframe_tx_descs:
  assumes "list_all seg_fits (tx_segs K skb)"
  shows "deframe [] (tx_descs K skb @ ds) = tx_segs K skb # deframe [] ds"
  using assms
  by (cases "skb_frags skb = []")
    (simp_all add: tx_packet_decode tx_descs_def tx_segs_def Let_def deframe_frags head_seg_def
      seg_fits_def)

lemma deframe_stream:
  assumes "list_all (\<lambda>skb. list_all seg_fits (tx_segs K skb)) skbs"
  shows "deframe [] (concat (map (tx_descs K) skbs)) = map (tx_segs K) skbs"
  using assms by (induction skbs) (simp_all add: deframe_tx_descs)

section \<open>Concrete instances\<close>

text \<open>
  A kernel whose allocator never fails and a NIC over byte memory, for the concrete
  runs below. \<open>pokes\<close> gives the bytes of the registers that are not zero.
\<close>

definition demo_kernel :: kernel where
  "demo_kernel = \<lparr>
     page_to_phys = (\<lambda>p. p), virt_to_phys = (\<lambda>v. v),
     skb_reserve = (\<lambda>b n. b\<lparr>skb_data := skb_data b + word_of_int n\<rparr>),
     netdev_alloc_skb = (\<lambda>log len. Some \<lparr>skb_id = length log, skb_data = 0x1005, skb_len = 0,
       skb_headlen = 0, skb_frags = []\<rparr>),
     netif_queue_stopped = (\<lambda>log. False), napi_schedule_prep = (\<lambda>log. True),
     MAX_SKB_FRAGS = 17, NET_IP_ALIGN = 2\<rparr>"

definition demo_nic :: "((region \<times> nat) \<times> u8) list \<Rightarrow> sk_buff list \<Rightarrow> sk_buff list \<Rightarrow> (region \<Rightarrow> bytes_at) nic" where
  "demo_nic pokes sq rq = \<lparr>
     hw = (\<lambda>r a. case map_of pokes (r, a) of None \<Rightarrow> 0 | Some v \<Rightarrow> v), klog = [],
     send_cq = foldl (\<lambda>q b. sk_buff_cq_push q (Some b)) fresh_cq sq,
     recv_cq = foldl (\<lambda>q b. sk_buff_cq_push q (Some b)) fresh_cq rq,
     tx_irq = 5, rx_irq = 6, tx_packets = 0, tx_bytes = 0, tx_dropped = 0, rx_packets = 0,
     rx_bytes = 0, hw_regs_control_size = 0, hw_regs_control_phys = 0, hw_regs_udp_tx_size = 0,
     hw_regs_udp_tx_phys = 0, hw_regs_udp_rx_size = 0, hw_regs_udp_rx_phys = 0, magic = MAGIC_CHAR\<rparr>"

definition demo_skb :: "nat \<Rightarrow> nat \<Rightarrow> sk_buff" where
  "demo_skb i frags = \<lparr>skb_id = i, skb_data = 0x4000, skb_len = 60, skb_headlen = 14,
     skb_frags = replicate frags \<lparr>bv_page = 0x8000, bv_offset = 16, bv_len = 46\<rparr>\<rparr>"

lemma demo_kernel_simps [simp]:
  "page_to_phys demo_kernel p = p" "virt_to_phys demo_kernel p = p"
  "skb_reserve demo_kernel b n = b\<lparr>skb_data := skb_data b + word_of_int n\<rparr>"
  "netdev_alloc_skb demo_kernel log len = Some \<lparr>skb_id = length log, skb_data = 0x1005, skb_len = 0,
     skb_headlen = 0, skb_frags = []\<rparr>"
  "napi_schedule_prep demo_kernel log" "\<not> netif_queue_stopped demo_kernel log"
  "MAX_SKB_FRAGS demo_kernel = 17"
  by (simp_all add: demo_kernel_def)

lemma demo_nic_queues [simp]:
  "cq_wf (send_cq (demo_nic p sq rq))" "cq_wf (recv_cq (demo_nic p sq rq))"
  "cq_list (send_cq (demo_nic p sq rq)) = take 255 sq"
  "cq_list (recv_cq (demo_nic p sq rq)) = take 255 rq"
  by (simp_all add: demo_nic_def cq.inv_pushes cq.contents_pushes)

lemma demo_nic_counts [simp]:
  "cq_count (send_cq (demo_nic p sq rq)) = min 255 (length sq)"
  "cq_count (recv_cq (demo_nic p sq rq)) = min 255 (length rq)"
  by (simp_all flip: length_cq_list add: min.commute)

lemma demo_nic_fields [simp]:
  "klog (demo_nic p sq rq) = []" "tx_irq (demo_nic p sq rq) = 5" "rx_irq (demo_nic p sq rq) = 6"
  "hw (demo_nic p sq rq) = (\<lambda>r a. case map_of p (r, a) of None \<Rightarrow> 0 | Some v \<Rightarrow> v)"
  by (simp_all add: demo_nic_def)

lemma nsegs_demo [simp]: "nsegs (demo_skb i n) = int n + 1"
  by (simp add: nsegs_def demo_skb_def)

section \<open>Properties\<close>

text \<open>
  Property C5. \<open>complete_send\<close> hands back to the kernel exactly the longest run of
  queued buffers, oldest first, whose segments the device has all completed, leaves the
  rest queued, and at most wakes the queue besides. It faults exactly where the device
  reports more completed segments than the queue holds, since the function looks at the
  tail entry without checking that there is one.
\<close>

theorem complete_send_retires:
  fixes s :: "'d nic" and D :: "'d device"
  defines "q \<equiv> cq_list (send_cq s)" and "n \<equiv> fst (send_comp_avail D s)"
  assumes wf: "cq_wf (send_cq s)"
  shows "(n \<le> segs q \<longrightarrow> (\<exists>k s' w. complete_send K D s = Inr s'
        \<and> k \<le> length q \<and> segs (take k q) \<le> n \<and> (k < length q \<longrightarrow> n < segs (take (Suc k) q))
        \<and> cq_wf (send_cq s') \<and> cq_list (send_cq s') = drop k q \<and> recv_cq s' = recv_cq s
        \<and> klog s' = klog s @ map (K_consume_skb \<circ> Some) (take k q) @ w
        \<and> (w = [] \<or> w = [K_netif_wake_queue])))
    \<and> (segs q < n \<longrightarrow> (\<exists>f. complete_send K D s = Inl f))"
proof (intro conjI impI)
  assume le: "n \<le> segs q"
  have "0 \<le> n" by (simp add: n_def send_comp_avail_def case_prod_beta)
  note max = retired_maximal [OF this, of q]
  from complete_send_ok [OF wf, of D K] le
  obtain s' w where "complete_send K D s = Inr s'"
    "send_cq s' = snd (drain sk_buff_cq_pop (retired n q) (send_cq s))" "recv_cq s' = recv_cq s"
    "klog s' = klog s @ map (K_consume_skb \<circ> Some) (take (retired n q) q) @ w"
    "w = [] \<or> w = [K_netif_wake_queue]"
    by (auto simp: q_def n_def)
  with max cq.drain_contents [OF wf] show "\<exists>k s' w. complete_send K D s = Inr s'
        \<and> k \<le> length q \<and> segs (take k q) \<le> n \<and> (k < length q \<longrightarrow> n < segs (take (Suc k) q))
        \<and> cq_wf (send_cq s') \<and> cq_list (send_cq s') = drop k q \<and> recv_cq s' = recv_cq s
        \<and> klog s' = klog s @ map (K_consume_skb \<circ> Some) (take k q) @ w
        \<and> (w = [] \<or> w = [K_netif_wake_queue])"
    by (intro exI [of _ "retired n q"] exI [of _ s'] exI [of _ w]) (simp add: q_def)
qed (simp add: complete_send_fault [OF wf] q_def n_def)

theorem complete_send_retires_witness:
  "\<exists>s' w. complete_send demo_kernel ram_device
       (demo_nic [((R_TX, 0x10), 2)] [demo_skb 1 0, demo_skb 2 1] []) = Inr s'
     \<and> cq_list (send_cq s') = [demo_skb 2 1] \<and> klog s' = K_consume_skb (Some (demo_skb 1 0)) # w"
proof -
  let ?s = "demo_nic [((R_TX, 0x10), 2)] [demo_skb 1 0, demo_skb 2 1] []"
  have n: "fst (send_comp_avail ram_device ?s) = 2"
    by (simp add: send_comp_avail_def io_eval ACCNET_TX_COUNT_def)
  let ?q = "cq_list (send_cq ?s)"
  have q: "?q = [demo_skb 1 0, demo_skb 2 1]" by simp
  have "2 \<le> segs ?q" unfolding q by simp
  with complete_send_retires [of ?s ram_device demo_kernel, unfolded n]
  obtain k s' w where k: "k \<le> length ?q" "segs (take k ?q) \<le> 2"
      "k < length ?q \<longrightarrow> 2 < segs (take (Suc k) ?q)"
    and s': "complete_send demo_kernel ram_device ?s = Inr s'" "cq_list (send_cq s') = drop k ?q"
      "klog s' = klog ?s @ map (K_consume_skb \<circ> Some) (take k ?q) @ w"
    using demo_nic_queues(1) by blast
  have "k = 1" using k unfolding q by (cases k; cases "k - 1") auto
  with s' show ?thesis by (simp add: q)
qed



text \<open>
  Property C15. \<open>alloc_recv\<close> fills every free slot of the RX engine: one buffer of
  \<open>DMA_LEN_ALIGN(MAX_FRAME_SIZE)\<close> bytes per free slot is allocated, its address is
  written to the engine and the buffer queued, in the same order for the engine and the
  queue. Every posted address is a multiple of 64 and lies at most 63 bytes past the
  pointer that the allocator returned. The one way to fault is an allocation that
  fails: the result is used without a test.
\<close>

theorem alloc_recv_posts:
  fixes s :: "'d nic" and D :: "'d device"
  defines "n \<equiv> nat (fst (recv_req_avail D s))"
  assumes wf: "cq_wf (recv_cq s)"
    and skb_reserve: "\<forall>b m. skb_data (skb_reserve K b m) = skb_data b + word_of_int m"
    and alloc: "\<forall>log l b. netdev_alloc_skb K log l = Some b \<longrightarrow> unat (skb_data b) + 63 < 2 ^ 64"
  shows "case recv_bufs K n (klog s) of
       None \<Rightarrow> alloc_recv K D s = Inl NullDeref
     | Some bs \<Rightarrow> length bs = n \<and> list_all (\<lambda>b. 64 dvd unat (skb_data b)) bs
         \<and> (\<exists>s'. alloc_recv K D s = Inr s' \<and> cq_wf (recv_cq s')
             \<and> cq_list (recv_cq s') =
                 cq_list (recv_cq s) @ take (255 - length (cq_list (recv_cq s))) bs
             \<and> hw s' = foldl (\<lambda>h b. iowrite64 D R_RX ACCNET_RX_DMA_ADDR (virt_to_phys K (skb_data b)) h)
                 (hw (snd (recv_req_avail D s))) bs)"
proof -
  have al: "list_all (\<lambda>b. 64 dvd unat (skb_data b)) bs" if "recv_bufs K m log = Some bs" for m log bs
    using that
  proof (induction m arbitrary: log bs)
    case (Suc m)
    then obtain b bs' where b: "netdev_alloc_skb K log (recv_len K) = Some b"
      and bs: "recv_bufs K m (log @ [K_netdev_alloc_skb (recv_len K)]) = Some bs'"
        "bs = reserved K b # bs'"
      by (auto split: option.splits)
    with Suc.IH reserved_aligned(1) [of K b] skb_reserve alloc show ?case by simp
  qed simp
  have fold: "(\<lambda>h b. iowrite64 D R_RX ACCNET_RX_DMA_ADDR (virt_to_phys K (skb_data b)) h) = post_addr K D"
    by (simp add: fun_eq_iff post_addr_def)
  show ?thesis unfolding fold
    using al wf length_recv_bufs
    by (auto simp: alloc_recv_eq Let_def n_def avail_snd cq.inv_pushes cq.contents_pushes
        split: option.split)
qed

theorem alloc_recv_posts_witness:
  "\<exists>s'. alloc_recv demo_kernel ram_device (demo_nic [((R_RX, 0x04), 62)] [] []) = Inr s'
     \<and> map skb_data (cq_list (recv_cq s')) = [0x1040, 0x1040]"
proof -
  let ?s = "demo_nic [((R_RX, 0x04), 62)] [] []"
  have n: "nat (fst (recv_req_avail ram_device ?s)) = Suc (Suc 0)"
    by (simp add: recv_req_avail_def io_eval ACCNET_RX_DMA_ADDR_COUNT_def)
  have r: "skb_data (reserved demo_kernel \<lparr>skb_id = i, skb_data = 0x1005, skb_len = 0,
       skb_headlen = 0, skb_frags = []\<rparr>) = 0x1040" for i
    by (simp add: reserved_def DMA_PTR_ALIGN_def ALIGN_BYTES_def)
  obtain b c where bs: "recv_bufs demo_kernel (Suc (Suc 0)) (klog ?s) = Some [b, c]"
      "skb_data b = 0x1040" "skb_data c = 0x1040"
    using r by simp
  show ?thesis
    using alloc_recv_posts [of ?s demo_kernel ram_device, unfolded n] bs
    by auto
qed

text \<open>
  Property C7. The segments that \<open>post_send\<close> writes to the TX engine for a sequence of
  buffers can be cut back into the buffers: reading the stream with the engine's
  descriptor format gives for each buffer its head segment and its page fragments, in
  order, with their addresses and lengths. The length of each segment must fit the 15
  bits it has below the continuation bit.
\<close>

theorem post_send_framing:
  assumes "list_all (\<lambda>skb. list_all seg_fits (tx_segs K skb)) skbs"
  shows "\<exists>ds. hw (foldl (\<lambda>s skb. post_send K D skb s) s skbs) =
        foldl (\<lambda>h d. iowrite64 D R_TX ACCNET_TX_REQ d h) (hw s) ds
    \<and> deframe [] ds = map (tx_segs K) skbs"
proof -
  have fold: "(\<lambda>h d. iowrite64 D R_TX ACCNET_TX_REQ d h) = post_desc D"
    by (simp add: fun_eq_iff post_desc_def)
  have "hw (foldl (\<lambda>s skb. post_send K D skb s) s skbs) =
      foldl (post_desc D) (hw s) (concat (map (tx_descs K) skbs))"
    by (induction skbs arbitrary: s) (simp_all add: post_send_eq)
  with deframe_stream [OF assms] show ?thesis unfolding fold by blast
qed

lemma replicate_2: "replicate 2 x = [x, x]"
  by (simp add: numeral_2_eq_2)

theorem post_send_framing_witness:
  "\<exists>ds. hw (foldl (\<lambda>s skb. post_send demo_kernel ram_device skb s) (demo_nic [] [] [])
         [demo_skb 1 2, demo_skb 2 0]) =
        foldl (\<lambda>h d. iowrite64 ram_device R_TX ACCNET_TX_REQ d h) (hw (demo_nic [] [] [])) ds
    \<and> deframe [] ds = [[(0x4000, 14), (0x8010, 46), (0x8010, 46)], [(0x4000, 60)]]"
  using post_send_framing [of demo_kernel "[demo_skb 1 2, demo_skb 2 0]" ram_device "demo_nic [] [] []"]
  by (simp add: replicate_2 tx_segs_def head_seg_def frag_seg_def seg_fits_def demo_skb_def)

lemma schedule_log:
  "\<exists>w. (if c then accnet_schedule K s else s) = s\<lparr>klog := klog s @ w\<rparr>
     \<and> set w \<subseteq> {K_napi_schedule_prep, K_napi_schedule}"
  by (cases c; cases "napi_schedule_prep K (klog s)")
    (auto simp: accnet_schedule_def kcall_log_def intro: exI [of _ "[]"])

lemma stop_schedule_log:
  "\<exists>w. (if c then accnet_schedule K (kcall_log K_netif_stop_queue s) else s) = s\<lparr>klog := klog s @ w\<rparr>
     \<and> set w \<subseteq> {K_napi_schedule_prep, K_napi_schedule, K_netif_stop_queue}"
  by (cases c; cases "napi_schedule_prep K (klog s @ [K_netif_stop_queue])")
    (auto simp: accnet_schedule_def kcall_log_def intro: exI [of _ "[]"])

lemma xmit_reschedule_log:
  "\<exists>w. xmit_reschedule K D s = s\<lparr>klog := klog s @ w, hw := snd (ioread16 D R_TX ACCNET_TX_REQ_COUNT
        (snd (ioread16 D R_TX ACCNET_TX_COUNT (hw s))))\<rparr>
     \<and> set w \<subseteq> {K_napi_schedule_prep, K_napi_schedule, K_netif_stop_queue}"
proof -
  define s1 where "s1 = s\<lparr>hw := snd (ioread16 D R_TX ACCNET_TX_COUNT (hw s))\<rparr>"
  define s2 where "s2 = (if fst (send_comp_avail D s) > CONFIG_ACCNET_TX_THRESHOLD
      then accnet_schedule K s1 else s1)"
  define s3 where "s3 = s2\<lparr>hw := snd (ioread16 D R_TX ACCNET_TX_REQ_COUNT (hw s2))\<rparr>"
  have eq: "xmit_reschedule K D s = (if fst (send_req_avail D s2) < MAX_SKB_FRAGS K
      then accnet_schedule K (kcall_log K_netif_stop_queue s3) else s3)"
    unfolding xmit_reschedule_def Let_def case_prod_beta avail_snd send_space_eq s1_def [symmetric]
      s2_def [symmetric] fst_conv snd_conv s3_def [symmetric] by simp
  obtain w1 where w1: "s2 = s1\<lparr>klog := klog s1 @ w1\<rparr>" "set w1 \<subseteq> {K_napi_schedule_prep, K_napi_schedule}"
    using schedule_log unfolding s2_def by blast
  obtain w2 where w2: "xmit_reschedule K D s = s3\<lparr>klog := klog s3 @ w2\<rparr>"
    "set w2 \<subseteq> {K_napi_schedule_prep, K_napi_schedule, K_netif_stop_queue}"
    using stop_schedule_log unfolding eq by blast
  from w1(2) w2(2) show ?thesis
    by (intro exI [of _ "w1 @ w2"]) (auto simp: w2(1) s3_def w1(1) s1_def)
qed

lemma start_xmit_busy:
  assumes "fst (send_req_avail D s) < int (length (skb_frags skb)) + 1"
  shows "accnet_start_xmit K D skb s = (NETDEV_TX_BUSY,
    s\<lparr>klog := klog s @ [K_netif_stop_queue, K_kfree_skb skb], tx_dropped := tx_dropped s + 1,
      hw := snd (ioread16 D R_TX ACCNET_TX_REQ_COUNT (hw s))\<rparr>)"
  using assms by (simp add: accnet_start_xmit_def send_space_eq avail_snd kcall_log_def)

lemma start_xmit_ok:
  assumes "\<not> fst (send_req_avail D s) < int (length (skb_frags skb)) + 1"
  shows "\<exists>w. set w \<subseteq> {K_napi_schedule_prep, K_napi_schedule, K_netif_stop_queue}
        \<and> accnet_start_xmit K D skb s = (NETDEV_TX_OK,
            s\<lparr>send_cq := sk_buff_cq_push (send_cq s) (Some skb), tx_packets := tx_packets s + 1,
              tx_bytes := tx_bytes s + ucast (skb_len skb),
              klog := klog s @ K_skb_tx_timestamp skb # w,
              hw := snd (ioread16 D R_TX ACCNET_TX_REQ_COUNT (snd (ioread16 D R_TX ACCNET_TX_COUNT
                (foldl (post_desc D) (snd (ioread16 D R_TX ACCNET_TX_REQ_COUNT (hw s))) (tx_descs K skb)))))\<rparr>)"
proof -
  define s2 where "s2 = s\<lparr>klog := klog s @ [K_skb_tx_timestamp skb],
      hw := foldl (post_desc D) (snd (ioread16 D R_TX ACCNET_TX_REQ_COUNT (hw s))) (tx_descs K skb),
      send_cq := sk_buff_cq_push (send_cq s) (Some skb),
      tx_packets := tx_packets s + 1, tx_bytes := tx_bytes s + ucast (skb_len skb)\<rparr>"
  have eq: "accnet_start_xmit K D skb s = (NETDEV_TX_OK, xmit_reschedule K D s2)"
    using assms by (simp add: accnet_start_xmit_def send_space_eq avail_snd post_send_eq kcall_log_def
      Let_def s2_def)
  obtain w where "set w \<subseteq> {K_napi_schedule_prep, K_napi_schedule, K_netif_stop_queue}"
    "xmit_reschedule K D s2 = s2\<lparr>klog := klog s2 @ w, hw := snd (ioread16 D R_TX ACCNET_TX_REQ_COUNT
        (snd (ioread16 D R_TX ACCNET_TX_COUNT (hw s2))))\<rparr>"
    using xmit_reschedule_log by blast
  then show ?thesis unfolding eq by (intro exI [of _ w]) (simp add: s2_def)
qed

text \<open>
  Property C16. \<open>accnet_start_xmit\<close> on both branches. Without room for all segments of
  the buffer it stops the queue, frees the buffer, counts a drop and returns
  \<open>NETDEV_TX_BUSY\<close>, with no request posted. With room it timestamps the buffer, posts
  its descriptors and queues it, counts packet and bytes and returns
  \<open>NETDEV_TX_OK\<close>; after that it calls nothing but the scheduler and
  \<open>netif_stop_queue\<close>.
\<close>

theorem start_xmit_outcome:
  fixes s :: "'d nic" and D :: "'d device"
  defines "s1 \<equiv> snd (send_req_avail D s)"
  shows "if fst (send_req_avail D s) < int (length (skb_frags skb)) + 1
    then accnet_start_xmit K D skb s = (NETDEV_TX_BUSY,
        s1\<lparr>klog := klog s @ [K_netif_stop_queue, K_kfree_skb skb], tx_dropped := tx_dropped s + 1\<rparr>)
    else (\<exists>h w. set w \<subseteq> {K_napi_schedule_prep, K_napi_schedule, K_netif_stop_queue}
        \<and> h = hw (snd (send_space D 0 (snd (send_comp_avail D
            (s1\<lparr>hw := foldl (post_desc D) (hw s1) (tx_descs K skb)\<rparr>)))))
        \<and> accnet_start_xmit K D skb s = (NETDEV_TX_OK,
            s\<lparr>send_cq := sk_buff_cq_push (send_cq s) (Some skb), tx_packets := tx_packets s + 1,
              tx_bytes := tx_bytes s + ucast (skb_len skb),
              klog := klog s @ K_skb_tx_timestamp skb # w, hw := h\<rparr>))"
proof (cases "fst (send_req_avail D s) < int (length (skb_frags skb)) + 1")
  case True
  then show ?thesis by (simp add: start_xmit_busy s1_def avail_snd)
next
  case False
  from start_xmit_ok [OF this, of K] False show ?thesis
    by (simp add: s1_def avail_snd send_space_eq)
qed

end
