(* ===== verification/Accnet_Reach.thy ===== *)
theory Accnet_Reach
  imports Accnet_Data_Path
begin

text \<open>
  The AccNet driver as a state machine: one step is a call of a net_device operation,
  of the poll function or of an interrupt handler, or anything the device does on its
  own. Invariants of all reachable states: the two rings are well formed, every
  transmitted buffer is accounted for, and the interrupt mask follows the NAPI protocol.
\<close>

section \<open>Steps\<close>

text \<open>A run of the driver ends where a handler faults, so faults are not steps.\<close>

inductive drv_step :: "kernel \<Rightarrow> 'd device \<Rightarrow> 'd nic \<Rightarrow> 'd nic \<Rightarrow> bool" for K D where
  step_open: "accnet_open_ndo K D s = Inr (r, s') \<Longrightarrow> drv_step K D s s'"
| step_stop: "accnet_stop D s = (r, s') \<Longrightarrow> drv_step K D s s'"
| step_xmit: "accnet_start_xmit K D skb s = (x, s') \<Longrightarrow> drv_step K D s s'"
| step_poll: "accnet_poll K D budget s = Inr (n, s') \<Longrightarrow> drv_step K D s s'"
| step_tx_isr: "accnet_tx_isr K D irq s = (i, s') \<Longrightarrow> drv_step K D s s'"
| step_rx_isr: "accnet_rx_isr K D irq s = (i, s') \<Longrightarrow> drv_step K D s s'"
| step_hw: "drv_step K D s (s\<lparr>hw := h\<rparr>)"

definition nic_wf :: "'d nic \<Rightarrow> bool" where
  "nic_wf s \<longleftrightarrow> cq_wf (send_cq s) \<and> cq_wf (recv_cq s)"

text \<open>
  The buffers a log says were accepted for transmission and those it says were given
  back. The ledger balances if these, and the ones still queued, agree in order.
\<close>

definition accepted :: "kcall list \<Rightarrow> sk_buff list" where
  "accepted = List.map_filter (\<lambda>e. case e of K_skb_tx_timestamp skb \<Rightarrow> Some skb | _ \<Rightarrow> None)"

definition consumed :: "kcall list \<Rightarrow> sk_buff list" where
  "consumed = List.map_filter (\<lambda>e. case e of K_consume_skb x \<Rightarrow> x | _ \<Rightarrow> None)"

definition tx_ledger :: "'d nic \<Rightarrow> bool" where
  "tx_ledger s \<longleftrightarrow> accepted (klog s) = consumed (klog s) @ cq_list (send_cq s)"

lemma map_filter_append: "List.map_filter f (xs @ ys) = List.map_filter f xs @ List.map_filter f ys"
  by (simp add: map_filter_def)

lemma ledger_append [simp]:
  "accepted (xs @ ys) = accepted xs @ accepted ys" "consumed (xs @ ys) = consumed xs @ consumed ys"
  by (simp_all add: accepted_def consumed_def map_filter_append)

lemma ledger_Cons [simp]:
  "accepted (e # xs) = (case e of K_skb_tx_timestamp skb \<Rightarrow> [skb] | _ \<Rightarrow> []) @ accepted xs"
  "consumed (e # xs) = (case e of K_consume_skb (Some skb) \<Rightarrow> [skb] | _ \<Rightarrow> []) @ consumed xs"
  by (auto simp: accepted_def consumed_def map_filter_simps split: kcall.split option.split)

lemma ledger_Nil [simp]: "accepted [] = []" "consumed [] = []"
  by (simp_all add: accepted_def consumed_def map_filter_simps)

lemma ledger_consumes [simp]:
  "accepted (map (K_consume_skb \<circ> Some) q) = []" "consumed (map (K_consume_skb \<circ> Some) q) = q"
  by (induction q) simp_all

lemma ledger_delivery [simp]:
  "accepted (concat (map delivery q)) = []" "consumed (concat (map delivery q)) = []"
  by (induction q) auto

lemma ledger_alloc [simp]:
  "accepted (replicate n (K_netdev_alloc_skb l)) = []" "consumed (replicate n (K_netdev_alloc_skb l)) = []"
  by (induction n) simp_all

text \<open>A call is quiet if it leaves the rings and the ledger alone.\<close>

definition quiet :: "'d nic \<Rightarrow> 'd nic \<Rightarrow> bool" where
  "quiet s s' \<longleftrightarrow> send_cq s' = send_cq s \<and> recv_cq s' = recv_cq s
     \<and> accepted (klog s') = accepted (klog s) \<and> consumed (klog s') = consumed (klog s)"

lemma quiet_refl [simp]: "quiet s s" by (simp add: quiet_def)
lemma quiet_trans: "quiet s s' \<Longrightarrow> quiet s' s'' \<Longrightarrow> quiet s s''" by (simp add: quiet_def)
lemma quiet_hw: "quiet s (s\<lparr>hw := h\<rparr>)" by (simp add: quiet_def)
lemma quiet_intmask: "quiet s (set_intmask D m s)" "quiet s (clear_intmask D m s)"
  by (simp_all add: quiet_def set_intmask_def clear_intmask_def case_prod_beta)
lemma quiet_schedule: "quiet s (accnet_schedule K s)"
  by (simp add: quiet_def accnet_schedule_def kcall_log_def Let_def)

lemma complete_send_inv:
  assumes "complete_send K D s = Inr s'" and "nic_wf s"
  shows "nic_wf s'" and "tx_ledger s \<Longrightarrow> tx_ledger s'"
proof -
  have le: "fst (send_comp_avail D s) \<le> segs (cq_list (send_cq s))"
    using complete_send_fault [of s D K] assms by (fastforce simp: nic_wf_def)
  define q k where "q = cq_list (send_cq s)" and "k = retired (fst (send_comp_avail D s)) q"
  from complete_send_ok [OF _ le, of K] assms obtain w where
    s': "send_cq s' = snd (drain sk_buff_cq_pop k (send_cq s))" "recv_cq s' = recv_cq s"
      "klog s' = klog s @ map (K_consume_skb \<circ> Some) (take k q) @ w"
      "w = [] \<or> w = [K_netif_wake_queue]"
    by (auto simp: nic_wf_def q_def k_def)
  have d: "cq_list (send_cq s') = drop k q" "cq_wf (send_cq s')"
    using cq.drain_contents [of "send_cq s" k] assms(2) by (simp_all add: s'(1) q_def nic_wf_def)
  show "nic_wf s'" using assms(2) d s'(2) by (simp add: nic_wf_def)
  assume "tx_ledger s"
  then show "tx_ledger s'" using s'(4) by (auto simp: tx_ledger_def s'(3) d(1) simp flip: q_def)
qed

lemma complete_recv_inv:
  assumes "complete_recv D budget s = Inr (n, s')" and "nic_wf s"
  shows "nic_wf s'" and "tx_ledger s \<Longrightarrow> tx_ledger s'"
proof -
  have le: "min budget (fst (recv_comp_avail D s)) \<le> int (length (cq_list (recv_cq s)))"
    using complete_recv_fault [of s budget D] assms by (fastforce simp: nic_wf_def not_le)
  from complete_recv_ok [OF _ le] assms
  show "nic_wf s'" and "tx_ledger s \<Longrightarrow> tx_ledger s'"
    using cq.drain_contents [of "recv_cq s"] by (auto simp: nic_wf_def tx_ledger_def)
qed

lemma alloc_recv_inv:
  assumes "alloc_recv K D s = Inr s'" and "nic_wf s"
  shows "nic_wf s'" and "tx_ledger s \<Longrightarrow> tx_ledger s'"
  using assms cq.inv_pushes [of "recv_cq s"]
  by (auto simp: alloc_recv_eq Let_def nic_wf_def tx_ledger_def split: option.splits)

lemma quiet_inv:
  assumes "quiet s s'"
  shows "nic_wf s' \<longleftrightarrow> nic_wf s" and "tx_ledger s' \<longleftrightarrow> tx_ledger s"
  using assms by (simp_all add: quiet_def nic_wf_def tx_ledger_def)

lemma open_inv:
  assumes "accnet_open_ndo K D s = Inr (r, s')" and "nic_wf s"
  shows "nic_wf s'" and "tx_ledger s \<Longrightarrow> tx_ledger s'"
proof -
  from assms(1) obtain s1 where s1: "alloc_recv K D (kcall_log K_napi_enable s) = Inr s1"
    and s': "s' = set_intmask D ACCNET_INTMASK_TX (set_intmask D ACCNET_INTMASK_RX
        (kcall_log K_netif_start_queue s1))"
    by (auto simp: accnet_open_ndo_def split: sum.splits)
  have "quiet s (kcall_log K_napi_enable s)" and "quiet s1 (kcall_log K_netif_start_queue s1)"
    by (simp_all add: quiet_def kcall_log_def)
  moreover from this(2) have "quiet s1 s'"
    unfolding s' by (intro quiet_trans [OF _ quiet_intmask(1)])
  ultimately show "nic_wf s'" and "tx_ledger s \<Longrightarrow> tx_ledger s'"
    using alloc_recv_inv [OF s1] assms(2) by (simp_all add: quiet_inv)
qed

lemma poll_inv:
  assumes "accnet_poll K D budget s = Inr (n, s')" and "nic_wf s"
  shows "nic_wf s'" and "tx_ledger s \<Longrightarrow> tx_ledger s'"
proof -
  from assms(1) obtain s1 s2 s3 where s1: "complete_send K D s = Inr s1"
    and s2: "complete_recv D budget s1 = Inr (n, s2)" and s3: "alloc_recv K D s2 = Inr s3"
    and s': "s' = (if n < budget then set_intmask D ACCNET_INTMASK_BOTH
        (kcall_log (K_napi_complete_done n) s3) else s3)"
    by (auto simp: accnet_poll_def split: sum.splits)
  have "quiet s3 (kcall_log (K_napi_complete_done n) s3)" by (simp add: quiet_def kcall_log_def)
  then have "quiet s3 s'" unfolding s' by (simp add: quiet_trans [OF _ quiet_intmask(1)])
  then show "nic_wf s'" and "tx_ledger s \<Longrightarrow> tx_ledger s'"
    using complete_send_inv [OF s1] complete_recv_inv [OF s2] alloc_recv_inv [OF s3] assms(2)
    by (simp_all add: quiet_inv)
qed

lemma isr_quiet: "quiet s (snd (accnet_tx_isr K D irq s))" "quiet s (snd (accnet_rx_isr K D irq s))"
  by (simp_all add: accnet_tx_isr_def accnet_rx_isr_def quiet_def clear_intmask_def accnet_schedule_def
      kcall_log_def Let_def case_prod_beta)

lemma stop_quiet: "quiet s (snd (accnet_stop D s))"
  by (simp add: accnet_stop_def quiet_def clear_intmask_def kcall_log_def Let_def case_prod_beta)

lemma start_xmit_queue:
  fixes skb :: sk_buff and D :: "'d device" and s :: "'d nic"
  defines "ok \<equiv> \<not> fst (send_req_avail D s) < int (length (skb_frags skb)) + 1"
  shows "send_cq (snd (accnet_start_xmit K D skb s)) =
      (if ok then sk_buff_cq_push (send_cq s) (Some skb) else send_cq s)"
    and "recv_cq (snd (accnet_start_xmit K D skb s)) = recv_cq s"
    and "accepted (klog (snd (accnet_start_xmit K D skb s))) =
      accepted (klog s) @ (if ok then [skb] else [])"
    and "consumed (klog (snd (accnet_start_xmit K D skb s))) = consumed (klog s)"
proof -
  have quiet: "accepted w = []" "consumed w = []"
    if "set w \<subseteq> {K_napi_schedule_prep, K_napi_schedule, K_netif_stop_queue}" for w
    using that by (induction w) auto
  show "send_cq (snd (accnet_start_xmit K D skb s)) =
      (if ok then sk_buff_cq_push (send_cq s) (Some skb) else send_cq s)"
    and "recv_cq (snd (accnet_start_xmit K D skb s)) = recv_cq s"
    and "accepted (klog (snd (accnet_start_xmit K D skb s))) =
      accepted (klog s) @ (if ok then [skb] else [])"
    and "consumed (klog (snd (accnet_start_xmit K D skb s))) = consumed (klog s)"
    using start_xmit_ok [of D s skb K] start_xmit_busy [of D s skb K] quiet
    by (cases ok; fastforce simp: ok_def)+
qed

lemma xmit_inv:
  assumes "accnet_start_xmit K D skb s = (x, s')" and "nic_wf s"
  shows "nic_wf s'" and "tx_ledger s \<Longrightarrow> cq_room (send_cq s) \<Longrightarrow> tx_ledger s'"
  using start_xmit_queue [where K = K and D = D and skb = skb and s = s] assms
  by (auto simp: nic_wf_def tx_ledger_def cq_wf_push cq_list_push split: if_splits)

lemma drv_step_inv:
  assumes "drv_step K D s s'" and "nic_wf s"
  shows "nic_wf s'" and "tx_ledger s \<Longrightarrow> cq_room (send_cq s) \<Longrightarrow> tx_ledger s'"
proof -
  have "nic_wf s' \<and> (tx_ledger s \<longrightarrow> cq_room (send_cq s) \<longrightarrow> tx_ledger s')"
    using assms(1)
  proof (cases rule: drv_step.cases)
    case (step_open r)
    from open_inv [OF this assms(2)] show ?thesis by blast
  next
    case (step_stop r)
    with stop_quiet [of s D] have "quiet s s'" by simp
    from quiet_inv [OF this] assms(2) show ?thesis by blast
  next
    case (step_xmit skb x)
    from xmit_inv [OF this assms(2)] show ?thesis by blast
  next
    case (step_poll budget n)
    from poll_inv [OF this assms(2)] show ?thesis by blast
  next
    case (step_tx_isr irq i)
    with isr_quiet(1) [of s K D irq] have "quiet s s'" by simp
    from quiet_inv [OF this] assms(2) show ?thesis by blast
  next
    case (step_rx_isr irq i)
    with isr_quiet(2) [of s K D irq] have "quiet s s'" by simp
    from quiet_inv [OF this] assms(2) show ?thesis by blast
  next
    case (step_hw h)
    with quiet_hw [of s h] have "quiet s s'" by simp
    from quiet_inv [OF this] assms(2) show ?thesis by blast
  qed
  then show "nic_wf s'" and "tx_ledger s \<Longrightarrow> cq_room (send_cq s) \<Longrightarrow> tx_ledger s'" by blast+
qed

section \<open>The interrupt mask\<close>

text \<open>
  The mask register, where it is the only storage in \<open>S\<close> that the driver writes: the
  ports and counters of the two engines are outside it and may answer as they like.
\<close>

definition intmask :: "('d \<Rightarrow> region \<times> nat \<Rightarrow> u8) \<Rightarrow> 'd \<Rightarrow> u32" where
  "intmask peek h = ucast (reg_val peek h R_CTRL ACCNET_INTR_MASK 4)"

definition ctrl_only :: "(region \<times> nat) set \<Rightarrow> bool" where
  "ctrl_only S \<longleftrightarrow> span R_CTRL ACCNET_INTR_MASK 4 \<subseteq> S \<and> S \<subseteq> {R_CTRL} \<times> UNIV"

context storage_device
begin

lemma intmask_read:
  assumes "ctrl_only S"
  shows "intmask peek (snd (dev_read D r n off h)) = intmask peek h"
  using assms by (simp add: intmask_def ctrl_only_def)

lemma intmask_write:
  assumes "ctrl_only S" and "r \<noteq> R_CTRL"
  shows "intmask peek (dev_write D r n off v h) = intmask peek h"
proof -
  have "span r off n \<inter> S = {}" using assms by (auto simp: ctrl_only_def span_def)
  moreover have "span r off n \<inter> span R_CTRL ACCNET_INTR_MASK 4 = {}"
    using assms(2) by (simp add: span_disjoint)
  ultimately show ?thesis using assms(1)
    by (simp add: intmask_def ctrl_only_def reg_val_write_other)
qed

lemma intmask_io:
  assumes "ctrl_only S"
  shows "intmask peek (snd (ioread16 D r off h)) = intmask peek h"
    and "intmask peek (snd (ioread64 D r off h)) = intmask peek h"
    and "r \<noteq> R_CTRL \<Longrightarrow> intmask peek (iowrite8 D r off v8 h) = intmask peek h"
    and "r \<noteq> R_CTRL \<Longrightarrow> intmask peek (iowrite64 D r off v h) = intmask peek h"
  using assms by (simp_all add: ioread16_def ioread64_def iowrite8_def iowrite64_def case_prod_beta
      intmask_read intmask_write)

lemma intmask_loops:
  assumes "ctrl_only S"
  shows "intmask peek (comp_reads D n h) = intmask peek h"
    and "intmask peek (snd (comp_log D n h)) = intmask peek h"
    and "intmask peek (foldl (post_desc D) h ds) = intmask peek h"
    and "intmask peek (foldl (post_addr K D) h bs) = intmask peek h"
proof -
  show "intmask peek (comp_reads D n h) = intmask peek h"
    by (induction n arbitrary: h) (simp_all add: intmask_io assms)
  show "intmask peek (snd (comp_log D n h)) = intmask peek h"
    by (induction n arbitrary: h) (simp_all add: intmask_io assms case_prod_beta)
  show "intmask peek (foldl (post_desc D) h ds) = intmask peek h"
    by (induction ds arbitrary: h) (simp_all add: intmask_io assms post_desc_def)
  show "intmask peek (foldl (post_addr K D) h bs) = intmask peek h"
    by (induction bs arbitrary: h) (simp_all add: intmask_io assms post_addr_def)
qed

lemma intmask_rmw:
  assumes "ctrl_only S"
  shows "intmask peek (hw (set_intmask D m s)) = intmask peek (hw s) OR m"
    and "intmask peek (hw (clear_intmask D m s)) = intmask peek (hw s) AND NOT m"
proof -
  have val: "fst (ioread32 D R_CTRL ACCNET_INTR_MASK (hw s)) = intmask peek (hw s)"
    using assms by (simp add: ioread32_def case_prod_beta intmask_def ctrl_only_def read_val)
  have wr: "intmask peek (iowrite32 D R_CTRL ACCNET_INTR_MASK v h) = v" for v h
    using assms
    by (simp add: intmask_def iowrite32_def ctrl_only_def reg_val_write_same)
      (rule bit_word_eqI; simp add: bit_simps)
  show "intmask peek (hw (set_intmask D m s)) = intmask peek (hw s) OR m"
    and "intmask peek (hw (clear_intmask D m s)) = intmask peek (hw s) AND NOT m"
    by (simp_all add: set_intmask_def clear_intmask_def case_prod_beta wr val)
qed

lemma hw_schedule [simp]: "hw (accnet_schedule K s) = hw s"
  by (simp add: accnet_schedule_def kcall_log_def Let_def)

lemma intmask_alloc_recv:
  assumes "ctrl_only S" and "alloc_recv K D s = Inr s'"
  shows "intmask peek (hw s') = intmask peek (hw s)"
  using assms by (auto simp: alloc_recv_eq Let_def intmask_loops intmask_io split: option.splits)

lemma intmask_complete:
  assumes "ctrl_only S" and "nic_wf s"
  shows "complete_send K D s = Inr s' \<Longrightarrow> intmask peek (hw s') = intmask peek (hw s)"
    and "complete_recv D budget s = Inr (n, s') \<Longrightarrow> intmask peek (hw s') = intmask peek (hw s)"
proof -
  assume s': "complete_send K D s = Inr s'"
  then have "fst (send_comp_avail D s) \<le> segs (cq_list (send_cq s))"
    using complete_send_fault [of s D K] assms(2) by (fastforce simp: nic_wf_def)
  from complete_send_ok [OF _ this, of K] s' assms
  show "intmask peek (hw s') = intmask peek (hw s)"
    by (auto simp: nic_wf_def intmask_loops intmask_io avail_snd)
next
  assume s': "complete_recv D budget s = Inr (n, s')"
  then have "min budget (fst (recv_comp_avail D s)) \<le> int (length (cq_list (recv_cq s)))"
    using complete_recv_fault [of s budget D] assms(2) by (fastforce simp: nic_wf_def not_le)
  from complete_recv_ok [OF _ this] s' assms
  show "intmask peek (hw s') = intmask peek (hw s)"
    by (auto simp: nic_wf_def intmask_loops intmask_io avail_snd)
qed

lemma intmask_poll:
  assumes "ctrl_only S" and "nic_wf s" and "accnet_poll K D budget s = Inr (n, s')"
  shows "intmask peek (hw s') =
    (if n < budget then intmask peek (hw s) OR ACCNET_INTMASK_BOTH else intmask peek (hw s))"
proof -
  from assms(3) obtain s1 s2 s3 where s1: "complete_send K D s = Inr s1"
    and s2: "complete_recv D budget s1 = Inr (n, s2)" and s3: "alloc_recv K D s2 = Inr s3"
    and s': "s' = (if n < budget then set_intmask D ACCNET_INTMASK_BOTH
        (kcall_log (K_napi_complete_done n) s3) else s3)"
    by (auto simp: accnet_poll_def split: sum.splits)
  have "nic_wf s1" using complete_send_inv(1) [OF s1 assms(2)] .
  then have "intmask peek (hw s3) = intmask peek (hw s)"
    using intmask_complete(1) [OF assms(1,2) s1] intmask_complete(2) [OF assms(1) _ s2]
      intmask_alloc_recv [OF assms(1) s3] by simp
  then show ?thesis using assms(1) by (simp add: s' intmask_rmw kcall_log_def)
qed

lemma intmask_isr:
  assumes "ctrl_only S"
  shows "intmask peek (hw (snd (accnet_tx_isr K D (tx_irq s) s))) =
      intmask peek (hw s) AND NOT ACCNET_INTMASK_TX"
    and "intmask peek (hw (snd (accnet_rx_isr K D (rx_irq s) s))) =
      intmask peek (hw s) AND NOT ACCNET_INTMASK_RX"
  using assms by (simp_all add: accnet_tx_isr_def accnet_rx_isr_def Let_def intmask_io intmask_rmw)

lemma intmask_ndo:
  assumes "ctrl_only S"
  shows "intmask peek (hw (snd (accnet_start_xmit K D skb s))) = intmask peek (hw s)"
    and "accnet_open_ndo K D s = Inr (r, s') \<Longrightarrow>
      intmask peek (hw s') = intmask peek (hw s) OR ACCNET_INTMASK_BOTH"
    and "intmask peek (hw (snd (accnet_stop D s))) =
      intmask peek (hw s) AND NOT ACCNET_INTMASK_BOTH"
proof -
  show "intmask peek (hw (snd (accnet_start_xmit K D skb s))) = intmask peek (hw s)"
    using assms start_xmit_ok [of D s skb K] start_xmit_busy [of D s skb K]
    by (cases "fst (send_req_avail D s) < int (length (skb_frags skb)) + 1")
      (auto simp: intmask_io intmask_loops)
  show "intmask peek (hw (snd (accnet_stop D s))) =
      intmask peek (hw s) AND NOT ACCNET_INTMASK_BOTH"
    using assms by (simp add: accnet_stop_def Let_def kcall_log_def intmask_rmw)
  assume "accnet_open_ndo K D s = Inr (r, s')"
  then obtain s1 where s1: "alloc_recv K D (kcall_log K_napi_enable s) = Inr s1"
    and s': "s' = set_intmask D ACCNET_INTMASK_TX (set_intmask D ACCNET_INTMASK_RX
        (kcall_log K_netif_start_queue s1))"
    by (auto simp: accnet_open_ndo_def split: sum.splits)
  from intmask_alloc_recv [OF assms s1] assms
  show "intmask peek (hw s') = intmask peek (hw s) OR ACCNET_INTMASK_BOTH"
    by (simp add: s' intmask_rmw kcall_log_def or.assoc ACCNET_INTMASK_RX_def
        ACCNET_INTMASK_TX_def ACCNET_INTMASK_BOTH_def)
qed

end

section \<open>Properties\<close>

text \<open>
  Property C9. In every state the driver can reach from a well-formed one, whatever the
  device does, both rings are well formed: the indices stay in range and every slot
  between tail and head holds a buffer.
\<close>

theorem nic_wf_reachable:
  assumes "(drv_step K D)\<^sup>*\<^sup>* s s'" and "nic_wf s"
  shows "nic_wf s'"
  using assms by (induction rule: rtranclp_induct) (auto intro: drv_step_inv)

theorem nic_wf_reachable_witness:
  "nic_wf (snd (accnet_start_xmit demo_kernel ram_device (demo_skb 1 2)
     (snd (accnet_stop ram_device (demo_nic [] [] [])))))"
proof (rule nic_wf_reachable)
  let ?s = "snd (accnet_stop ram_device (demo_nic [] [] []))"
  show "(drv_step demo_kernel ram_device)\<^sup>*\<^sup>* (demo_nic [] [] [])
      (snd (accnet_start_xmit demo_kernel ram_device (demo_skb 1 2) ?s))"
    by (meson converse_rtranclp_into_rtranclp r_into_rtranclp step_stop step_xmit surjective_pairing)
qed (simp add: nic_wf_def)

text \<open>
  Property C2. No transmitted buffer is lost, given back twice or given back out of
  order: at every point of a run in which the transmit ring never fills up, the buffers
  accepted so far are, in order, those given back to the kernel followed by those in the
  ring.
\<close>

theorem tx_ledger_reachable:
  assumes "(\<lambda>s s'. cq_room (send_cq s) \<and> drv_step K D s s')\<^sup>*\<^sup>* s s'"
    and "nic_wf s" and "accepted (klog s) = consumed (klog s) @ cq_list (send_cq s)"
  shows "accepted (klog s') = consumed (klog s') @ cq_list (send_cq s')"
proof -
  have "nic_wf s' \<and> tx_ledger s'"
    using assms unfolding tx_ledger_def [symmetric]
    by (induction rule: rtranclp_induct) (auto intro: drv_step_inv)
  then show ?thesis by (simp add: tx_ledger_def)
qed

theorem tx_ledger_reachable_witness:
  "let s = demo_nic [] [] []; s' = snd (accnet_start_xmit demo_kernel ram_device (demo_skb 1 2) s) in
   accepted (klog s') = consumed (klog s') @ cq_list (send_cq s')"
  unfolding Let_def
proof (rule tx_ledger_reachable)
  let ?s = "demo_nic [] [] []"
  have "cq_room (send_cq ?s)" by (simp add: cq_room_def)
  then show "(\<lambda>s s'. cq_room (send_cq s) \<and> drv_step demo_kernel ram_device s s')\<^sup>*\<^sup>* ?s
      (snd (accnet_start_xmit demo_kernel ram_device (demo_skb 1 2) ?s))"
    by (intro r_into_rtranclp) (blast intro: step_xmit surjective_pairing)
qed (simp_all add: nic_wf_def)

text \<open>
  Property C8. The interrupt mask follows the NAPI protocol. An interrupt handler masks
  its own interrupt and no other; the poll function unmasks both exactly when it did
  less work than its budget and otherwise leaves the mask; transmitting leaves it;
  opening the device unmasks both and stopping it masks both.
\<close>

theorem intmask_protocol:
  fixes s :: "'d nic" and peek :: "'d \<Rightarrow> region \<times> nat \<Rightarrow> u8"
  defines "mask_of \<equiv> (\<lambda>s. intmask peek (hw s))"
  assumes "storage_device D S peek" and "ctrl_only S" and "nic_wf s"
  shows "mask_of (snd (accnet_tx_isr K D (tx_irq s) s)) = mask_of s AND NOT ACCNET_INTMASK_TX
    \<and> mask_of (snd (accnet_rx_isr K D (rx_irq s) s)) = mask_of s AND NOT ACCNET_INTMASK_RX
    \<and> (\<forall>budget n s'. accnet_poll K D budget s = Inr (n, s') \<longrightarrow>
        mask_of s' = (if n < budget then mask_of s OR ACCNET_INTMASK_BOTH else mask_of s))
    \<and> mask_of (snd (accnet_start_xmit K D skb s)) = mask_of s
    \<and> (\<forall>r s'. accnet_open_ndo K D s = Inr (r, s') \<longrightarrow> mask_of s' = mask_of s OR ACCNET_INTMASK_BOTH)
    \<and> mask_of (snd (accnet_stop D s)) = mask_of s AND NOT ACCNET_INTMASK_BOTH"
  using storage_device.intmask_isr [OF assms(2,3)]
    storage_device.intmask_poll [OF assms(2-4)]
    storage_device.intmask_ndo [OF assms(2,3)]
  unfolding mask_of_def by blast

theorem intmask_protocol_witness:
  "intmask (\<lambda>m (r, a). m r a) (hw (snd (accnet_tx_isr demo_kernel ram_device 5
     (demo_nic [((R_CTRL, 0), 3)] [] [])))) = 2"
proof -
  have "ctrl_only ({R_CTRL} \<times> UNIV)" by (auto simp: ctrl_only_def span_def)
  moreover have "intmask (\<lambda>m (r, a). m r a) (hw (demo_nic [((R_CTRL, 0), 3)] [] [])) = 3"
    by (simp add: intmask_def reg_val_def le_get_numeral reg_offsets)
  ultimately show ?thesis
    using intmask_protocol [OF ram_storage, of "{R_CTRL} \<times> UNIV"
        "demo_nic [((R_CTRL, 0), 3)] [] []" demo_kernel]
    by (simp add: nic_wf_def reg_offsets)
qed

end
