(* ===== verification/Accnet_Setup.thy ===== *)
theory Accnet_Setup
  imports Accnet_Reach
begin

text \<open>
  Bringing the AccNet driver up and down: the device tree lookups, the interrupt lines,
  the MAC address, the registers of the UDP engines, and the probe and remove functions
  that call them (accnet.c). What the device tree and the kernel answer is the
  parameter \<open>E\<close>.
\<close>

section \<open>The answers of the platform\<close>

datatype dt_node = Dev_node | Compatible string

record probe_env =
  has_of_node :: bool
  alloc_etherdev :: bool                       \<comment> \<open>\<open>devm_alloc_etherdev\<close> is not NULL\<close>
  of_address_to_resource :: "dt_node \<Rightarrow> int \<times> resource"
  of_find_compatible_node :: "string \<Rightarrow> bool"
  devm_ioremap_resource :: "resource \<Rightarrow> int option"   \<comment> \<open>the \<open>PTR_ERR\<close>, None if mapped\<close>
  irq_of_parse_and_map :: "nat \<Rightarrow> int"
  devm_request_irq :: "int \<Rightarrow> int"
  register_netdev :: int
  misc_register :: int

section \<open>Device tree and interrupts\<close>

text \<open>
  The four blocks of \<open>accnet_parse_addr\<close> that look up an engine: find its node, read
  its resource, map it. The result is an errno value or the resource.
\<close>

definition find_engine :: "probe_env \<Rightarrow> string \<Rightarrow> int + resource" where
  "find_engine E name =
     (if \<not> of_find_compatible_node E name then Inl (- ENODEV)
      else
        (let (err, regs) = of_address_to_resource E (Compatible name)
         in if err \<noteq> 0 then Inl (- EINVAL)
         else
           (case devm_ioremap_resource E regs of
              Some e \<Rightarrow> Inl e
            | None \<Rightarrow> Inr regs)))"

definition accnet_parse_addr :: "probe_env \<Rightarrow> 'd nic \<Rightarrow> int \<times> 'd nic" where
  "accnet_parse_addr E s =
     (let (err, regs) = of_address_to_resource E Dev_node
      in if err \<noteq> 0 then (err, s)
      else
      (case devm_ioremap_resource E regs of
         Some e \<Rightarrow> (e, s)
       | None \<Rightarrow>
       (let s = s\<lparr>hw_regs_control_phys := res_start regs, hw_regs_control_size := res_size regs\<rparr>
        in case find_engine E ''yale-systems,acc-nic-rx-engine'' of
          Inl e \<Rightarrow> (e, s)
        | Inr _ \<Rightarrow>
        (case find_engine E ''yale-systems,acc-nic-tx-engine'' of
           Inl e \<Rightarrow> (e, s)
         | Inr _ \<Rightarrow>
         (case find_engine E ''yale-systems,acc-nic-udp-rx-engine'' of
            Inl e \<Rightarrow> (e, s)
          | Inr regs_udp_rx \<Rightarrow>
          (let s = s\<lparr>hw_regs_udp_rx_phys := res_start regs_udp_rx,
                     hw_regs_udp_rx_size := res_size regs_udp_rx\<rparr>
           in case find_engine E ''yale-systems,acc-nic-udp-tx-engine'' of
             Inl e \<Rightarrow> (e, s)
           | Inr regs_udp_tx \<Rightarrow>
             (0, s\<lparr>hw_regs_udp_tx_phys := res_start regs_udp_tx,
                   hw_regs_udp_tx_size := res_size regs_udp_tx\<rparr>)))))))"

definition accnet_parse_irq :: "probe_env \<Rightarrow> 'd nic \<Rightarrow> int \<times> 'd nic" where
  "accnet_parse_irq E s =
     (let s = s\<lparr>tx_irq := irq_of_parse_and_map E 0\<rparr>
      in if tx_irq s = 0 then (- EINVAL, s)
      else
        (let err = devm_request_irq E (tx_irq s);
             s = kcall_log (K_request_irq (tx_irq s)) s
         in if err \<noteq> 0 then (err, s)
         else
           (let s = s\<lparr>rx_irq := irq_of_parse_and_map E 1\<rparr>
            in if rx_irq s = 0 then (- EINVAL, s)
            else
              (let err = devm_request_irq E (rx_irq s);
                   s = kcall_log (K_request_irq (rx_irq s)) s
               in if err \<noteq> 0 then (err, s) else (0, s)))))"

section \<open>Addresses and the UDP engines\<close>

text \<open>\<open>dev_addr_set\<close> copies \<open>addr_len\<close> bytes of the integer, lowest first.\<close>

definition macaddr :: u64 where
  "macaddr = 0xe24d06350a00"

definition accnet_init_mac_address :: "'d nic \<Rightarrow> 'd nic" where
  "accnet_init_mac_address s =
     kcall_log (K_dev_addr_set (map (le_byte macaddr) [0..<MACADDR_BYTES])) s"

definition init_udp_ring :: "'d device \<Rightarrow> nat \<Rightarrow> 'd \<Rightarrow> 'd" where
  "init_udp_ring D i h =
     (let h = iowrite32 D R_UDP_RX (ACCNET_UDP_RX_RING_HEAD (int i)) 0 h;
          h = iowrite32 D R_UDP_RX (ACCNET_UDP_RX_RING_TAIL (int i)) 0 h;
          h = iowrite32 D R_UDP_TX (ACCNET_UDP_TX_RING_HEAD (int i)) 0 h
      in iowrite32 D R_UDP_TX (ACCNET_UDP_TX_RING_TAIL (int i)) 0 h)"

definition init_udp_engine :: "'d device \<Rightarrow> 'd nic \<Rightarrow> 'd nic" where
  "init_udp_engine D s =
     (let h = fold (init_udp_ring D) [0..<ACCNET_UDP_RING_COUNT] (hw s);
          h = iowrite16 D R_UDP_TX ACCNET_UDP_TX_MTU 1472 h;
          h = iowrite64 D R_UDP_TX ACCNET_UDP_TX_HDR_MAC_SRC 0x112233445566 h;
          h = iowrite64 D R_UDP_TX ACCNET_UDP_TX_HDR_MAC_DST 0x887766554433 h;
          h = iowrite8 D R_UDP_TX ACCNET_UDP_TX_HDR_IP_TOS 0 h;
          h = iowrite8 D R_UDP_TX ACCNET_UDP_TX_HDR_IP_TTL 64 h;
          h = iowrite16 D R_UDP_TX ACCNET_UDP_TX_HDR_IP_ID 0 h
      in s\<lparr>hw := h\<rparr>)"

section \<open>Probe and remove\<close>

text \<open>
  \<open>s\<close> is the zeroed private memory of the new \<open>ndev\<close>; \<open>probe_ndev\<close> is what the probe
  function does between the allocation and the first step that can fail. The interface
  name and the locks are not part of the state.
\<close>

definition probe_ndev :: "'d nic \<Rightarrow> 'd nic" where
  "probe_ndev s =
     (let s = s\<lparr>magic := MAGIC_CHAR\<rparr>;
          s = kcall_log K_netif_napi_add s;
          s = kcall_log K_ether_setup s;
          s = kcall_log (K_ndev_config CONFIG_ACCNET_MTU) s
      in s\<lparr>send_cq := sk_buff_cq_init (send_cq s), recv_cq := sk_buff_cq_init (recv_cq s)\<rparr>)"

definition accnet_probe :: "probe_env \<Rightarrow> 'd device \<Rightarrow> 'd nic \<Rightarrow> int \<times> 'd nic" where
  "accnet_probe E D s =
     (if \<not> has_of_node E then (- ENODEV, s)
      else if \<not> alloc_etherdev E then (- ENOMEM, s)
      else
        (case accnet_parse_addr E (probe_ndev s) of (ret, s) \<Rightarrow>
         if ret < 0 then (ret, s)
         else
           (let s = accnet_init_mac_address s;
                ret = register_netdev E;
                s = kcall_log K_register_netdev s
            in if ret < 0 then (ret, s)
            else
              (case accnet_parse_irq E s of (ret, s) \<Rightarrow>
               if ret < 0 then (ret, s)
               else
                 (let ret = misc_register E;
                      s = kcall_log K_misc_register s
                  in if ret \<noteq> 0 then (ret, s) else (0, init_udp_engine D s))))))"

definition accnet_remove :: "'d device \<Rightarrow> 'd nic option \<Rightarrow> int \<times> 'd nic option" where
  "accnet_remove D ndev =
     (case ndev of
        None \<Rightarrow> (0, None)
      | Some s \<Rightarrow>
          (let s = kcall_log K_misc_deregister s;
               s = kcall_log K_unregister_netdev s;
               s = kcall_log K_netif_napi_del s
           in (0, Some (clear_intmask D ACCNET_INTMASK_BOTH s))))"

section \<open>What the UDP engines hold after initialisation\<close>

definition udp_ring_writes :: "nat \<Rightarrow> wr list" where
  "udp_ring_writes i =
     [(R_UDP_RX, 4, ACCNET_UDP_RX_RING_HEAD (int i), 0), (R_UDP_RX, 4, ACCNET_UDP_RX_RING_TAIL (int i), 0),
      (R_UDP_TX, 4, ACCNET_UDP_TX_RING_HEAD (int i), 0), (R_UDP_TX, 4, ACCNET_UDP_TX_RING_TAIL (int i), 0)]"

definition udp_hdr_writes :: "wr list" where
  "udp_hdr_writes =
     [(R_UDP_TX, 2, ACCNET_UDP_TX_MTU, 1472), (R_UDP_TX, 8, ACCNET_UDP_TX_HDR_MAC_SRC, 0x112233445566),
      (R_UDP_TX, 8, ACCNET_UDP_TX_HDR_MAC_DST, 0x887766554433), (R_UDP_TX, 1, ACCNET_UDP_TX_HDR_IP_TOS, 0),
      (R_UDP_TX, 1, ACCNET_UDP_TX_HDR_IP_TTL, 64), (R_UDP_TX, 2, ACCNET_UDP_TX_HDR_IP_ID, 0)]"

definition udp_writes :: "wr list" where
  "udp_writes = concat (map udp_ring_writes [0..<ACCNET_UDP_RING_COUNT]) @ udp_hdr_writes"

lemma init_udp_engine_writes: "init_udp_engine D s = s\<lparr>hw := fold (do_write D) udp_writes (hw s)\<rparr>"
proof -
  have "init_udp_ring D = fold (do_write D) \<circ> udp_ring_writes"
    by (simp add: fun_eq_iff init_udp_ring_def udp_ring_writes_def iowrite32_def)
  then have "fold (init_udp_ring D) is = fold (do_write D) (concat (map udp_ring_writes is))" for "is"
    by (induction "is") simp_all
  then show ?thesis
    by (simp add: init_udp_engine_def udp_writes_def udp_hdr_writes_def iowrite8_def iowrite16_def iowrite64_def)
qed

text \<open>The bytes of the two engines that are neither status nor interrupt registers.\<close>

definition udp_storage :: "(region \<times> nat) set" where
  "udp_storage = {R_UDP_RX} \<times> {..<0x400} \<union> {R_UDP_TX} \<times> {..<0x430}"

lemma unat_ring_regs:
  assumes "i < 64"
  shows "unat (ACCNET_UDP_RX_RING_HEAD (int i)) = i * 0x20"
    and "unat (ACCNET_UDP_RX_RING_TAIL (int i)) = i * 0x20 + 4"
    and "unat (ACCNET_UDP_TX_RING_HEAD (int i)) = i * 0x10"
    and "unat (ACCNET_UDP_TX_RING_TAIL (int i)) = i * 0x10 + 4"
  using assms
  by (simp_all add: ACCNET_UDP_RX_RING_HEAD_def ACCNET_UDP_RX_RING_TAIL_def
      ACCNET_UDP_TX_RING_HEAD_def ACCNET_UDP_TX_RING_TAIL_def unat_rx_ring_reg unat_tx_ring_reg)

lemma unat_tx_hdr:
  "unat ACCNET_UDP_TX_MTU = 0x400" "unat ACCNET_UDP_TX_HDR_MAC_DST = 0x408"
  "unat ACCNET_UDP_TX_HDR_MAC_SRC = 0x410" "unat ACCNET_UDP_TX_HDR_IP_TOS = 0x420"
  "unat ACCNET_UDP_TX_HDR_IP_TTL = 0x424" "unat ACCNET_UDP_TX_HDR_IP_ID = 0x428"
  by (simp_all add: reg_offsets)

lemma span_udp_storage:
  "unat off + n \<le> 0x400 \<Longrightarrow> span R_UDP_RX off n \<subseteq> udp_storage"
  "0x400 \<le> unat off \<Longrightarrow> span R_UDP_RX off n \<inter> udp_storage = {}"
  "unat off + n \<le> 0x430 \<Longrightarrow> span R_UDP_TX off n \<subseteq> udp_storage"
  by (force simp: span_def udp_storage_def)+

lemma udp_writes_cases:
  assumes "w \<in> set udp_writes"
  obtains i where "i < 64" "w \<in> set (udp_ring_writes i)"
  | "w \<in> set udp_hdr_writes"
proof -
  from assms have "(\<exists>i. i \<in> {0..<64} \<and> w \<in> set (udp_ring_writes i)) \<or> w \<in> set udp_hdr_writes"
    unfolding udp_writes_def set_append set_concat set_map set_upt ACCNET_UDP_RING_COUNT_def by blast
  then show ?thesis using that unfolding atLeastLessThan_iff by blast
qed

lemma ring_writes_in:
  assumes "i < 64"
  shows "set (udp_ring_writes i) \<subseteq> set udp_writes"
proof -
  from assms have "i \<in> {0..<64}" by simp
  then show ?thesis
    unfolding udp_writes_def set_append set_concat set_map set_upt ACCNET_UDP_RING_COUNT_def by blast
qed

lemma udp_writes_in: "\<forall>w\<in>set udp_writes. wr_in udp_storage w"
proof
  fix w
  assume "w \<in> set udp_writes"
  then show "wr_in udp_storage w"
  proof (cases rule: udp_writes_cases)
    case (1 i)
    then show ?thesis
      by (cases "i < 32") (auto simp: udp_ring_writes_def span_udp_storage unat_ring_regs)
  qed (auto simp: udp_hdr_writes_def span_udp_storage unat_tx_hdr)
qed

lemma ring_stride:
  fixes i j :: nat
  assumes "i \<noteq> j"
  shows "i * 0x20 + 8 \<le> j * 0x20 \<or> j * 0x20 + 8 \<le> i * 0x20"
    and "i * 0x10 + 8 \<le> j * 0x10 \<or> j * 0x10 + 8 \<le> i * 0x10"
  using assms by linarith+

lemma udp_rings_apart:
  assumes "w \<in> set (udp_ring_writes j)" and "(r, 4, off, v) \<in> set (udp_ring_writes i)" and "i < 64" "j < 64"
  shows "w = (r, 4, off, v) \<or> apart w r off 4"
proof (cases "i = j")
  case True
  with assms show ?thesis by (auto simp: udp_ring_writes_def unat_ring_regs)
next
  case False
  from ring_stride [OF this] assms(1,2) unat_ring_regs [OF assms(3)] unat_ring_regs [OF assms(4)] show ?thesis
    by (auto simp: udp_ring_writes_def)
qed

lemma udp_writes_apart:
  assumes "w \<in> set udp_writes" and "(r, n, off, v) \<in> set udp_writes"
  shows "w = (r, n, off, v) \<or> apart w r off n"
  using assms(1)
proof (cases rule: udp_writes_cases)
  case (1 j)
  note w = this
  from assms(2) show ?thesis
  proof (cases rule: udp_writes_cases)
    case (1 i)
    then have "n = 4" by (auto simp: udp_ring_writes_def)
    with 1 w udp_rings_apart [of w j r off v i] show ?thesis by simp
  next
    case 2
    with w show ?thesis by (auto simp: udp_ring_writes_def udp_hdr_writes_def unat_ring_regs unat_tx_hdr)
  qed
next
  case 2
  note w = this
  from assms(2) show ?thesis
  proof (cases rule: udp_writes_cases)
    case (1 i)
    with w show ?thesis by (auto simp: udp_ring_writes_def udp_hdr_writes_def unat_ring_regs unat_tx_hdr)
  next
    case 2
    with w show ?thesis by (auto simp: udp_hdr_writes_def unat_tx_hdr)
  qed
qed

text \<open>
  After \<open>init_udp_engine\<close> every register it writes holds what was written
  to it, although the registers share one address space: the head and tail pointers of
  all 64 transmit rings and of the first 32 receive rings are zero and the header
  registers hold the MTU, the MAC addresses, TOS, TTL and ID. The pointers of the
  receive rings from 32 on lie in the interrupt registers of the engine.
\<close>

lemma init_udp_engine_regs:
  assumes "storage_device D udp_storage peek"
  shows "(\<forall>i<64. reg_val peek (hw (init_udp_engine D s)) R_UDP_TX (ACCNET_UDP_TX_RING_HEAD (int i)) 4 = 0
        \<and> reg_val peek (hw (init_udp_engine D s)) R_UDP_TX (ACCNET_UDP_TX_RING_TAIL (int i)) 4 = 0)
    \<and> (\<forall>i<32. reg_val peek (hw (init_udp_engine D s)) R_UDP_RX (ACCNET_UDP_RX_RING_HEAD (int i)) 4 = 0
        \<and> reg_val peek (hw (init_udp_engine D s)) R_UDP_RX (ACCNET_UDP_RX_RING_TAIL (int i)) 4 = 0)
    \<and> reg_val peek (hw (init_udp_engine D s)) R_UDP_TX ACCNET_UDP_TX_MTU 2 = 1472
    \<and> reg_val peek (hw (init_udp_engine D s)) R_UDP_TX ACCNET_UDP_TX_HDR_MAC_SRC 8 = 0x112233445566
    \<and> reg_val peek (hw (init_udp_engine D s)) R_UDP_TX ACCNET_UDP_TX_HDR_MAC_DST 8 = 0x887766554433
    \<and> reg_val peek (hw (init_udp_engine D s)) R_UDP_TX ACCNET_UDP_TX_HDR_IP_TTL 1 = 64"
proof -
  have val: "reg_val peek (hw (init_udp_engine D s)) r off n = take_bit (8 * n) v"
    if "(r, n, off, v) \<in> set udp_writes" "span r off n \<subseteq> udp_storage" for r n off v
    unfolding init_udp_engine_writes
    using storage_device.reg_val_writes [OF assms that(2,1)] udp_writes_in udp_writes_apart that(1)
    by simp
  have ring: "(R_UDP_TX, 4, ACCNET_UDP_TX_RING_HEAD (int i), 0) \<in> set udp_writes"
    "(R_UDP_TX, 4, ACCNET_UDP_TX_RING_TAIL (int i), 0) \<in> set udp_writes"
    "(R_UDP_RX, 4, ACCNET_UDP_RX_RING_HEAD (int i), 0) \<in> set udp_writes"
    "(R_UDP_RX, 4, ACCNET_UDP_RX_RING_TAIL (int i), 0) \<in> set udp_writes" if "i < 64" for i
    using ring_writes_in [OF that] by (auto simp: udp_ring_writes_def)
  have hdr: "set udp_hdr_writes \<subseteq> set udp_writes" by (simp add: udp_writes_def)
  show ?thesis
    using val [OF ring(1)] val [OF ring(2)] val [OF ring(3)] val [OF ring(4)]
      val [of R_UDP_TX 2 ACCNET_UDP_TX_MTU 1472] val [of R_UDP_TX 8 ACCNET_UDP_TX_HDR_MAC_SRC "0x112233445566"]
      val [of R_UDP_TX 8 ACCNET_UDP_TX_HDR_MAC_DST "0x887766554433"] val [of R_UDP_TX 1 ACCNET_UDP_TX_HDR_IP_TTL 64] hdr
    by (simp add: udp_hdr_writes_def span_udp_storage unat_ring_regs unat_tx_hdr)
qed

lemma init_udp_engine_regs_witness:
  "reg_val (\<lambda>m (r, a). m r a) (hw (init_udp_engine ram_device (demo_nic [] [] [])))
     R_UDP_TX ACCNET_UDP_TX_MTU 2 = 1472"
  using init_udp_engine_regs [OF ram_storage, of "demo_nic [] [] []"] by blast


section \<open>What the probe function does\<close>

definition engine_names :: "string list" where
  "engine_names = [''yale-systems,acc-nic-rx-engine'', ''yale-systems,acc-nic-tx-engine'',
     ''yale-systems,acc-nic-udp-rx-engine'', ''yale-systems,acc-nic-udp-tx-engine'']"

text \<open>The documented convention for errors: zero or a negative errno value.\<close>

definition errno_env :: "probe_env \<Rightarrow> bool" where
  "errno_env E \<longleftrightarrow> (\<forall>n. fst (of_address_to_resource E n) \<le> 0)
     \<and> (\<forall>r e. devm_ioremap_resource E r = Some e \<longrightarrow> e < 0)
     \<and> (\<forall>i. devm_request_irq E i \<le> 0) \<and> register_netdev E \<le> 0 \<and> misc_register E \<le> 0"

definition addr_ok :: "probe_env \<Rightarrow> bool" where
  "addr_ok E \<longleftrightarrow> fst (of_address_to_resource E Dev_node) = 0
     \<and> devm_ioremap_resource E (snd (of_address_to_resource E Dev_node)) = None
     \<and> list_all (\<lambda>name. \<exists>r. find_engine E name = Inr r) engine_names"

definition irq_ok :: "probe_env \<Rightarrow> bool" where
  "irq_ok E \<longleftrightarrow> irq_of_parse_and_map E 0 \<noteq> 0 \<and> devm_request_irq E (irq_of_parse_and_map E 0) = 0
     \<and> irq_of_parse_and_map E 1 \<noteq> 0 \<and> devm_request_irq E (irq_of_parse_and_map E 1) = 0"

lemma find_engine_neg: "errno_env E \<Longrightarrow> find_engine E n = Inl e \<Longrightarrow> e < 0"
  by (auto simp: errno_env_def find_engine_def case_prod_beta split: if_splits option.splits)

lemma parse_addr_fst:
  assumes "errno_env E"
  shows "fst (accnet_parse_addr E s) \<le> 0 \<and> (fst (accnet_parse_addr E s) = 0 \<longleftrightarrow> addr_ok E)"
proof -
  obtain err regs where reg: "of_address_to_resource E Dev_node = (err, regs)" by force
  have err: "err \<le> 0" using assms reg by (auto simp: errno_env_def dest: spec [of _ Dev_node])
  have map: "e < 0" if "devm_ioremap_resource E regs = Some e" for e
    using assms that by (auto simp: errno_env_def)
  define e1 e2 e3 e4 where e: "e1 = find_engine E ''yale-systems,acc-nic-rx-engine''"
    "e2 = find_engine E ''yale-systems,acc-nic-tx-engine''"
    "e3 = find_engine E ''yale-systems,acc-nic-udp-rx-engine''"
    "e4 = find_engine E ''yale-systems,acc-nic-udp-tx-engine''"
  have neg: "x < 0" if "e1 = Inl x \<or> e2 = Inl x \<or> e3 = Inl x \<or> e4 = Inl x" for x
    using that find_engine_neg [OF assms] unfolding e by blast
  have ok: "addr_ok E \<longleftrightarrow> err = 0 \<and> devm_ioremap_resource E regs = None
      \<and> (\<exists>r. e1 = Inr r) \<and> (\<exists>r. e2 = Inr r) \<and> (\<exists>r. e3 = Inr r) \<and> (\<exists>r. e4 = Inr r)"
    unfolding addr_ok_def reg engine_names_def list.pred_inject e [symmetric] by simp
  have eq: "fst (accnet_parse_addr E s) =
    (if err \<noteq> 0 then err else case devm_ioremap_resource E regs of Some x \<Rightarrow> x | None \<Rightarrow>
      (case e1 of Inl x \<Rightarrow> x | Inr _ \<Rightarrow> (case e2 of Inl x \<Rightarrow> x | Inr _ \<Rightarrow>
      (case e3 of Inl x \<Rightarrow> x | Inr _ \<Rightarrow> (case e4 of Inl x \<Rightarrow> x | Inr _ \<Rightarrow> 0)))))"
    unfolding accnet_parse_addr_def reg Let_def e [symmetric]
    by (simp split: option.split sum.split)
  show ?thesis unfolding eq ok
    using err map neg by (cases e1; cases e2; cases e3; cases e4) (auto split: option.split intro: less_imp_le)
qed

lemma parse_irq_fst:
  assumes "errno_env E"
  shows "fst (accnet_parse_irq E s) \<le> 0 \<and> (fst (accnet_parse_irq E s) = 0 \<longleftrightarrow> irq_ok E)"
  using assms by (auto simp: accnet_parse_irq_def irq_ok_def Let_def errno_env_def kcall_log_def)

lemma parse_addr_frame:
  "klog (snd (accnet_parse_addr E s)) = klog s" "send_cq (snd (accnet_parse_addr E s)) = send_cq s"
  "recv_cq (snd (accnet_parse_addr E s)) = recv_cq s" "magic (snd (accnet_parse_addr E s)) = magic s"
  unfolding accnet_parse_addr_def Let_def case_prod_beta
  by (simp_all split: option.split sum.split)

lemma parse_irq_frame:
  "send_cq (snd (accnet_parse_irq E s)) = send_cq s" "recv_cq (snd (accnet_parse_irq E s)) = recv_cq s"
  "magic (snd (accnet_parse_irq E s)) = magic s"
  "\<exists>w. klog (snd (accnet_parse_irq E s)) = klog s @ map K_request_irq w"
  by (auto simp: accnet_parse_irq_def Let_def kcall_log_def
      intro: exI [of _ "[]"] exI [of _ "[x]" for x] exI [of _ "[x, y]" for x y])

text \<open>The state in which the probe function asks for the interrupt lines.\<close>

definition probe_registered :: "probe_env \<Rightarrow> 'd nic \<Rightarrow> 'd nic" where
  "probe_registered E s = kcall_log K_register_netdev
     (accnet_init_mac_address (snd (accnet_parse_addr E (probe_ndev s))))"

lemma accnet_probe_early:
  "\<not> has_of_node E \<Longrightarrow> accnet_probe E D s = (- ENODEV, s)"
  "has_of_node E \<Longrightarrow> \<not> alloc_etherdev E \<Longrightarrow> accnet_probe E D s = (- ENOMEM, s)"
  by (simp_all add: accnet_probe_def)

lemma accnet_probe_eq:
  fixes E :: probe_env and s :: "'d nic"
  defines "sa \<equiv> snd (accnet_parse_irq E (probe_registered E s))"
  assumes "has_of_node E" and "alloc_etherdev E"
  shows "accnet_probe E D s =
    (if fst (accnet_parse_addr E (probe_ndev s)) < 0 then accnet_parse_addr E (probe_ndev s)
     else if register_netdev E < 0 then (register_netdev E, probe_registered E s)
     else if fst (accnet_parse_irq E (probe_registered E s)) < 0
       then accnet_parse_irq E (probe_registered E s)
     else if misc_register E \<noteq> 0 then (misc_register E, kcall_log K_misc_register sa)
     else (0, init_udp_engine D (kcall_log K_misc_register sa)))"
  using assms(2,3) unfolding accnet_probe_def Let_def case_prod_beta sa_def probe_registered_def
  by (simp only: not_True_eq_False if_False fst_conv snd_conv prod.collapse)

text \<open>The private memory of a new \<open>ndev\<close> is zeroed.\<close>

definition zero_nic :: "'d \<Rightarrow> 'd nic" where
  "zero_nic h = \<lparr>hw = h, klog = [], send_cq = fresh_cq, recv_cq = fresh_cq, tx_irq = 0, rx_irq = 0,
     tx_packets = 0, tx_bytes = 0, tx_dropped = 0, rx_packets = 0, rx_bytes = 0,
     hw_regs_control_size = 0, hw_regs_control_phys = 0, hw_regs_udp_tx_size = 0,
     hw_regs_udp_tx_phys = 0, hw_regs_udp_rx_size = 0, hw_regs_udp_rx_phys = 0, magic = 0\<rparr>"

text \<open>A platform on which every step of the probe function succeeds.\<close>

definition demo_env :: probe_env where
  "demo_env = \<lparr>has_of_node = True, alloc_etherdev = True,
     of_address_to_resource = (\<lambda>n. (0, \<lparr>res_start = 0x60000000, res_size = 0x1000\<rparr>)),
     of_find_compatible_node = (\<lambda>n. True), devm_ioremap_resource = (\<lambda>r. None),
     irq_of_parse_and_map = (\<lambda>i. int i + 5), devm_request_irq = (\<lambda>i. 0),
     register_netdev = 0, misc_register = 0\<rparr>"

lemma demo_env_ok [simp]: "errno_env demo_env" "addr_ok demo_env" "irq_ok demo_env"
  "has_of_node demo_env" "alloc_etherdev demo_env" "register_netdev demo_env = 0"
  "misc_register demo_env = 0"
  by (simp_all add: errno_env_def addr_ok_def irq_ok_def demo_env_def find_engine_def list_all_iff)

lemmas demo_env_parse =
  parse_addr_fst [OF demo_env_ok(1), THEN conjunct2, THEN iffD2, OF demo_env_ok(2)]
  parse_irq_fst [OF demo_env_ok(1), THEN conjunct2, THEN iffD2, OF demo_env_ok(3)]




lemma probe_registered_frame:
  "klog (probe_registered E s) = klog s @ [K_netif_napi_add, K_ether_setup,
     K_ndev_config CONFIG_ACCNET_MTU, K_dev_addr_set (map (le_byte macaddr) [0..<MACADDR_BYTES]),
     K_register_netdev]"
  "send_cq (probe_registered E s) = sk_buff_cq_init (send_cq s)"
  "recv_cq (probe_registered E s) = sk_buff_cq_init (recv_cq s)"
  "magic (probe_registered E s) = MAGIC_CHAR"
  by (simp_all add: probe_registered_def accnet_init_mac_address_def kcall_log_def parse_addr_frame
      probe_ndev_def del: upt_Suc)

lemma init_fresh: "sk_buff_cq_init fresh_cq = fresh_cq"
  by (simp add: fresh_cq_def sk_buff_cq_init_def)

text \<open>
  Property C35. A successful probe leaves a device on which the invariants of the data
  path hold: both rings are well formed and empty, the ledger of transmitted buffers
  balances, the magic number that the misc device checks is set, and the kernel was told
  of the MAC address before the interface was registered.
\<close>

theorem accnet_probe_establishes:
  assumes "accnet_probe E D (zero_nic h) = (0, s')" and "has_of_node E" and "alloc_etherdev E"
    and "errno_env E"
  shows "nic_wf s' \<and> cq_list (send_cq s') = [] \<and> cq_list (recv_cq s') = [] \<and> tx_ledger s'
    \<and> magic s' = MAGIC_CHAR
    \<and> (\<exists>irqs. klog s' = [K_netif_napi_add, K_ether_setup, K_ndev_config 1500,
         K_dev_addr_set (map (le_byte macaddr) [0..<MACADDR_BYTES]), K_register_netdev]
         @ map K_request_irq irqs @ [K_misc_register])"
proof -
  let ?s = "probe_registered E (zero_nic h)"
  have "misc_register E = 0 \<and> s' = init_udp_engine D (kcall_log K_misc_register
      (snd (accnet_parse_irq E ?s)))"
    using assms(1) unfolding accnet_probe_eq [OF assms(2,3)] by (auto split: if_splits)
  then have s': "s' = init_udp_engine D (kcall_log K_misc_register (snd (accnet_parse_irq E ?s)))"
    by blast
  obtain irqs where "klog (snd (accnet_parse_irq E ?s)) = klog ?s @ map K_request_irq irqs"
    using parse_irq_frame(4) by blast
  then have log: "klog s' = [K_netif_napi_add, K_ether_setup, K_ndev_config 1500,
         K_dev_addr_set (map (le_byte macaddr) [0..<MACADDR_BYTES]), K_register_netdev]
         @ map K_request_irq irqs @ [K_misc_register]"
    unfolding s' init_udp_engine_writes
    by (simp add: kcall_log_def probe_registered_frame zero_nic_def CONFIG_ACCNET_MTU_def del: upt_Suc)
  have cq: "send_cq s' = fresh_cq" "recv_cq s' = fresh_cq" "magic s' = MAGIC_CHAR"
    unfolding s' init_udp_engine_writes
    by (simp_all add: kcall_log_def parse_irq_frame probe_registered_frame zero_nic_def init_fresh)
  have "accepted (map K_request_irq irqs) = []" "consumed (map K_request_irq irqs) = []"
    by (induction irqs) simp_all
  then have "tx_ledger s'" unfolding tx_ledger_def log cq by (simp del: upt_Suc)
  with cq log show ?thesis by (simp add: nic_wf_def del: upt_Suc) blast
qed

theorem accnet_probe_establishes_witness:
  "nic_wf (snd (accnet_probe demo_env ram_device (zero_nic (\<lambda>r a. 0))))"
proof -
  have "fst (accnet_probe demo_env ram_device (zero_nic (\<lambda>r a. 0))) = 0"
    by (simp add: accnet_probe_eq demo_env_parse)
  then show ?thesis
    using accnet_probe_establishes [of demo_env ram_device "\<lambda>r a. 0"] by (metis demo_env_ok prod.collapse)
qed

text \<open>
  The error paths after \<open>register_netdev\<close> leave the interface behind: when
  an interrupt line or the misc device cannot be had, the probe function returns a
  negative value with the network device registered and never unregistered.
\<close>

lemma accnet_probe_leaks_netdev:
  assumes "errno_env E" and "has_of_node E" and "alloc_etherdev E" and "addr_ok E"
    and "register_netdev E = 0" and "\<not> irq_ok E \<or> misc_register E \<noteq> 0"
    and "K_unregister_netdev \<notin> set (klog s)"
  shows "fst (accnet_probe E D s) < 0
    \<and> K_register_netdev \<in> set (klog (snd (accnet_probe E D s)))
    \<and> K_unregister_netdev \<notin> set (klog (snd (accnet_probe E D s)))"
proof -
  let ?s = "probe_registered E s"
  obtain irqs where irqs: "klog (snd (accnet_parse_irq E ?s)) = klog ?s @ map K_request_irq irqs"
    using parse_irq_frame(4) by blast
  have "fst (accnet_parse_irq E ?s) \<le> 0" "fst (accnet_parse_irq E ?s) = 0 \<longleftrightarrow> irq_ok E"
    using parse_irq_fst [OF assms(1)] by blast+
  moreover have "misc_register E \<le> 0" using assms(1) by (simp add: errno_env_def)
  ultimately show ?thesis
    using parse_addr_fst [OF assms(1), of "probe_ndev s"] assms(4-7) irqs
    by (auto simp: accnet_probe_eq [OF assms(2,3)] kcall_log_def probe_registered_frame simp del: upt_Suc)
qed

lemma accnet_probe_leaks_netdev_witness:
  "fst (accnet_probe (demo_env\<lparr>misc_register := -16\<rparr>) ram_device (zero_nic (\<lambda>r a. 0))) < 0
   \<and> K_register_netdev \<in> set (klog (snd (accnet_probe (demo_env\<lparr>misc_register := -16\<rparr>) ram_device
       (zero_nic (\<lambda>r a. 0)))))"
proof -
  let ?E = "demo_env\<lparr>misc_register := -16\<rparr>"
  have "errno_env ?E" "addr_ok ?E"
    by (simp_all add: errno_env_def addr_ok_def find_engine_def demo_env_def list_all_iff)
  then show ?thesis
    using accnet_probe_leaks_netdev [of ?E "zero_nic (\<lambda>r a. 0)" ram_device] by (simp add: zero_nic_def)
qed

text \<open>
  The address given to the kernel is the one the comment in the source
  names, 00:0a:35:06:4d:e2, and it is a valid station address: not a multicast address
  and not zero.
\<close>

lemma accnet_mac_address:
  "klog (accnet_init_mac_address s) = klog s @ [K_dev_addr_set [0x00, 0x0a, 0x35, 0x06, 0x4d, 0xe2]]
   \<and> \<not> bit (le_byte macaddr 0) 0 \<and> list_ex (\<lambda>i. le_byte macaddr i \<noteq> 0) [0..<MACADDR_BYTES]"
proof -
  have "[0..<MACADDR_BYTES] = [0, 1, 2, 3, 4, 5]" by code_simp
  then show ?thesis
    by (simp add: accnet_init_mac_address_def kcall_log_def le_byte_def macaddr_def drop_bit_eq_div)
qed

end
