(* ===== verification/Misc_Api.thy ===== *)
theory Misc_Api
  imports Mmio
begin

text \<open>
  What the two misc devices, accnet-misc and iocache-misc, share with user space: the
  encoding of ioctl commands, the argument structures of accnet_ioctl.h and
  iocache_ioctl.h, which have the same layout, and the vm_area of an mmap call.
\<close>

section \<open>ioctl commands\<close>

text \<open>
  The encoding of asm-generic/ioctl.h, which RISC-V uses: direction, size of the
  argument, type and number. The direction is 0 for \<open>_IO\<close>, 1 for \<open>_IOW\<close> and 2 for
  \<open>_IOR\<close>.
\<close>

definition IOC :: "u32 \<Rightarrow> u32 \<Rightarrow> u32 \<Rightarrow> u32 \<Rightarrow> u32" where
  "IOC dir type nr sz =
     push_bit 30 dir OR push_bit 16 sz OR push_bit 8 type OR nr"

abbreviation "IO type nr \<equiv> IOC 0 type nr 0"
abbreviation "IOW type nr sz \<equiv> IOC 1 type nr sz"
abbreviation "IOR type nr sz \<equiv> IOC 2 type nr sz"

section \<open>Argument structures\<close>

record ioctl_device_info =
  di_argsz :: u32
  di_flags :: u32
  di_fw_id :: u32
  di_fw_ver :: u32
  di_board_id :: u32
  di_board_ver :: u32
  di_build_date :: u32
  di_git_hash :: u32
  di_rel_info :: u32
  di_num_regions :: u32
  di_num_irqs :: u32

record ioctl_region_info =
  ri_argsz :: u32
  ri_flags :: u32
  ri_index :: u32
  ri_type :: u32
  ri_next :: u32
  ri_child :: u32
  ri_size :: u64
  ri_offset :: u64
  ri_name :: string

text \<open>\<open>offsetofend(..., num_irqs)\<close> and \<open>offsetofend(..., name)\<close> of these layouts.\<close>

definition device_info_minsz :: u32 where "device_info_minsz = 11 * 4"
definition region_info_minsz :: u32 where "region_info_minsz = 6 * 4 + 2 * 8 + 32"

text \<open>
  The copies between user space and the kernel. The caller's memory is the parameter: what
  \<open>copy_from_user\<close> reads there as the type the command expects, None where it faults,
  and whether \<open>copy_to_user\<close> succeeds.
\<close>

record user_copy =
  from_device_info :: "ioctl_device_info option"
  from_region_info :: "ioctl_region_info option"
  from_int :: "int option"
  to_user_ok :: bool

datatype ioctl_out =
    Out_nothing
  | Out_device_info ioctl_device_info
  | Out_region_info ioctl_region_info
  | Out_u64s "u64 list"
  | Out_int int

text \<open>\<open>return copy_to_user(...) ? -EFAULT : 0\<close>.\<close>

definition copy_out :: "user_copy \<Rightarrow> ioctl_out \<Rightarrow> int \<times> ioctl_out" where
  "copy_out U v = (if to_user_ok U then (0, v) else (- EFAULT, Out_nothing))"

text \<open>\<open>GET_DEVICE_INFO\<close>, which both drivers answer with the same constants.\<close>

definition fill_device_info :: "ioctl_device_info \<Rightarrow> ioctl_device_info" where
  "fill_device_info info = info\<lparr>di_flags := 0, di_fw_id := 11, di_fw_ver := 12, di_board_id := 13,
     di_board_ver := 14, di_build_date := 15, di_git_hash := 16, di_rel_info := 17,
     di_num_regions := 1, di_num_irqs := 0\<rparr>"

text \<open>
  The fields \<open>GET_REGION_INFO\<close> sets before it looks at the index. \<open>name[0] = 0\<close> makes the
  name the empty string.
\<close>

definition clear_region_info :: "ioctl_region_info \<Rightarrow> ioctl_region_info" where
  "clear_region_info info = info\<lparr>ri_flags := 0, ri_type := 0, ri_next := 0, ri_child := 0,
     ri_size := 0, ri_offset := push_bit 40 (ucast (ri_index info)), ri_name := []\<rparr>"

section \<open>mmap\<close>

definition PAGE_SHIFT :: nat where "PAGE_SHIFT = 12"
definition VM_SHARED :: u64 where "VM_SHARED = 0x8"

record vm_area =
  vm_start :: u64
  vm_end :: u64
  vm_pgoff :: u64
  vm_flags :: u64

text \<open>
  What a mmap handler asks the kernel to map: pages of physical memory, from a page frame
  on, or a coherent DMA buffer. The handler returns the kernel's result.
\<close>

datatype map_req =
    Remap_pfn u64 u64 u64       \<comment> \<open>\<open>io_remap_pfn_range\<close>: address, frame, length\<close>
  | Mmap_coherent u64 u64 u64   \<comment> \<open>\<open>dma_mmap_coherent\<close>: kernel address, bus address, length\<close>

text \<open>
  The upper bits of the page offset select the region and are converted to an \<open>int\<close>; the
  lower 28 are the page within the region.
\<close>

definition vma_index :: "vm_area \<Rightarrow> int" where
  "vma_index vma = sint (ucast (drop_bit (40 - PAGE_SHIFT) (vm_pgoff vma)) :: u32)"

definition vma_req_len :: "vm_area \<Rightarrow> u64" where
  "vma_req_len vma = vm_end vma - vm_start vma"

definition vma_page :: "vm_area \<Rightarrow> u64" where
  "vma_page vma = vm_pgoff vma AND (push_bit (40 - PAGE_SHIFT) 1 - 1)"

definition vma_req_start :: "vm_area \<Rightarrow> u64" where
  "vma_req_start vma = push_bit PAGE_SHIFT (vma_page vma)"

text \<open>The two checks at the head of both handlers.\<close>

definition vma_bad :: "vm_area \<Rightarrow> bool" where
  "vma_bad vma \<longleftrightarrow> vm_end vma < vm_start vma \<or> vm_flags vma AND VM_SHARED = 0"

text \<open>Mapping pages of a window of registers at \<open>phys\<close>.\<close>

definition remap_window :: "vm_area \<Rightarrow> u64 \<Rightarrow> u64 \<Rightarrow> int + map_req" where
  "remap_window vma phys psize =
     (if vma_req_start vma + vma_req_len vma > psize then Inl (- EINVAL)
      else Inr (Remap_pfn (vm_start vma) (drop_bit PAGE_SHIFT phys + vma_page vma) (vma_req_len vma)))"

text \<open>The vm_area of a mapping of \<open>len\<close> bytes at file offset \<open>off\<close>.\<close>

definition vma_at :: "u64 \<Rightarrow> u64 \<Rightarrow> u64 \<Rightarrow> vm_area" where
  "vma_at start off len = \<lparr>vm_start = start, vm_end = start + len,
     vm_pgoff = drop_bit PAGE_SHIFT off, vm_flags = VM_SHARED\<rparr>"

section \<open>Lemmas\<close>

lemma vma_page_less: "unat (vma_page vma) < 2 ^ 28"
proof -
  have "vma_page vma = vm_pgoff vma AND mask 28"
    by (simp add: vma_page_def PAGE_SHIFT_def mask_eq_exp_minus_1)
  then show ?thesis by (simp del: unat_mask_and add: unat_mask_and)
qed

lemma unat_vma_req_start: "unat (vma_req_start vma) = unat (vma_page vma) * 4096"
  using vma_page_less [of vma]
  by (simp add: vma_req_start_def PAGE_SHIFT_def push_bit_eq_mult unat_word_ariths)

text \<open>
  A mapping of a window never leaves the window. The sum of the check is computed modulo
  \<open>2^64\<close>, so this needs that user addresses lie in the lower half of the address space.
\<close>

lemma remap_window_inside:
  assumes "remap_window vma phys psize = Inr (Remap_pfn a pfn len)"
    and "unat (vm_end vma) \<le> 2 ^ 63" and "vm_start vma \<le> vm_end vma"
    and "4096 dvd unat phys" and "unat phys + unat psize < 2 ^ 64"
  shows "a = vm_start vma \<and> len = vma_req_len vma
    \<and> unat pfn * 4096 = unat phys + unat (vma_req_start vma)
    \<and> unat (vma_req_start vma) + unat len \<le> unat psize"
proof -
  let ?r = "vma_req_start vma" and ?l = "vma_req_len vma" and ?p = "vma_page vma"
  from assms(1) have le: "\<not> psize < ?r + ?l" and eq: "a = vm_start vma" "len = ?l"
      "pfn = drop_bit PAGE_SHIFT phys + ?p"
    by (auto simp: remap_window_def split: if_splits)
  have "unat ?l \<le> 2 ^ 63"
    using assms(2,3) by (simp add: vma_req_len_def unat_sub word_le_nat_alt)
  moreover have r: "unat ?r < 2 ^ 40" using vma_page_less [of vma] by (simp add: unat_vma_req_start)
  ultimately have sum: "unat (?r + ?l) = unat ?r + unat ?l" by (simp add: unat_word_ariths)
  with le have in_win: "unat ?r + unat ?l \<le> unat psize" by (simp add: word_le_nat_alt not_less)
  have "unat (drop_bit PAGE_SHIFT phys) = unat phys div 4096"
    unfolding PAGE_SHIFT_def unat_drop_bit by simp
  moreover have "unat phys div 4096 < 2 ^ 52"
    using assms(5) by (intro less_mult_imp_div_less) simp
  moreover note vma_page_less [of vma]
  ultimately have "unat pfn = unat phys div 4096 + unat ?p"
    by (simp add: eq unat_word_ariths)
  with assms(4) have "unat pfn * 4096 = unat phys + unat ?r"
    by (simp add: unat_vma_req_start add_mult_distrib)
  with eq in_win show ?thesis by simp
qed

text \<open>Decoding the offset that \<open>GET_REGION_INFO\<close> and \<open>MAP_INDEX\<close> compute.\<close>

lemma vma_at_index:
  assumes "idx < 256" and "unat start + unat len < 2 ^ 64"
  shows "vma_index (vma_at start (push_bit 40 (of_nat idx)) len) = int idx"
    and "vma_page (vma_at start (push_bit 40 (of_nat idx)) len) = 0"
    and "vma_req_start (vma_at start (push_bit 40 (of_nat idx)) len) = 0"
    and "vma_req_len (vma_at start (push_bit 40 (of_nat idx)) len) = len"
    and "\<not> vma_bad (vma_at start (push_bit 40 (of_nat idx)) len)"
proof -
  have hi: "n < 8" if "bit idx n" for n
    using that assms(1) take_bit_nat_eq_self [of idx 8] bit_take_bit_iff [of 8 idx n] by simp
  have d: "drop_bit 28 (drop_bit 12 (push_bit 40 (of_nat idx :: u64))) = of_nat idx"
    by (rule bit_word_eqI) (use hi in \<open>fastforce simp: bit_simps\<close>)
  have "uint (of_nat idx :: u64) = int idx"
    using assms(1) by (simp add: unsigned_of_nat take_bit_nat_eq_self)
  then have "sint (ucast (of_nat idx :: u64) :: u32) = int idx"
    using assms(1) signed_take_bit_int_eq_self [of 31 "int idx"]
    by (simp add: sint_uint unsigned_ucast_eq take_bit_int_eq_self)
  then show "vma_index (vma_at start (push_bit 40 (of_nat idx)) len) = int idx"
    by (simp add: vma_index_def vma_at_def PAGE_SHIFT_def d [unfolded drop_bit_drop_bit, simplified])
  have m: "(0xfffffff :: u64) = mask 28" by (simp add: mask_eq_exp_minus_1)
  show pg: "vma_page (vma_at start (push_bit 40 (of_nat idx)) len) = 0"
    unfolding vma_page_def vma_at_def PAGE_SHIFT_def
    by (rule bit_word_eqI) (auto simp: bit_simps m)
  show "vma_req_start (vma_at start (push_bit 40 (of_nat idx)) len) = 0"
    by (simp add: vma_req_start_def pg)
  show "vma_req_len (vma_at start (push_bit 40 (of_nat idx)) len) = len"
    by (simp add: vma_req_len_def vma_at_def)
  show "\<not> vma_bad (vma_at start (push_bit 40 (of_nat idx)) len)"
    using assms(2) by (simp add: vma_bad_def vma_at_def VM_SHARED_def word_less_nat_alt unat_word_ariths)
qed

end
