(* ===== verification/Accnet_Misc.thy ===== *)
theory Accnet_Misc
  imports Accnet_Setup Misc_Api
begin

text \<open>
  The misc device accnet-misc (accnet_misc.c and accnet_ioctl.h): user space asks for the
  size and the offset of the three register windows of the NIC with an ioctl and maps
  them with mmap.
\<close>

section \<open>Commands\<close>

definition ACCNET_IOCTL_API_VERSION :: int where "ACCNET_IOCTL_API_VERSION = 0"
definition ACCNET_IOCTL_TYPE :: u32 where [reg_offsets]: "ACCNET_IOCTL_TYPE = 0x88"
definition ACCNET_IOCTL_BASE :: u32 where [reg_offsets]: "ACCNET_IOCTL_BASE = 0xC0"
definition ACCNET_IOCTL_GET_API_VERSION :: u32 where
  [reg_offsets]: "ACCNET_IOCTL_GET_API_VERSION = IO ACCNET_IOCTL_TYPE (ACCNET_IOCTL_BASE + 0)"
definition ACCNET_IOCTL_GET_DEVICE_INFO :: u32 where
  [reg_offsets]: "ACCNET_IOCTL_GET_DEVICE_INFO = IO ACCNET_IOCTL_TYPE (ACCNET_IOCTL_BASE + 1)"
definition ACCNET_IOCTL_GET_REGION_INFO :: u32 where
  [reg_offsets]: "ACCNET_IOCTL_GET_REGION_INFO = IO ACCNET_IOCTL_TYPE (ACCNET_IOCTL_BASE + 2)"
definition ACCNET_REGION_TYPE_NIC_CTRL :: u32 where "ACCNET_REGION_TYPE_NIC_CTRL = 0x00001001"

section \<open>File operations\<close>

definition accnet_misc_open :: "'d nic \<Rightarrow> int" where
  "accnet_misc_open s = (if magic s \<noteq> MAGIC_CHAR then - EINVAL else 0)"

definition accnet_misc_release :: "'d nic \<Rightarrow> int" where
  "accnet_misc_release s = 0"

text \<open>The switch over the index: None is its default branch.\<close>

definition accnet_region :: "'d nic \<Rightarrow> ioctl_region_info \<Rightarrow> ioctl_region_info option" where
  "accnet_region s info =
     (if ri_index info = 0 then
        Some (info\<lparr>ri_type := ACCNET_REGION_TYPE_NIC_CTRL, ri_next := 1, ri_child := 0,
          ri_size := hw_regs_control_size s,
          ri_offset := push_bit 40 (ucast (ri_index info)), ri_name := ''ctrl''\<rparr>)
      else if ri_index info = 1 then
        Some (info\<lparr>ri_type := ACCNET_REGION_TYPE_NIC_CTRL, ri_next := 2, ri_child := 0,
          ri_size := hw_regs_udp_tx_size s,
          ri_offset := push_bit 40 (ucast (ri_index info)), ri_name := ''udp-tx''\<rparr>)
      else if ri_index info = 2 then
        Some (info\<lparr>ri_type := ACCNET_REGION_TYPE_NIC_CTRL, ri_next := 3, ri_child := 0,
          ri_size := hw_regs_udp_rx_size s,
          ri_offset := push_bit 40 (ucast (ri_index info)), ri_name := ''udp-rx''\<rparr>)
      else None)"

definition accnet_misc_ioctl :: "'d nic \<Rightarrow> u32 \<Rightarrow> user_copy \<Rightarrow> int \<times> ioctl_out" where
  "accnet_misc_ioctl s cmd U =
     (if cmd = ACCNET_IOCTL_GET_API_VERSION then (ACCNET_IOCTL_API_VERSION, Out_nothing)
      else if cmd = ACCNET_IOCTL_GET_DEVICE_INFO then
        (case from_device_info U of
           None \<Rightarrow> (- EFAULT, Out_nothing)
         | Some info \<Rightarrow>
             if di_argsz info < device_info_minsz then (- EINVAL, Out_nothing)
             else copy_out U (Out_device_info (fill_device_info info)))
      else if cmd = ACCNET_IOCTL_GET_REGION_INFO then
        (case from_region_info U of
           None \<Rightarrow> (- EFAULT, Out_nothing)
         | Some info \<Rightarrow>
             if ri_argsz info < region_info_minsz then (- EINVAL, Out_nothing)
             else
               (case accnet_region s (clear_region_info info) of
                  None \<Rightarrow> (- EINVAL, Out_nothing)
                | Some info \<Rightarrow> copy_out U (Out_region_info info)))
      else (- EINVAL, Out_nothing))"

definition accnet_misc_mmap :: "'d nic \<Rightarrow> vm_area \<Rightarrow> int + map_req" where
  "accnet_misc_mmap s vma =
     (if vma_bad vma then Inl (- EINVAL)
      else if vma_index vma = 0 then
        remap_window vma (hw_regs_control_phys s) (hw_regs_control_size s)
      else if vma_index vma = 1 then
        remap_window vma (hw_regs_udp_tx_phys s) (hw_regs_udp_tx_size s)
      else if vma_index vma = 2 then
        remap_window vma (hw_regs_udp_rx_phys s) (hw_regs_udp_rx_size s)
      else Inl (- EINVAL))"

section \<open>Properties\<close>

text \<open>The windows of the device, as pairs of physical address and size.\<close>

definition accnet_windows :: "'d nic \<Rightarrow> (u64 \<times> u64) list" where
  "accnet_windows s = [(hw_regs_control_phys s, hw_regs_control_size s),
     (hw_regs_udp_tx_phys s, hw_regs_udp_tx_size s), (hw_regs_udp_rx_phys s, hw_regs_udp_rx_size s)]"

definition window_ok :: "u64 \<times> u64 \<Rightarrow> bool" where
  "window_ok w \<longleftrightarrow> 4096 dvd unat (fst w) \<and> unat (fst w) + unat (snd w) < 2 ^ 64"

lemma accnet_mmap_window:
  assumes "accnet_misc_mmap s vma = Inr req"
  shows "\<not> vma_bad vma \<and> (\<exists>w\<in>set (accnet_windows s). remap_window vma (fst w) (snd w) = Inr req)"
  using assms by (auto simp: accnet_misc_mmap_def accnet_windows_def split: if_splits)

text \<open>
  Property C14. User space can map the register windows of the NIC and nothing else:
  whatever vm_area it asks for, if the request is granted then the frames that are mapped
  are those of one of the three windows, from the requested page on, and the last byte
  mapped lies inside the window. User addresses are in the lower half of the address
  space and the windows are page aligned.
\<close>

theorem accnet_mmap_confined:
  assumes "accnet_misc_mmap s vma = Inr req" and "unat (vm_end vma) \<le> 2 ^ 63"
    and "list_all window_ok (accnet_windows s)"
  shows "\<exists>pfn phys psize. req = Remap_pfn (vm_start vma) pfn (vma_req_len vma)
    \<and> (phys, psize) \<in> set (accnet_windows s)
    \<and> unat pfn * 4096 = unat phys + unat (vma_req_start vma)
    \<and> unat (vma_req_start vma) + unat (vma_req_len vma) \<le> unat psize"
proof -
  from accnet_mmap_window [OF assms(1)] obtain phys psize where "\<not> vma_bad vma"
    and win: "(phys, psize) \<in> set (accnet_windows s)" and rm: "remap_window vma phys psize = Inr req"
    by auto
  moreover obtain a pfn len where req: "req = Remap_pfn a pfn len"
    using rm by (auto simp: remap_window_def split: if_splits)
  moreover have "window_ok (phys, psize)" using assms(3) win by (auto simp: list_all_iff)
  ultimately show ?thesis
    using remap_window_inside [of vma phys psize a pfn len] assms(2)
    by (auto simp: vma_bad_def window_ok_def not_less)
qed

text \<open>A NIC with its three windows, as the device tree of the board places them.\<close>

definition windowed_nic :: "(region \<Rightarrow> bytes_at) nic" where
  "windowed_nic = (demo_nic [] [] [])\<lparr>hw_regs_control_phys := 0x10018000, hw_regs_control_size := 0x1000,
     hw_regs_udp_tx_phys := 0x10020000, hw_regs_udp_tx_size := 0x2000,
     hw_regs_udp_rx_phys := 0x10030000, hw_regs_udp_rx_size := 0x2000\<rparr>"

theorem accnet_mmap_confined_witness:
  "\<exists>pfn phys psize. Remap_pfn 0x7f000000 0x10021 0x1000 = Remap_pfn (0x7f000000 :: u64) pfn 0x1000
     \<and> (phys, psize) \<in> set (accnet_windows windowed_nic)
     \<and> unat pfn * 4096 = unat phys + 0x1000 \<and> 0x1000 + 0x1000 \<le> unat psize"
proof -
  let ?v = "\<lparr>vm_start = 0x7f000000, vm_end = 0x7f001000, vm_pgoff = 0x10000001, vm_flags = 0x8\<rparr> :: vm_area"
  have "vma_index ?v = 1" "vma_req_len ?v = 0x1000" "vma_page ?v = 1" "\<not> vma_bad ?v"
    by (simp_all add: vma_index_def vma_req_len_def vma_page_def vma_bad_def PAGE_SHIFT_def VM_SHARED_def)
  moreover from this(3) have "vma_req_start ?v = 0x1000" by (simp add: vma_req_start_def PAGE_SHIFT_def)
  moreover from calculation
  have "accnet_misc_mmap windowed_nic ?v = Inr (Remap_pfn 0x7f000000 0x10021 0x1000)"
    by (simp add: accnet_misc_mmap_def windowed_nic_def remap_window_def PAGE_SHIFT_def)
  ultimately show ?thesis
    using accnet_mmap_confined [of windowed_nic ?v]
    by (simp add: windowed_nic_def accnet_windows_def window_ok_def)
qed

text \<open>
  The offset and the size that \<open>GET_REGION_INFO\<close> reports for a region are
  what mmap expects: for each of the three regions, mapping the reported number of bytes
  at the reported offset maps exactly the whole window of that region.
\<close>

lemma accnet_region_info_mmap:
  assumes "from_region_info U = Some info" and "region_info_minsz \<le> ri_argsz info" and "to_user_ok U"
    and "ri_index info = of_nat i" and "i < 3"
    and "unat start + unat (snd (accnet_windows s ! i)) < 2 ^ 64"
  shows "\<exists>out. accnet_misc_ioctl s ACCNET_IOCTL_GET_REGION_INFO U = (0, Out_region_info out)
    \<and> ri_size out = snd (accnet_windows s ! i)
    \<and> accnet_misc_mmap s (vma_at start (ri_offset out) (ri_size out)) =
        Inr (Remap_pfn start (drop_bit PAGE_SHIFT (fst (accnet_windows s ! i))) (ri_size out))"
proof -
  let ?w = "accnet_windows s ! i"
  have off: "push_bit 40 (ucast (of_nat i :: u32)) = (push_bit 40 (of_nat i) :: u64)"
    using assms(5) by (cases i; cases "i - 1") auto
  have cmd: "accnet_misc_ioctl s ACCNET_IOCTL_GET_REGION_INFO U =
      (case accnet_region s (clear_region_info info) of
         None \<Rightarrow> (- EINVAL, Out_nothing) | Some info \<Rightarrow> (0, Out_region_info info))"
    using assms(1-3)
    by (auto simp: accnet_misc_ioctl_def reg_offsets IOC_def copy_out_def not_less [symmetric]
        split: option.split)
  obtain out where out: "accnet_region s (clear_region_info info) = Some out"
      "ri_size out = snd ?w" "ri_offset out = push_bit 40 (of_nat i)"
    using assms(4,5) off
    by (auto simp: accnet_region_def clear_region_info_def accnet_windows_def less_Suc_eq numeral_3_eq_3)
  note at = vma_at_index [of i start "snd ?w"]
  have "accnet_misc_mmap s (vma_at start (push_bit 40 (of_nat i)) (snd ?w)) =
      remap_window (vma_at start (push_bit 40 (of_nat i)) (snd ?w)) (fst ?w) (snd ?w)"
    using assms(5,6) at
    by (auto simp: accnet_misc_mmap_def accnet_windows_def less_Suc_eq numeral_3_eq_3)
  also have "\<dots> = Inr (Remap_pfn start (drop_bit PAGE_SHIFT (fst ?w)) (snd ?w))"
    using assms(5,6) at by (simp add: remap_window_def vma_at_def)
  finally show ?thesis by (simp add: cmd out)
qed

text \<open>A caller that passes a structure of full size and can be written back to.\<close>

definition asking_region :: "u32 \<Rightarrow> user_copy" where
  "asking_region i = \<lparr>from_device_info = None,
     from_region_info = Some \<lparr>ri_argsz = 72, ri_flags = 0, ri_index = i, ri_type = 0, ri_next = 0,
       ri_child = 0, ri_size = 0, ri_offset = 0, ri_name = []\<rparr>,
     from_int = None, to_user_ok = True\<rparr>"

lemma accnet_region_info_mmap_witness:
  "\<exists>out. accnet_misc_ioctl windowed_nic ACCNET_IOCTL_GET_REGION_INFO (asking_region 2) =
       (0, Out_region_info out)
     \<and> accnet_misc_mmap windowed_nic (vma_at 0x7f000000 (ri_offset out) (ri_size out)) =
         Inr (Remap_pfn 0x7f000000 0x10030 0x2000)"
proof -
  obtain info where "from_region_info (asking_region 2) = Some info" "region_info_minsz \<le> ri_argsz info"
      "to_user_ok (asking_region 2)" "ri_index info = of_nat 2"
    by (simp add: asking_region_def region_info_minsz_def)
  moreover have w: "accnet_windows windowed_nic ! 2 = (0x10030000, 0x2000)"
    by (simp add: accnet_windows_def windowed_nic_def)
  ultimately obtain out where
      "accnet_misc_ioctl windowed_nic ACCNET_IOCTL_GET_REGION_INFO (asking_region 2) = (0, Out_region_info out)"
      "ri_size out = 0x2000"
      "accnet_misc_mmap windowed_nic (vma_at 0x7f000000 (ri_offset out) (ri_size out)) =
         Inr (Remap_pfn 0x7f000000 (drop_bit PAGE_SHIFT 0x10030000) (ri_size out))"
    using accnet_region_info_mmap [of "asking_region 2" info 2 "0x7f000000" windowed_nic, unfolded w]
    by auto
  then show ?thesis by (auto simp: PAGE_SHIFT_def)
qed

text \<open>
  Enumerating the regions does not end where the driver says. The device
  information announces one region, while the regions 0, 1 and 2 all exist; following
  the field \<open>next\<close> from region 0 visits the three of them and then names region 3, for
  which the driver returns \<open>-EINVAL\<close>.
\<close>

lemma accnet_region_enumeration:
  "di_num_regions (fill_device_info info) = 1
   \<and> map (\<lambda>i. map_option ri_next (accnet_region s (clear_region_info (r\<lparr>ri_index := i\<rparr>)))) [0, 1, 2, 3] =
       [Some 1, Some 2, Some 3, None]
   \<and> accnet_misc_ioctl s ACCNET_IOCTL_GET_REGION_INFO (asking_region 3) = (- EINVAL, Out_nothing)"
  by (simp add: fill_device_info_def accnet_region_def clear_region_info_def accnet_misc_ioctl_def
      asking_region_def region_info_minsz_def reg_offsets IOC_def)

text \<open>
  The misc device can be opened on every device that was probed
  successfully, and the windows it then serves are those of the device tree.
\<close>

lemma accnet_open_after_probe:
  assumes "accnet_probe E D s = (0, s')" and "has_of_node E" and "alloc_etherdev E"
  shows "accnet_misc_open s' = 0
    \<and> accnet_windows s' = accnet_windows (snd (accnet_parse_addr E (probe_ndev s)))"
proof -
  have s': "s' = init_udp_engine D (kcall_log K_misc_register (snd (accnet_parse_irq E (probe_registered E s))))"
    using assms(1) unfolding accnet_probe_eq [OF assms(2,3)] by (auto split: if_splits)
  have irq: "accnet_windows (snd (accnet_parse_irq E r)) = accnet_windows r" for r :: "'a nic"
    by (simp add: accnet_parse_irq_def Let_def kcall_log_def accnet_windows_def)
  have "accnet_windows (probe_registered E s) = accnet_windows (snd (accnet_parse_addr E (probe_ndev s)))"
    by (simp add: accnet_windows_def probe_registered_def accnet_init_mac_address_def kcall_log_def
        del: upt_Suc)
  moreover have "accnet_windows s' = accnet_windows (snd (accnet_parse_irq E (probe_registered E s)))"
    by (simp add: s' init_udp_engine_writes kcall_log_def accnet_windows_def)
  moreover have "accnet_misc_open s' = 0"
    by (simp add: s' accnet_misc_open_def init_udp_engine_writes kcall_log_def parse_irq_frame
        probe_registered_frame)
  ultimately show ?thesis by (simp add: irq)
qed

lemma accnet_open_after_probe_witness:
  "accnet_misc_open (snd (accnet_probe demo_env ram_device (zero_nic (\<lambda>r a. 0)))) = 0"
proof -
  have "fst (accnet_probe demo_env ram_device (zero_nic (\<lambda>r a. 0))) = 0"
    by (simp add: accnet_probe_eq demo_env_parse)
  then show ?thesis
    using accnet_open_after_probe [of demo_env ram_device "zero_nic (\<lambda>r a. 0)"]
    by (metis demo_env_ok(4,5) prod.collapse)
qed

end
