(* ===== verification/Iocache_Regs.thy ===== *)
theory Iocache_Regs
  imports Accnet_Regs
begin

text \<open>
  The register map of the IOCache, boards/default/drivers/iocache-driver/iocache.h, and
  where its registers lie. The size and alignment macros of that header are the ones of
  accnet.h.
\<close>

section \<open>Blocks and per-CPU registers\<close>

definition NUM_CPUS :: nat where "NUM_CPUS = 4"
definition IOCACHE_CACHE_ENTRY_COUNT :: nat where "IOCACHE_CACHE_ENTRY_COUNT = 64"
definition IOCACHE_UDP_RING_SIZE :: u64 where "IOCACHE_UDP_RING_SIZE = 32 * 1024"

definition IOCACHE_INT_BASE :: u64 where [reg_offsets]: "IOCACHE_INT_BASE = 0x000"
definition IOCACHE_ALLOC_BASE :: u64 where [reg_offsets]: "IOCACHE_ALLOC_BASE = 0x080"
definition IOCACHE_KICK_BASE :: u64 where [reg_offsets]: "IOCACHE_KICK_BASE = 0x100"
definition IOCACHE_SCHED_BASE :: u64 where [reg_offsets]: "IOCACHE_SCHED_BASE = 0x200"
definition IOCACHE_TABLE_BASE :: u64 where [reg_offsets]: "IOCACHE_TABLE_BASE = 0x300"
definition IOCACHE_ROW_STRIDE :: u64 where [reg_offsets]: "IOCACHE_ROW_STRIDE = 0x100"

definition IOCACHE_REG_INTMASK_RX :: "int \<Rightarrow> u64" where
  [reg_offsets]: "IOCACHE_REG_INTMASK_RX c = IOCACHE_INT_BASE + 0x10 * word_of_int c + 0x00"
definition IOCACHE_REG_INTMASK_TXCOMP :: "int \<Rightarrow> u64" where
  [reg_offsets]: "IOCACHE_REG_INTMASK_TXCOMP c = IOCACHE_INT_BASE + 0x10 * word_of_int c + 0x08"
definition IOCACHE_REG_SCHED_READ :: "int \<Rightarrow> u64" where
  [reg_offsets]: "IOCACHE_REG_SCHED_READ c = IOCACHE_SCHED_BASE + 0x10 * word_of_int c + 0x00"
definition IOCACHE_REG_SCHED_PEEK :: "int \<Rightarrow> u64" where
  [reg_offsets]: "IOCACHE_REG_SCHED_PEEK c = IOCACHE_SCHED_BASE + 0x10 * word_of_int c + 0x08"

definition IOCACHE_REG_RX_KICK_ALL_CPU :: u64 where
  [reg_offsets]: "IOCACHE_REG_RX_KICK_ALL_CPU = IOCACHE_KICK_BASE + 0x00"
definition IOCACHE_REG_RX_KICK_ALL_COUNT :: u64 where
  [reg_offsets]: "IOCACHE_REG_RX_KICK_ALL_COUNT = IOCACHE_KICK_BASE + 0x08"
definition IOCACHE_REG_RX_KICK_ALL_MASK :: u64 where
  [reg_offsets]: "IOCACHE_REG_RX_KICK_ALL_MASK = IOCACHE_KICK_BASE + 0x10"
definition IOCACHE_REG_ALLOC_FIRST_EMPTY :: u64 where
  [reg_offsets]: "IOCACHE_REG_ALLOC_FIRST_EMPTY = IOCACHE_ALLOC_BASE + 0x00"

section \<open>Rows of the table\<close>

definition IOCACHE_ENABLED_OFF :: u64 where [reg_offsets]: "IOCACHE_ENABLED_OFF = 0x00"
definition IOCACHE_PROTOCOL_OFF :: u64 where [reg_offsets]: "IOCACHE_PROTOCOL_OFF = 0x08"
definition IOCACHE_SRC_IP_OFF :: u64 where [reg_offsets]: "IOCACHE_SRC_IP_OFF = 0x10"
definition IOCACHE_SRC_PORT_OFF :: u64 where [reg_offsets]: "IOCACHE_SRC_PORT_OFF = 0x18"
definition IOCACHE_DST_IP_OFF :: u64 where [reg_offsets]: "IOCACHE_DST_IP_OFF = 0x20"
definition IOCACHE_DST_PORT_OFF :: u64 where [reg_offsets]: "IOCACHE_DST_PORT_OFF = 0x28"
definition IOCACHE_RX_AVAILABLE_OFF :: u64 where [reg_offsets]: "IOCACHE_RX_AVAILABLE_OFF = 0x30"
definition IOCACHE_RX_SUSPENDED_OFF :: u64 where [reg_offsets]: "IOCACHE_RX_SUSPENDED_OFF = 0x38"
definition IOCACHE_TXCOMP_AVAILABLE_OFF :: u64 where [reg_offsets]: "IOCACHE_TXCOMP_AVAILABLE_OFF = 0x40"
definition IOCACHE_TXCOMP_SUSPENDED_OFF :: u64 where [reg_offsets]: "IOCACHE_TXCOMP_SUSPENDED_OFF = 0x48"
definition IOCACHE_FLAGS_RO_OFF :: u64 where [reg_offsets]: "IOCACHE_FLAGS_RO_OFF = 0x50"
definition IOCACHE_CONN_ID_OFF :: u64 where [reg_offsets]: "IOCACHE_CONN_ID_OFF = 0x58"
definition IOCACHE_PROC_PTR_OFF :: u64 where [reg_offsets]: "IOCACHE_PROC_PTR_OFF = 0x60"
definition IOCACHE_PROC_CPU_OFF :: u64 where [reg_offsets]: "IOCACHE_PROC_CPU_OFF = 0x68"
definition IOCACHE_RX_RING_ADDR_OFF :: u64 where [reg_offsets]: "IOCACHE_RX_RING_ADDR_OFF = 0x70"
definition IOCACHE_RX_RING_SIZE_OFF :: u64 where [reg_offsets]: "IOCACHE_RX_RING_SIZE_OFF = 0x78"
definition IOCACHE_TX_RING_ADDR_OFF :: u64 where [reg_offsets]: "IOCACHE_TX_RING_ADDR_OFF = 0x80"
definition IOCACHE_TX_RING_SIZE_OFF :: u64 where [reg_offsets]: "IOCACHE_TX_RING_SIZE_OFF = 0x88"

text \<open>
  A row number is a C \<open>int\<close>, extended to \<open>unsigned long\<close>, and the sum is taken modulo
  \<open>2^64\<close>.
\<close>

definition IOCACHE_REG :: "int \<Rightarrow> u64 \<Rightarrow> u64" where
  "IOCACHE_REG row off = IOCACHE_TABLE_BASE + word_of_int row * IOCACHE_ROW_STRIDE + off"

definition IOCACHE_REG_ENABLED :: "int \<Rightarrow> u64" where
  [reg_offsets]: "IOCACHE_REG_ENABLED row = IOCACHE_REG row IOCACHE_ENABLED_OFF"
definition IOCACHE_REG_PROTOCOL :: "int \<Rightarrow> u64" where
  [reg_offsets]: "IOCACHE_REG_PROTOCOL row = IOCACHE_REG row IOCACHE_PROTOCOL_OFF"
definition IOCACHE_REG_SRC_IP :: "int \<Rightarrow> u64" where
  [reg_offsets]: "IOCACHE_REG_SRC_IP row = IOCACHE_REG row IOCACHE_SRC_IP_OFF"
definition IOCACHE_REG_SRC_PORT :: "int \<Rightarrow> u64" where
  [reg_offsets]: "IOCACHE_REG_SRC_PORT row = IOCACHE_REG row IOCACHE_SRC_PORT_OFF"
definition IOCACHE_REG_DST_IP :: "int \<Rightarrow> u64" where
  [reg_offsets]: "IOCACHE_REG_DST_IP row = IOCACHE_REG row IOCACHE_DST_IP_OFF"
definition IOCACHE_REG_DST_PORT :: "int \<Rightarrow> u64" where
  [reg_offsets]: "IOCACHE_REG_DST_PORT row = IOCACHE_REG row IOCACHE_DST_PORT_OFF"
definition IOCACHE_REG_RX_AVAILABLE :: "int \<Rightarrow> u64" where
  [reg_offsets]: "IOCACHE_REG_RX_AVAILABLE row = IOCACHE_REG row IOCACHE_RX_AVAILABLE_OFF"
definition IOCACHE_REG_RX_SUSPENDED :: "int \<Rightarrow> u64" where
  [reg_offsets]: "IOCACHE_REG_RX_SUSPENDED row = IOCACHE_REG row IOCACHE_RX_SUSPENDED_OFF"
definition IOCACHE_REG_TXCOMP_AVAILABLE :: "int \<Rightarrow> u64" where
  [reg_offsets]: "IOCACHE_REG_TXCOMP_AVAILABLE row = IOCACHE_REG row IOCACHE_TXCOMP_AVAILABLE_OFF"
definition IOCACHE_REG_TXCOMP_SUSPENDED :: "int \<Rightarrow> u64" where
  [reg_offsets]: "IOCACHE_REG_TXCOMP_SUSPENDED row = IOCACHE_REG row IOCACHE_TXCOMP_SUSPENDED_OFF"
definition IOCACHE_REG_FLAGS_RO :: "int \<Rightarrow> u64" where
  [reg_offsets]: "IOCACHE_REG_FLAGS_RO row = IOCACHE_REG row IOCACHE_FLAGS_RO_OFF"
definition IOCACHE_REG_CONN_ID :: "int \<Rightarrow> u64" where
  [reg_offsets]: "IOCACHE_REG_CONN_ID row = IOCACHE_REG row IOCACHE_CONN_ID_OFF"
definition IOCACHE_REG_PROC_PTR :: "int \<Rightarrow> u64" where
  [reg_offsets]: "IOCACHE_REG_PROC_PTR row = IOCACHE_REG row IOCACHE_PROC_PTR_OFF"
definition IOCACHE_REG_PROC_CPU :: "int \<Rightarrow> u64" where
  [reg_offsets]: "IOCACHE_REG_PROC_CPU row = IOCACHE_REG row IOCACHE_PROC_CPU_OFF"
definition IOCACHE_REG_RX_RING_ADDR :: "int \<Rightarrow> u64" where
  [reg_offsets]: "IOCACHE_REG_RX_RING_ADDR row = IOCACHE_REG row IOCACHE_RX_RING_ADDR_OFF"
definition IOCACHE_REG_RX_RING_SIZE :: "int \<Rightarrow> u64" where
  [reg_offsets]: "IOCACHE_REG_RX_RING_SIZE row = IOCACHE_REG row IOCACHE_RX_RING_SIZE_OFF"
definition IOCACHE_REG_TX_RING_ADDR :: "int \<Rightarrow> u64" where
  [reg_offsets]: "IOCACHE_REG_TX_RING_ADDR row = IOCACHE_REG row IOCACHE_TX_RING_ADDR_OFF"
definition IOCACHE_REG_TX_RING_SIZE :: "int \<Rightarrow> u64" where
  [reg_offsets]: "IOCACHE_REG_TX_RING_SIZE row = IOCACHE_REG row IOCACHE_TX_RING_SIZE_OFF"

section \<open>Where the registers lie\<close>

lemma unat_iocache_reg:
  assumes "0 \<le> row" and "row < 64" and "unat off < 0x100"
  shows "unat (IOCACHE_REG row off) = 0x300 + nat row * 0x100 + unat off"
  using assms
  by (simp add: IOCACHE_REG_def IOCACHE_TABLE_BASE_def IOCACHE_ROW_STRIDE_def unat_word_ariths
      unat_word_of_int_small nat_less_iff)

text \<open>
  The fields of a row that only software changes: the enable bit, the protocol and the
  addresses, the pointer and the CPU of the process, the rings. The fields between, which say
  what is available and who is suspended, the hardware changes too.
\<close>

definition sw_field :: "nat \<Rightarrow> bool" where
  "sw_field off \<longleftrightarrow> off < 0x30 \<or> 0x60 \<le> off \<and> off < 0x90"

definition iocache_storage :: "(region \<times> nat) set" where
  "iocache_storage = {(R_IOCACHE, b) | b. 0x300 \<le> b \<and> b < 0x4300 \<and> sw_field ((b - 0x300) mod 0x100)}"

lemma row_byte:
  assumes "row < 64" and "off < 0x100"
  shows "(R_IOCACHE, 0x300 + row * 0x100 + off) \<in> iocache_storage \<longleftrightarrow> sw_field off"
  using assms by (auto simp: iocache_storage_def)

lemma span_row_storage:
  assumes "0 \<le> row" and "row < 64" and "unat off + n \<le> 0x30 \<or> 0x60 \<le> unat off \<and> unat off + n \<le> 0x90"
  shows "span R_IOCACHE (IOCACHE_REG row off) n \<subseteq> iocache_storage"
proof
  fix x assume "x \<in> span R_IOCACHE (IOCACHE_REG row off) n"
  moreover obtain r b where "x = (r, b)" by fastforce
  moreover have "n = 0 \<or> unat off < 0x100" using assms(3) by auto
  ultimately have x: "x = (R_IOCACHE, b)" "0x300 + nat row * 0x100 + unat off \<le> b"
      "b < 0x300 + nat row * 0x100 + unat off + n"
    using unat_iocache_reg [OF assms(1,2)] by (auto simp: span_def)
  then obtain k where k: "b = 0x300 + nat row * 0x100 + k" "unat off \<le> k" "k < unat off + n"
    by (metis add.assoc add_le_cancel_left le_add_diff_inverse nat_add_left_cancel_less add_leD1)
  then have "sw_field k" "k < 0x100" using assms(3) by (auto simp: sw_field_def)
  moreover have "nat row < 64" using assms(2) by simp
  ultimately show "x \<in> iocache_storage" using x(1) k(1) row_byte by simp
qed

lemma span_row_outside:
  assumes "0 \<le> row" and "row < 64" and "0x30 \<le> unat off" and "unat off + n \<le> 0x60"
  shows "span R_IOCACHE (IOCACHE_REG row off) n \<inter> iocache_storage = {}"
proof -
  have "x \<notin> iocache_storage" if "x \<in> span R_IOCACHE (IOCACHE_REG row off) n" for x
  proof -
    obtain r b where "x = (r, b)" by fastforce
    moreover have "n = 0 \<or> unat off < 0x100" using assms(4) by auto
    ultimately have x: "x = (R_IOCACHE, b)" "0x300 + nat row * 0x100 + unat off \<le> b"
        "b < 0x300 + nat row * 0x100 + unat off + n"
      using that unat_iocache_reg [OF assms(1,2)] by (auto simp: span_def)
    then obtain k where k: "b = 0x300 + nat row * 0x100 + k" "unat off \<le> k" "k < unat off + n"
      by (metis add.assoc add_le_cancel_left le_add_diff_inverse nat_add_left_cancel_less add_leD1)
    then have "\<not> sw_field k" "k < 0x100" using assms(3,4) by (auto simp: sw_field_def)
    moreover have "nat row < 64" using assms(2) by simp
    ultimately show ?thesis using x(1) k(1) row_byte by simp
  qed
  then show ?thesis by blast
qed

lemma span_low_outside: "unat off + n \<le> 0x300 \<Longrightarrow> span R_IOCACHE off n \<inter> iocache_storage = {}"
  by (auto simp: iocache_storage_def)

text \<open>Registers of two rows, and two registers of one row, do not overlap.\<close>

lemma rows_apart:
  assumes "0 \<le> r" and "r < 64" and "0 \<le> q" and "q < 64"
    and "unat a + n \<le> 0x100" and "unat b + k \<le> 0x100" and "unat a < 0x100" and "unat b < 0x100"
    and "r \<noteq> q \<or> unat a + n \<le> unat b \<or> unat b + k \<le> unat a"
  shows "apart (R_IOCACHE, n, IOCACHE_REG r a, v) R_IOCACHE (IOCACHE_REG q b) k"
proof -
  have "nat r = nat q" if "\<not> nat r < nat q" "\<not> nat q < nat r" using that by linarith
  moreover have "r = q" if "nat r = nat q" using that assms(1,3) by simp
  ultimately show ?thesis
    using assms unat_iocache_reg [OF assms(1,2), of a] unat_iocache_reg [OF assms(3,4), of b]
    by (cases "nat r < nat q"; cases "nat q < nat r") auto
qed

text \<open>
  A row number below the table reaches the other blocks: row \<open>-1\<close> is the scheduler block.
\<close>

lemma iocache_reg_minus_1: "IOCACHE_REG_ENABLED (- 1) = IOCACHE_REG_SCHED_READ 0"
  by (simp add: reg_offsets IOCACHE_REG_def)

end
