(* ===== verification/Iocache_Driver.thy ===== *)
theory Iocache_Driver
  imports Iocache_Regs
begin

text \<open>
  The state of the IOCache driver and its interrupt path:
  boards/default/drivers/iocache-driver/iocache.c (masks, handlers, rings) and iocache.h.
  The kernel calls that a step makes are appended to a log; the two the driver relies on
  from its patched kernel, \<open>wake_up_process_iocache\<close> and \<open>sched_force_next_local\<close>, are
  logged like the others.
\<close>

section \<open>State\<close>

text \<open>
  One DMA buffer: its length, its address for the CPU and for the device, and both after
  alignment. The driver keeps the five fields in five arrays per direction.
\<close>

record dma_ring =
  dr_len :: u64
  dr_cpu :: u64
  dr_cpu_aligned :: u64
  dr_addr :: u64
  dr_addr_aligned :: u64

text \<open>The fields the patched kernel adds to a task; \<open>to_period\<close> is in nanoseconds.\<close>

record task =
  t_iocache_id :: int
  t_iocache_iomem :: bool       \<comment> \<open>whether \<open>iocache_iomem\<close> points to the registers\<close>
  t_timer_set :: bool           \<comment> \<open>whether \<open>to_hrtimer.function\<close> is \<open>iocache_timeout_cb\<close>\<close>
  t_to_period :: int

datatype isr = Isr_rx | Isr_txcomp

datatype ioc_call =
    C_wake_up_process_iocache u64
  | C_wake_up_process u64
  | C_set_need_resched
  | C_set_interruptible u64
  | C_schedule
  | C_force_next_local u64
  | C_migrate_disable
  | C_hrtimer_init u64
  | C_hrtimer_start u64 int
  | C_hrtimer_cancel u64
  | C_eventfd_put nat
  | C_request_irq int isr
  | C_irq_set_affinity int nat
  | C_register_iocache_forall
  | C_plic_register u32 isr
  | C_plic_unregister int
  | C_misc_register
  | C_misc_deregister
  | C_dma_free u64 u64 u64      \<comment> \<open>length, CPU address, bus address\<close>

record 'd iocache =
  io_hw :: 'd
  io_log :: "ioc_call list"
  io_tasks :: "u64 \<Rightarrow> task"
  io_rx_irq :: "int list"
  io_rx_hwirq :: "int list"
  io_txcomp_irq :: "int list"
  io_txcomp_hwirq :: "int list"
  io_control_size :: u64
  io_control_phys :: u64
  io_ev_ctx :: "nat option"
  io_magic :: u64
  io_udp_tx :: "dma_ring list"
  io_udp_rx :: "dma_ring list"
  io_entry_ktime :: u64
  io_claim_ktime :: u64
  io_isr_ktime :: u64
  io_syscall_time :: u64

definition io_call :: "ioc_call \<Rightarrow> 'd iocache \<Rightarrow> 'd iocache" where
  "io_call c s = s\<lparr>io_log := io_log s @ [c]\<rparr>"

definition on_hw :: "('d \<Rightarrow> 'd) \<Rightarrow> 'd iocache \<Rightarrow> 'd iocache" where
  "on_hw f s = s\<lparr>io_hw := f (io_hw s)\<rparr>"

section \<open>Interrupt masks\<close>

definition set_intmask_rx :: "'d device \<Rightarrow> int \<Rightarrow> 'd iocache \<Rightarrow> 'd iocache" where
  "set_intmask_rx D cpu = on_hw (iowrite8 D R_IOCACHE (IOCACHE_REG_INTMASK_RX cpu) 0x1)"

definition clear_intmask_rx :: "'d device \<Rightarrow> int \<Rightarrow> 'd iocache \<Rightarrow> 'd iocache" where
  "clear_intmask_rx D cpu = on_hw (iowrite8 D R_IOCACHE (IOCACHE_REG_INTMASK_RX cpu) 0x0)"

definition set_intmask_txcomp :: "'d device \<Rightarrow> int \<Rightarrow> 'd iocache \<Rightarrow> 'd iocache" where
  "set_intmask_txcomp D cpu = on_hw (iowrite8 D R_IOCACHE (IOCACHE_REG_INTMASK_TXCOMP cpu) 0x1)"

definition clear_intmask_txcomp :: "'d device \<Rightarrow> int \<Rightarrow> 'd iocache \<Rightarrow> 'd iocache" where
  "clear_intmask_txcomp D cpu = on_hw (iowrite8 D R_IOCACHE (IOCACHE_REG_INTMASK_TXCOMP cpu) 0x0)"

section \<open>Interrupt handlers\<close>

text \<open>
  What happens under \<open>rxkick_lock\<close>: the CPU number is written, then the number of rows to
  wake and their mask are read.
\<close>

definition kick_all :: "'d device \<Rightarrow> int \<Rightarrow> 'd \<Rightarrow> (u32 \<times> u64) \<times> 'd" where
  "kick_all D cpu h =
     (let h = iowrite32 D R_IOCACHE IOCACHE_REG_RX_KICK_ALL_CPU (word_of_int cpu) h;
          (count, h) = ioread32 D R_IOCACHE IOCACHE_REG_RX_KICK_ALL_COUNT h;
          (msk, h) = ioread64 D R_IOCACHE IOCACHE_REG_RX_KICK_ALL_MASK h
      in ((count, msk), h))"

text \<open>The loop over the rows. A row whose pointer is 0 is reported and does not count.\<close>

function isr_rx_loop :: "'d device \<Rightarrow> u64 \<Rightarrow> nat \<Rightarrow> u32 \<Rightarrow> 'd iocache \<Rightarrow> 'd iocache" where
  "isr_rx_loop D msk i count s =
     (if i < IOCACHE_CACHE_ENTRY_COUNT \<and> 0 < count then
        if msk AND push_bit i 1 \<noteq> 0 then
          (case ioread64 D R_IOCACHE (IOCACHE_REG_PROC_PTR (int i)) (io_hw s) of (raw_pointer, h) \<Rightarrow>
           let s = s\<lparr>io_hw := h\<rparr>
           in if raw_pointer = 0 then isr_rx_loop D msk (Suc i) count s
              else isr_rx_loop D msk (Suc i) (count - 1) (io_call (C_wake_up_process_iocache raw_pointer) s))
        else isr_rx_loop D msk (Suc i) count s
      else s)"
  by pat_completeness auto
termination
  by (relation "measure (\<lambda>(D, msk, i, count, s). IOCACHE_CACHE_ENTRY_COUNT - i)") auto

definition iocache_isr_rx :: "'d device \<Rightarrow> int \<Rightarrow> 'd iocache \<Rightarrow> 'd iocache" where
  "iocache_isr_rx D cpu s =
     (case kick_all D cpu (io_hw s) of ((count, msk), h) \<Rightarrow>
      io_call C_set_need_resched (isr_rx_loop D msk 0 count (s\<lparr>io_hw := h\<rparr>)))"

definition iocache_isr_txcomp :: "'d iocache \<Rightarrow> 'd iocache" where
  "iocache_isr_txcomp s = s"

section \<open>DMA rings\<close>

text \<open>
  \<open>dma_alloc_coherent\<close> is the parameter: for the n-th call and the length, the CPU address
  (0 is NULL) and the bus address. \<open>ALIGN\<close> is \<open>__ALIGN_KERNEL\<close>, as in \<^const>\<open>DMA_PTR_ALIGN\<close>.
\<close>

type_synonym dma_alloc = "nat \<Rightarrow> u64 \<Rightarrow> u64 \<times> u64"

definition dma_len :: "u64 \<Rightarrow> u64" where
  "dma_len len = len + (of_nat ALIGN_BYTES - 1)"

definition alloc_ring :: "u64 \<Rightarrow> u64 \<Rightarrow> dma_ring" where
  "alloc_ring cpu addr =
     (let addr_aligned = DMA_PTR_ALIGN addr;
          delta = addr_aligned - addr
      in \<lparr>dr_len = IOCACHE_UDP_RING_SIZE, dr_cpu = cpu, dr_cpu_aligned = cpu + delta,
          dr_addr = addr, dr_addr_aligned = addr_aligned\<rparr>)"

text \<open>A failed allocation leaves the length and a NULL pointer behind.\<close>

definition failed_ring :: "u64 \<Rightarrow> dma_ring \<Rightarrow> dma_ring" where
  "failed_ring addr r = r\<lparr>dr_len := IOCACHE_UDP_RING_SIZE, dr_cpu := 0, dr_addr := addr\<rparr>"

definition init_udp_ring_pair :: "dma_alloc \<Rightarrow> nat \<Rightarrow> 'd iocache \<Rightarrow> int option \<times> 'd iocache" where
  "init_udp_ring_pair A i s =
     (case A (2 * i) (dma_len IOCACHE_UDP_RING_SIZE) of (cpu, addr) \<Rightarrow>
      if cpu = 0 then
        (Some (- ENOMEM), s\<lparr>io_udp_tx := (io_udp_tx s)[i := failed_ring addr (io_udp_tx s ! i)]\<rparr>)
      else
        (let s = s\<lparr>io_udp_tx := (io_udp_tx s)[i := alloc_ring cpu addr]\<rparr>
         in case A (2 * i + 1) (dma_len IOCACHE_UDP_RING_SIZE) of (cpu, addr) \<Rightarrow>
           if cpu = 0 then
             (Some (- ENOMEM), s\<lparr>io_udp_rx := (io_udp_rx s)[i := failed_ring addr (io_udp_rx s ! i)]\<rparr>)
           else (None, s\<lparr>io_udp_rx := (io_udp_rx s)[i := alloc_ring cpu addr]\<rparr>)))"

definition init_udp_rings :: "dma_alloc \<Rightarrow> 'd iocache \<Rightarrow> int \<times> 'd iocache" where
  "init_udp_rings A s =
     (case for_ret (init_udp_ring_pair A) [0..<IOCACHE_CACHE_ENTRY_COUNT] s of
        (Some ret, s) \<Rightarrow> (ret, s)
      | (None, s) \<Rightarrow> (0, s))"

definition populate_ring :: "'d device \<Rightarrow> nat \<Rightarrow> 'd iocache \<Rightarrow> 'd iocache" where
  "populate_ring D i s =
     (let h = io_hw s;
          h = iowrite64 D R_IOCACHE (IOCACHE_REG_ENABLED (int i)) 0 h;
          rx_base = dr_addr_aligned (io_udp_rx s ! i);
          h = iowrite64 D R_IOCACHE (IOCACHE_REG_RX_RING_ADDR (int i)) rx_base h;
          h = iowrite32 D R_IOCACHE (IOCACHE_REG_RX_RING_SIZE (int i)) (ucast IOCACHE_UDP_RING_SIZE) h;
          tx_base = dr_addr_aligned (io_udp_tx s ! i);
          h = iowrite64 D R_IOCACHE (IOCACHE_REG_TX_RING_ADDR (int i)) tx_base h;
          h = iowrite32 D R_IOCACHE (IOCACHE_REG_TX_RING_SIZE (int i)) (ucast IOCACHE_UDP_RING_SIZE) h
      in s\<lparr>io_hw := h\<rparr>)"

definition populate_ring_info :: "'d device \<Rightarrow> 'd iocache \<Rightarrow> 'd iocache" where
  "populate_ring_info D s = fold (populate_ring D) [0..<IOCACHE_CACHE_ENTRY_COUNT] s"

text \<open>The freeing loop of \<open>iocache_remove\<close>.\<close>

definition free_ring :: "dma_ring \<Rightarrow> 'd iocache \<Rightarrow> 'd iocache" where
  "free_ring r s =
     (if dr_cpu r \<noteq> 0 then io_call (C_dma_free (dma_len (dr_len r)) (dr_cpu r) (dr_addr r)) s else s)"

definition free_rings :: "'d iocache \<Rightarrow> 'd iocache" where
  "free_rings s = fold (\<lambda>i s. free_ring (io_udp_tx s ! i) (free_ring (io_udp_rx s ! i) s))
     [0..<IOCACHE_CACHE_ENTRY_COUNT] s"

section \<open>The receive interrupt\<close>

declare isr_rx_loop.simps [simp del]

lemma unat_pred: "0 < (c :: u32) \<Longrightarrow> unat (c - 1) = unat c - 1"
  by (simp add: unat_sub word_le_nat_alt word_less_nat_alt)

lemma test_bit_and: "(m AND push_bit i 1 \<noteq> 0) \<longleftrightarrow> bit (m :: u64) i"
  by (metis and_zero_eq bit_exp_iff bit_iff_and_push_bit_not_eq_0)

text \<open>The process pointers of the rows, and those of the rows of a mask, in row order.\<close>

definition proc_ptr :: "('d \<Rightarrow> region \<times> nat \<Rightarrow> u8) \<Rightarrow> 'd \<Rightarrow> nat \<Rightarrow> u64" where
  "proc_ptr peek h i = reg_val peek h R_IOCACHE (IOCACHE_REG_PROC_PTR (int i)) 8"

definition masked_ptrs :: "(nat \<Rightarrow> u64) \<Rightarrow> u64 \<Rightarrow> nat \<Rightarrow> u64 list" where
  "masked_ptrs ptr msk i =
     filter (\<lambda>p. p \<noteq> 0) (map ptr (filter (bit msk) [i..<IOCACHE_CACHE_ENTRY_COUNT]))"

lemma span_proc_ptr: "i < 64 \<Longrightarrow> span R_IOCACHE (IOCACHE_REG_PROC_PTR (int i)) 8 \<subseteq> iocache_storage"
  unfolding IOCACHE_REG_PROC_PTR_def by (rule span_row_storage) (simp_all add: reg_offsets)

lemma masked_ptrs_end: "\<not> i < IOCACHE_CACHE_ENTRY_COUNT \<Longrightarrow> masked_ptrs ptr msk i = []"
  by (simp add: masked_ptrs_def)

lemma masked_ptrs_step:
  "i < IOCACHE_CACHE_ENTRY_COUNT \<Longrightarrow> masked_ptrs ptr msk i =
     (if bit msk i \<and> ptr i \<noteq> 0 then [ptr i] else []) @ masked_ptrs ptr msk (Suc i)"
  by (simp add: masked_ptrs_def upt_conv_Cons)

lemma isr_rx_loop_stop: "\<not> (i < IOCACHE_CACHE_ENTRY_COUNT \<and> 0 < count) \<Longrightarrow> isr_rx_loop D msk i count s = s"
  by (subst isr_rx_loop.simps) auto

lemma isr_rx_loop_step:
  assumes "i < IOCACHE_CACHE_ENTRY_COUNT" and "0 < count"
    and "ioread64 D R_IOCACHE (IOCACHE_REG_PROC_PTR (int i)) (io_hw s) = (p, h)"
  shows "isr_rx_loop D msk i count s =
    (if bit msk i then
       if p = 0 then isr_rx_loop D msk (Suc i) count (s\<lparr>io_hw := h\<rparr>)
       else isr_rx_loop D msk (Suc i) (count - 1) (io_call (C_wake_up_process_iocache p) (s\<lparr>io_hw := h\<rparr>))
     else isr_rx_loop D msk (Suc i) count s)"
  by (subst isr_rx_loop.simps) (use assms in \<open>simp only: test_bit_and simp_thms if_True Let_def prod.case\<close>)

text \<open>
  The loop, on a device whose software fields are storage: it wakes the processes of the masked
  rows, in the order of the rows, at most \<open>count\<close> of them, and changes nothing else.
\<close>

lemma isr_rx_loop_wakes:
  assumes D: "storage_device D iocache_storage peek"
    and "\<And>i. i < 64 \<Longrightarrow> proc_ptr peek (io_hw s) i = ptr i"
  shows "\<exists>h. (\<forall>x\<in>iocache_storage. peek h x = peek (io_hw s) x)
    \<and> isr_rx_loop D msk i count s = s\<lparr>io_hw := h, io_log := io_log s @
        map C_wake_up_process_iocache (take (unat count) (masked_ptrs ptr msk i))\<rparr>"
  using assms(2)
proof (induction "IOCACHE_CACHE_ENTRY_COUNT - i" arbitrary: i count s)
  case 0
  then show ?case by (intro exI [of _ "io_hw s"]) (simp add: isr_rx_loop_stop masked_ptrs_end)
next
  case (Suc n)
  show ?case
  proof (cases "0 < count")
    case False
    then have "count = 0" by (simp add: word_gt_0)
    then show ?thesis by (intro exI [of _ "io_hw s"]) (simp add: isr_rx_loop_stop)
  next
    case True
    from Suc.hyps(2) have i: "i < IOCACHE_CACHE_ENTRY_COUNT" "n = IOCACHE_CACHE_ENTRY_COUNT - Suc i" by auto
    then have i64: "i < 64" by (simp add: IOCACHE_CACHE_ENTRY_COUNT_def)
    obtain p h where rd: "ioread64 D R_IOCACHE (IOCACHE_REG_PROC_PTR (int i)) (io_hw s) = (p, h)"
      by fastforce
    have p: "p = ptr i"
      using storage_device.read_val [OF D span_proc_ptr [OF i64], of "io_hw s"] rd Suc.prems [OF i64]
      by (simp add: ioread64_def proc_ptr_def)
    have keep: "peek h x = peek (io_hw s) x" if "x \<in> iocache_storage" for x
      using storage_device.read_keeps [OF D that] rd by (metis ioread64_def snd_conv)
    have ptr: "proc_ptr peek h j = ptr j" if "j < 64" for j
      using storage_device.reg_val_read [OF D span_proc_ptr [OF that]] rd Suc.prems [OF that]
      by (metis ioread64_def proc_ptr_def snd_conv)
    note step = isr_rx_loop_step [OF i(1) True rd, of msk] masked_ptrs_step [OF i(1), of ptr msk]
    consider "\<not> bit msk i" | "bit msk i" "p = 0" | "bit msk i" "p \<noteq> 0" by blast
    then show ?thesis
    proof cases
      case 1
      then show ?thesis using Suc.hyps(1) [OF i(2) Suc.prems, of count] step by simp
    next
      case 2
      then show ?thesis using Suc.hyps(1) [OF i(2), of "s\<lparr>io_hw := h\<rparr>" count] ptr step keep p
        by auto
    next
      case 3
      have "unat count = Suc (unat (count - 1))" using True by (simp add: unat_pred word_less_nat_alt)
      with 3 show ?thesis
        using Suc.hyps(1) [OF i(2), of "io_call (C_wake_up_process_iocache p) (s\<lparr>io_hw := h\<rparr>)" "count - 1"]
          ptr step keep p
        by (auto simp: io_call_def)
    qed
  qed
qed

lemma kick_all_keeps:
  assumes "storage_device D iocache_storage peek" and "x \<in> iocache_storage"
  shows "peek (snd (kick_all D cpu h)) x = peek h x"
proof -
  have w: "peek (iowrite32 D R_IOCACHE IOCACHE_REG_RX_KICK_ALL_CPU v h) x = peek h x" for v h
    unfolding iowrite32_def
    using storage_device.write_peek [OF assms(1) _ assms(2), of R_IOCACHE IOCACHE_REG_RX_KICK_ALL_CPU 4]
      span_low_outside [of IOCACHE_REG_RX_KICK_ALL_CPU 4] assms(2)
    by (auto simp: reg_offsets)
  note r = storage_device.read_keeps [OF assms]
  show ?thesis
    unfolding kick_all_def
    by (simp add: Let_def split_beta ioread32_def ioread64_def w r)
qed

lemma isr_rx_spec:
  assumes "storage_device D iocache_storage peek"
    and "kick_all D cpu (io_hw s) = ((count, msk), h)"
  shows "\<exists>h'. (\<forall>x\<in>iocache_storage. peek h' x = peek (io_hw s) x)
    \<and> iocache_isr_rx D cpu s = s\<lparr>io_hw := h', io_log := io_log s @
        map C_wake_up_process_iocache (take (unat count) (masked_ptrs (proc_ptr peek (io_hw s)) msk 0))
          @ [C_set_need_resched]\<rparr>"
proof -
  have keep: "peek h x = peek (io_hw s) x" if "x \<in> iocache_storage" for x
    using kick_all_keeps [OF assms(1) that, of cpu "io_hw s"] by (simp add: assms(2))
  have "proc_ptr peek h i = proc_ptr peek (io_hw s) i" if "i < 64" for i
    unfolding proc_ptr_def reg_val_def
    by (rule le_get_cong, rule keep) (use span_proc_ptr [OF that] in \<open>auto simp: subset_iff\<close>)
  with isr_rx_loop_wakes [OF assms(1), of "s\<lparr>io_hw := h\<rparr>" "proc_ptr peek (io_hw s)" msk 0 count] keep
  show ?thesis by (auto simp: iocache_isr_rx_def assms(2) io_call_def)
qed

text \<open>
  Property C10. What the receive interrupt does. The hardware answers the kick of a CPU
  with a number of rows and a mask of rows. The handler then wakes the processes whose
  pointers stand in the masked rows, in the order of the rows, each once; it skips rows
  without a process and stops when it has woken as many as the hardware said. Afterwards it
  asks for a reschedule. Nothing else of the driver's state changes, and no register that
  software owns.
\<close>

theorem iocache_isr_rx_wakes:
  assumes "storage_device D iocache_storage peek"
    and "kick_all D cpu (io_hw s) = ((count, msk), h)"
  shows "\<exists>h'. (\<forall>x\<in>iocache_storage. peek h' x = peek (io_hw s) x)
    \<and> iocache_isr_rx D cpu s = s\<lparr>io_hw := h', io_log := io_log s @
        map C_wake_up_process_iocache (take (unat count) (masked_ptrs (proc_ptr peek (io_hw s)) msk 0))
          @ [C_set_need_resched]\<rparr>"
  by (rule isr_rx_spec [OF assms])

text \<open>
  The zeroed structure that \<open>devm_kzalloc\<close> returns, and a register file in which rows 0
  and 2 belong to the tasks 7 and 9 and wait to be woken.
\<close>

definition zero_ring :: dma_ring where
  "zero_ring = \<lparr>dr_len = 0, dr_cpu = 0, dr_cpu_aligned = 0, dr_addr = 0, dr_addr_aligned = 0\<rparr>"

definition zero_iocache :: "'d \<Rightarrow> 'd iocache" where
  "zero_iocache h = \<lparr>io_hw = h, io_log = [],
     io_tasks = (\<lambda>_. \<lparr>t_iocache_id = 0, t_iocache_iomem = False, t_timer_set = False, t_to_period = 0\<rparr>),
     io_rx_irq = replicate NUM_CPUS 0, io_rx_hwirq = replicate NUM_CPUS 0,
     io_txcomp_irq = replicate NUM_CPUS 0, io_txcomp_hwirq = replicate NUM_CPUS 0,
     io_control_size = 0, io_control_phys = 0, io_ev_ctx = None, io_magic = 0,
     io_udp_tx = replicate IOCACHE_CACHE_ENTRY_COUNT zero_ring,
     io_udp_rx = replicate IOCACHE_CACHE_ENTRY_COUNT zero_ring,
     io_entry_ktime = 0, io_claim_ktime = 0, io_isr_ktime = 0, io_syscall_time = 0\<rparr>"

definition two_waiting :: "region \<Rightarrow> bytes_at" where
  "two_waiting = (\<lambda>r. (\<lambda>_. 0)(0x108 := 2, 0x110 := 5, 0x360 := 7, 0x560 := 9))"

lemma two_waiting_kick: "fst (kick_all ram_device 1 two_waiting) = (2, 5)"
  by (simp add: kick_all_def io_eval Let_def reg_offsets two_waiting_def le_put_def)

theorem iocache_isr_rx_wakes_witness:
  "io_log (iocache_isr_rx ram_device 1 (zero_iocache two_waiting)) =
     [C_wake_up_process_iocache 7, C_wake_up_process_iocache 9, C_set_need_resched]"
proof -
  let ?ptr = "proc_ptr (\<lambda>m (r, a). m r a) two_waiting"
  have "filter (bit (5 :: u64)) [0..<IOCACHE_CACHE_ENTRY_COUNT] = [0, 2]" by code_simp
  moreover have "?ptr 0 = 7" "?ptr 2 = 9"
    by (simp_all add: proc_ptr_def reg_val_def two_waiting_def reg_offsets IOCACHE_REG_def le_get_numeral)
  ultimately have "masked_ptrs ?ptr 5 0 = [7, 9]" by (simp add: masked_ptrs_def)
  then show ?thesis
    using iocache_isr_rx_wakes [OF ram_storage, of 1 "zero_iocache two_waiting" 2 5
        "snd (kick_all ram_device 1 two_waiting)"] two_waiting_kick
    by (auto simp: zero_iocache_def prod_eq_iff)
qed

end
