(* ===== verification/Iocache_Rings.thy ===== *)
theory Iocache_Rings
  imports Iocache_Driver
begin

text \<open>
  The DMA rings of the IOCache driver: what \<open>init_udp_rings\<close>, \<open>populate_ring_info\<close> and the
  freeing loop of \<open>iocache_remove\<close> do with them.
\<close>

section \<open>Alignment\<close>

lemma DMA_PTR_ALIGN_mask: "DMA_PTR_ALIGN p = (p + mask 6) AND NOT (mask 6)"
  by (simp add: DMA_PTR_ALIGN_def ALIGN_BYTES_def mask_eq_exp_minus_1)

text \<open>
  A ring fits in the buffer that was allocated for it, and begins at a multiple of 64 for the
  device; the CPU address is shifted by the same distance.
\<close>

definition ring_in_buffer :: "dma_ring \<Rightarrow> bool" where
  "ring_in_buffer r \<longleftrightarrow> 64 dvd unat (dr_addr_aligned r)
     \<and> unat (dr_addr r) \<le> unat (dr_addr_aligned r)
     \<and> unat (dr_addr_aligned r) + unat (dr_len r) \<le> unat (dr_addr r) + unat (dma_len (dr_len r))
     \<and> dr_cpu_aligned r - dr_cpu r = dr_addr_aligned r - dr_addr r"

lemma alloc_ring_in_buffer:
  assumes "unat addr + unat (dma_len IOCACHE_UDP_RING_SIZE) < 2 ^ 64"
  shows "ring_in_buffer (alloc_ring cpu addr)"
proof -
  have len: "unat (dma_len IOCACHE_UDP_RING_SIZE) = unat IOCACHE_UDP_RING_SIZE + 63"
    by (simp add: dma_len_def IOCACHE_UDP_RING_SIZE_def ALIGN_BYTES_def)
  have "unat addr + 63 < 2 ^ 64" using assms unfolding len by simp
  then have "unat (DMA_PTR_ALIGN addr) = (unat addr + (64 - 1)) div 64 * 64"
    unfolding DMA_PTR_ALIGN_mask using unat_align_up [of addr 6] by simp
  moreover note align_up_bounds [of 64 "unat addr"]
  ultimately show ?thesis by (simp add: ring_in_buffer_def alloc_ring_def Let_def len)
qed

section \<open>Allocation\<close>

definition dma_answer :: "dma_alloc \<Rightarrow> nat \<Rightarrow> u64 \<times> u64" where
  "dma_answer A n = A n (dma_len IOCACHE_UDP_RING_SIZE)"

definition ring_of :: "dma_alloc \<Rightarrow> nat \<Rightarrow> dma_ring" where
  "ring_of A n = (case dma_answer A n of (cpu, addr) \<Rightarrow> alloc_ring cpu addr)"

lemma init_pair_eq:
  "init_udp_ring_pair A i s =
     (if fst (dma_answer A (2 * i)) = 0 then
        (Some (- ENOMEM), s\<lparr>io_udp_tx := (io_udp_tx s)[i := failed_ring (snd (dma_answer A (2 * i))) (io_udp_tx s ! i)]\<rparr>)
      else if fst (dma_answer A (2 * i + 1)) = 0 then
        (Some (- ENOMEM), s\<lparr>io_udp_tx := (io_udp_tx s)[i := ring_of A (2 * i)],
           io_udp_rx := (io_udp_rx s)[i := failed_ring (snd (dma_answer A (2 * i + 1))) (io_udp_rx s ! i)]\<rparr>)
      else (None, s\<lparr>io_udp_tx := (io_udp_tx s)[i := ring_of A (2 * i)],
           io_udp_rx := (io_udp_rx s)[i := ring_of A (2 * i + 1)]\<rparr>))"
  by (simp add: init_udp_ring_pair_def dma_answer_def ring_of_def Let_def split: prod.split)

definition pair_ok :: "dma_alloc \<Rightarrow> nat \<Rightarrow> bool" where
  "pair_ok A i \<longleftrightarrow> fst (dma_answer A (2 * i)) \<noteq> 0 \<and> fst (dma_answer A (2 * i + 1)) \<noteq> 0"

text \<open>The state after the first \<open>n\<close> passes, if none of them failed.\<close>

definition rings_done :: "dma_alloc \<Rightarrow> nat \<Rightarrow> 'd iocache \<Rightarrow> 'd iocache" where
  "rings_done A n s = s\<lparr>io_udp_tx := map (\<lambda>i. ring_of A (2 * i)) [0..<n] @ drop n (io_udp_tx s),
     io_udp_rx := map (\<lambda>i. ring_of A (2 * i + 1)) [0..<n] @ drop n (io_udp_rx s)\<rparr>"

definition rings_wf :: "'d iocache \<Rightarrow> bool" where
  "rings_wf s \<longleftrightarrow> length (io_udp_tx s) = IOCACHE_CACHE_ENTRY_COUNT
     \<and> length (io_udp_rx s) = IOCACHE_CACHE_ENTRY_COUNT"

lemma rings_done_0: "rings_done A 0 s = s"
  by (simp add: rings_done_def)

lemma rings_done_Suc:
  assumes "rings_wf s" and "n < IOCACHE_CACHE_ENTRY_COUNT" and "pair_ok A n"
  shows "init_udp_ring_pair A n (rings_done A n s) = (None, rings_done A (Suc n) s)"
  using assms upt_update [of n "io_udp_tx s" "\<lambda>i. ring_of A (2 * i)"]
    upt_update [of n "io_udp_rx s" "\<lambda>i. ring_of A (2 * i + 1)"]
  by (simp add: init_pair_eq pair_ok_def rings_wf_def rings_done_def)

lemma for_pairs:
  assumes "rings_wf s" and "n \<le> IOCACHE_CACHE_ENTRY_COUNT" and "\<forall>i<n. pair_ok A i"
  shows "for_ret (init_udp_ring_pair A) [0..<n] s = (None, rings_done A n s)"
  using for_ret_upt_None [of n "init_udp_ring_pair A" "\<lambda>i. rings_done A i s"] rings_done_Suc [OF assms(1)] assms(2,3)
  by (simp add: rings_done_0)

lemma init_udp_rings_ok:
  assumes "rings_wf s" and "\<forall>i<IOCACHE_CACHE_ENTRY_COUNT. pair_ok A i"
  shows "init_udp_rings A s = (0, rings_done A IOCACHE_CACHE_ENTRY_COUNT s)"
  by (simp add: init_udp_rings_def for_pairs [OF assms(1) order_refl assms(2)])

lemma init_udp_rings_fails:
  assumes "rings_wf s" and "k < IOCACHE_CACHE_ENTRY_COUNT" and "\<forall>i<k. pair_ok A i" and "\<not> pair_ok A k"
  shows "init_udp_rings A s = (- ENOMEM, snd (init_udp_ring_pair A k (rings_done A k s)))"
proof -
  let ?s = "rings_done A k s"
  have "init_udp_ring_pair A k ?s = (Some (- ENOMEM), snd (init_udp_ring_pair A k ?s))"
    using assms(4) by (auto simp: init_pair_eq pair_ok_def)
  from for_ret_upt_Some [OF assms(2) for_pairs [OF assms(1) _ assms(3)] this] assms(2)
  show ?thesis by (simp add: init_udp_rings_def)
qed

text \<open>
  Property C20. Allocation of the rings either succeeds for all 128 buffers or stops at the
  first that fails. It returns 0 exactly if no allocation fails, and then every ring lies
  inside its own buffer, begins at a multiple of 64 bus addresses and is \<open>IOCACHE_UDP_RING_SIZE\<close>
  long; otherwise it returns \<open>-ENOMEM\<close>. No buffer may wrap around the end of the address
  space.
\<close>

theorem init_udp_rings_result:
  assumes "rings_wf s" and "\<forall>n<2 * IOCACHE_CACHE_ENTRY_COUNT.
      unat (snd (dma_answer A n)) + unat (dma_len IOCACHE_UDP_RING_SIZE) < 2 ^ 64"
  shows "fst (init_udp_rings A s) \<in> {0, - ENOMEM}
    \<and> (fst (init_udp_rings A s) = 0 \<longleftrightarrow> (\<forall>n<2 * IOCACHE_CACHE_ENTRY_COUNT. fst (dma_answer A n) \<noteq> 0))
    \<and> (fst (init_udp_rings A s) = 0 \<longrightarrow>
        (\<forall>r\<in>set (io_udp_tx (snd (init_udp_rings A s)) @ io_udp_rx (snd (init_udp_rings A s))).
           ring_in_buffer r \<and> dr_len r = IOCACHE_UDP_RING_SIZE \<and> dr_cpu r \<noteq> 0))"
proof (cases "\<forall>i<IOCACHE_CACHE_ENTRY_COUNT. pair_ok A i")
  case True
  then have all: "\<forall>n<2 * IOCACHE_CACHE_ENTRY_COUNT. fst (dma_answer A n) \<noteq> 0"
    unfolding all_less_double pair_ok_def .
  have ring: "ring_in_buffer (ring_of A n) \<and> dr_len (ring_of A n) = IOCACHE_UDP_RING_SIZE \<and> dr_cpu (ring_of A n) \<noteq> 0"
    if "n < 2 * IOCACHE_CACHE_ENTRY_COUNT" for n
    using alloc_ring_in_buffer [OF assms(2) [rule_format, OF that]] all that
    by (simp add: ring_of_def split_beta alloc_ring_def Let_def)
  have "io_udp_tx (rings_done A IOCACHE_CACHE_ENTRY_COUNT s) = map (\<lambda>i. ring_of A (2 * i)) [0..<IOCACHE_CACHE_ENTRY_COUNT]"
      "io_udp_rx (rings_done A IOCACHE_CACHE_ENTRY_COUNT s) = map (\<lambda>i. ring_of A (2 * i + 1)) [0..<IOCACHE_CACHE_ENTRY_COUNT]"
    using assms(1) by (simp_all add: rings_done_def rings_wf_def)
  moreover have "\<exists>n<2 * IOCACHE_CACHE_ENTRY_COUNT. r = ring_of A n"
    if "r \<in> set (io_udp_tx (rings_done A IOCACHE_CACHE_ENTRY_COUNT s) @ io_udp_rx (rings_done A IOCACHE_CACHE_ENTRY_COUNT s))" for r
  proof -
    from that calculation obtain i where "i < IOCACHE_CACHE_ENTRY_COUNT"
        "r = ring_of A (2 * i) \<or> r = ring_of A (2 * i + 1)"
      by auto
    moreover from this(1) have "2 * i < 2 * IOCACHE_CACHE_ENTRY_COUNT" "2 * i + 1 < 2 * IOCACHE_CACHE_ENTRY_COUNT"
      by simp_all
    ultimately show ?thesis by blast
  qed
  with ring all show ?thesis unfolding init_udp_rings_ok [OF assms(1) True] fst_conv snd_conv by blast
next
  case False
  from first_bad [OF this] obtain k where k: "k < IOCACHE_CACHE_ENTRY_COUNT" "\<not> pair_ok A k" "\<forall>i<k. pair_ok A i"
    by blast
  have "\<not> (\<forall>n<2 * IOCACHE_CACHE_ENTRY_COUNT. fst (dma_answer A n) \<noteq> 0)"
    using False unfolding all_less_double pair_ok_def .
  then show ?thesis unfolding init_udp_rings_fails [OF assms(1) k(1,3,2)] by simp
qed

text \<open>An allocator that hands out buffers 64 KB apart.\<close>

definition demo_alloc :: dma_alloc where
  "demo_alloc n len = (of_nat (0x80000000 + n * 0x10000), of_nat (0x40000000 + n * 0x10000))"

lemma demo_alloc_answer:
  assumes "n < 2 * IOCACHE_CACHE_ENTRY_COUNT"
  shows "unat (fst (dma_answer demo_alloc n)) = 0x80000000 + n * 0x10000"
    and "unat (snd (dma_answer demo_alloc n)) = 0x40000000 + n * 0x10000"
  using assms
  by (simp_all add: dma_answer_def demo_alloc_def IOCACHE_CACHE_ENTRY_COUNT_def unsigned_of_nat
      take_bit_nat_eq_self del: of_nat_add of_nat_mult)

lemma demo_alloc_ok:
  "n < 2 * IOCACHE_CACHE_ENTRY_COUNT \<Longrightarrow> fst (dma_answer demo_alloc n) \<noteq> 0"
  "n < 2 * IOCACHE_CACHE_ENTRY_COUNT \<Longrightarrow>
     unat (snd (dma_answer demo_alloc n)) + unat (dma_len IOCACHE_UDP_RING_SIZE) < 2 ^ 64"
  using demo_alloc_answer [of n]
  by (auto simp: dma_len_def IOCACHE_UDP_RING_SIZE_def ALIGN_BYTES_def IOCACHE_CACHE_ENTRY_COUNT_def)

lemma zero_iocache_rings_wf: "rings_wf (zero_iocache h)"
  by (simp add: rings_wf_def zero_iocache_def)

theorem init_udp_rings_result_witness:
  "fst (init_udp_rings demo_alloc (zero_iocache ())) = 0
   \<and> list_all ring_in_buffer (io_udp_tx (snd (init_udp_rings demo_alloc (zero_iocache ()))))"
  using init_udp_rings_result [of "zero_iocache ()" demo_alloc] zero_iocache_rings_wf [of "()"] demo_alloc_ok
  by (auto simp: list_all_iff)

section \<open>Telling the device\<close>

definition ring_writes :: "'d iocache \<Rightarrow> nat \<Rightarrow> wr list" where
  "ring_writes s i = [(R_IOCACHE, 8, IOCACHE_REG_ENABLED (int i), 0),
     (R_IOCACHE, 8, IOCACHE_REG_RX_RING_ADDR (int i), dr_addr_aligned (io_udp_rx s ! i)),
     (R_IOCACHE, 4, IOCACHE_REG_RX_RING_SIZE (int i), IOCACHE_UDP_RING_SIZE),
     (R_IOCACHE, 8, IOCACHE_REG_TX_RING_ADDR (int i), dr_addr_aligned (io_udp_tx s ! i)),
     (R_IOCACHE, 4, IOCACHE_REG_TX_RING_SIZE (int i), IOCACHE_UDP_RING_SIZE)]"

definition table_writes :: "'d iocache \<Rightarrow> wr list" where
  "table_writes s = concat (map (ring_writes s) [0..<IOCACHE_CACHE_ENTRY_COUNT])"

lemma populate_ring_writes: "populate_ring D i s = s\<lparr>io_hw := fold (do_write D) (ring_writes s i) (io_hw s)\<rparr>"
  by (simp add: populate_ring_def ring_writes_def Let_def iowrite64_def iowrite32_def
      IOCACHE_UDP_RING_SIZE_def)

lemma ring_writes_hw [simp]: "ring_writes (s\<lparr>io_hw := h\<rparr>) = ring_writes s"
  by (simp add: ring_writes_def fun_eq_iff)

lemma populate_writes:
  "populate_ring_info D s = s\<lparr>io_hw := fold (do_write D) (table_writes s) (io_hw s)\<rparr>"
proof -
  have "fold (populate_ring D) is s = s\<lparr>io_hw := fold (do_write D) (concat (map (ring_writes s) is)) (io_hw s)\<rparr>"
    for "is" and s :: "'a iocache"
    by (induction "is" arbitrary: s) (simp_all add: populate_ring_writes)
  then show ?thesis by (simp add: populate_ring_info_def table_writes_def)
qed

text \<open>Each write goes to a software field of a row.\<close>

lemma table_write_row:
  assumes "w \<in> set (table_writes s)"
  shows "\<exists>i off n v. i < 64 \<and> w = (R_IOCACHE, n, IOCACHE_REG (int i) off, v) \<and> w \<in> set (ring_writes s i)
    \<and> (off, n) \<in> {(0, 8), (0x70, 8), (0x78, 4), (0x80, 8), (0x88, 4)}"
proof -
  from assms obtain i where "i < 64" "w \<in> set (ring_writes s i)"
    by (auto simp: table_writes_def IOCACHE_CACHE_ENTRY_COUNT_def simp del: upt_Suc)
  then show ?thesis by (intro exI [of _ i]) (auto simp: ring_writes_def reg_offsets)
qed

lemma table_writes_in: "\<forall>w\<in>set (table_writes s). wr_in iocache_storage w"
proof
  fix w assume "w \<in> set (table_writes s)"
  from table_write_row [OF this] obtain i off n v where "i < 64"
      "w = (R_IOCACHE, n, IOCACHE_REG (int i) off, v)"
      "(off, n) \<in> {(0, 8), (0x70, 8), (0x78, 4), (0x80, 8), (0x88, 4)}"
    by blast
  moreover from this have "span R_IOCACHE (IOCACHE_REG (int i) off) n \<subseteq> iocache_storage"
    by (intro span_row_storage) auto
  ultimately show "wr_in iocache_storage w" by simp
qed

lemma table_writes_apart:
  assumes "w \<in> set (table_writes s)" and "i < 64" and "(R_IOCACHE, n, IOCACHE_REG (int i) off, v) \<in> set (ring_writes s i)"
    and "(off, n) \<in> {(0, 8), (0x70, 8), (0x78, 4), (0x80, 8), (0x88, 4)}"
  shows "w = (R_IOCACHE, n, IOCACHE_REG (int i) off, v) \<or> apart w R_IOCACHE (IOCACHE_REG (int i) off) n"
proof -
  from table_write_row [OF assms(1)] obtain j off' n' v' where j: "j < 64"
      "w = (R_IOCACHE, n', IOCACHE_REG (int j) off', v')" "w \<in> set (ring_writes s j)"
      "(off', n') \<in> {(0, 8), (0x70, 8), (0x78, 4), (0x80, 8), (0x88, 4)}"
    by blast
  show ?thesis
  proof (cases "int j \<noteq> int i \<or> off \<noteq> off'")
    case True
    with assms(2,4) j have "apart w R_IOCACHE (IOCACHE_REG (int i) off) n"
      unfolding j(2) by (intro rows_apart) auto
    then show ?thesis ..
  next
    case False
    with assms(3) j show ?thesis by (auto simp: ring_writes_def reg_offsets IOCACHE_REG_def)
  qed
qed

text \<open>
  After \<open>populate_ring_info\<close> the table of the device describes the rings of the driver: for
  each of the 64 rows the row is disabled, and the addresses and sizes of its two rings are
  those the driver allocated.
\<close>

lemma populate_regs:
  assumes "storage_device D iocache_storage peek" and "i < 64"
  shows "reg_val peek (io_hw (populate_ring_info D s)) R_IOCACHE (IOCACHE_REG_ENABLED (int i)) 8 = 0
    \<and> reg_val peek (io_hw (populate_ring_info D s)) R_IOCACHE (IOCACHE_REG_RX_RING_ADDR (int i)) 8 =
        dr_addr_aligned (io_udp_rx s ! i)
    \<and> reg_val peek (io_hw (populate_ring_info D s)) R_IOCACHE (IOCACHE_REG_TX_RING_ADDR (int i)) 8 =
        dr_addr_aligned (io_udp_tx s ! i)
    \<and> reg_val peek (io_hw (populate_ring_info D s)) R_IOCACHE (IOCACHE_REG_RX_RING_SIZE (int i)) 4 = 32768
    \<and> reg_val peek (io_hw (populate_ring_info D s)) R_IOCACHE (IOCACHE_REG_TX_RING_SIZE (int i)) 4 = 32768"
proof -
  have reg: "reg_val peek (io_hw (populate_ring_info D s)) R_IOCACHE (IOCACHE_REG (int i) off) n = take_bit (8 * n) v"
    if "(R_IOCACHE, n, IOCACHE_REG (int i) off, v) \<in> set (ring_writes s i)"
      and "(off, n) \<in> {(0, 8), (0x70, 8), (0x78, 4), (0x80, 8), (0x88, 4)}" for off n v
  proof -
    have "span R_IOCACHE (IOCACHE_REG (int i) off) n \<subseteq> iocache_storage"
      using that(2) assms(2) by (intro span_row_storage) auto
    moreover have "(R_IOCACHE, n, IOCACHE_REG (int i) off, v) \<in> set (table_writes s)"
      using that(1) assms(2) by (auto simp: table_writes_def IOCACHE_CACHE_ENTRY_COUNT_def simp del: upt_Suc)
    moreover have "\<forall>w\<in>set (table_writes s). wr_in iocache_storage w \<and>
        (w = (R_IOCACHE, n, IOCACHE_REG (int i) off, v) \<or> apart w R_IOCACHE (IOCACHE_REG (int i) off) n)"
      using table_writes_in table_writes_apart [OF _ assms(2) that] by blast
    ultimately show ?thesis
      using storage_device.reg_val_writes [OF assms(1)] by (simp add: populate_writes)
  qed
  have t64: "take_bit 64 (v :: u64) = v" for v by (rule take_bit_word_eq_self) simp
  show ?thesis
    using reg [of 8 0 0] reg [of 8 "0x70" "dr_addr_aligned (io_udp_rx s ! i)"]
      reg [of 4 "0x78" IOCACHE_UDP_RING_SIZE] reg [of 8 "0x80" "dr_addr_aligned (io_udp_tx s ! i)"]
      reg [of 4 "0x88" IOCACHE_UDP_RING_SIZE]
    by (simp add: ring_writes_def reg_offsets t64 IOCACHE_UDP_RING_SIZE_def)
qed

section \<open>Freeing\<close>

definition ring_free :: "dma_ring \<Rightarrow> ioc_call list" where
  "ring_free r = (if dr_cpu r = 0 then [] else [C_dma_free (dma_len (dr_len r)) (dr_cpu r) (dr_addr r)])"

lemma free_ring_log: "free_ring r s = s\<lparr>io_log := io_log s @ ring_free r\<rparr>"
  by (simp add: free_ring_def ring_free_def io_call_def)

lemma free_rings_log:
  "free_rings s = s\<lparr>io_log := io_log s @
     concat (map (\<lambda>i. ring_free (io_udp_rx s ! i) @ ring_free (io_udp_tx s ! i)) [0..<IOCACHE_CACHE_ENTRY_COUNT])\<rparr>"
proof -
  have "fold (\<lambda>i s. free_ring (io_udp_tx s ! i) (free_ring (io_udp_rx s ! i) s)) is s = s\<lparr>io_log := io_log s @
     concat (map (\<lambda>i. ring_free (io_udp_rx s ! i) @ ring_free (io_udp_tx s ! i)) is)\<rparr>" for "is" and s :: "'a iocache"
    by (induction "is" arbitrary: s) (simp_all add: free_ring_log)
  then show ?thesis by (simp add: free_rings_def)
qed

end
