(* ===== verification/Iocache_Setup.thy ===== *)
theory Iocache_Setup
  imports Iocache_Rings
begin

text \<open>
  Bringing the IOCache driver up and down: the interrupt lines and their PLIC priorities and
  fast-path handlers (iocache_plic.c), the device tree, the rings, and the probe and remove
  functions (iocache.c). What the device tree, the interrupt subsystem and the allocator
  answer is the parameter \<open>E\<close>.
\<close>

section \<open>The answers of the platform\<close>

record ioc_env =
  ie_of_node :: bool
  ie_kzalloc :: bool                          \<comment> \<open>\<open>devm_kzalloc\<close> is not NULL\<close>
  ie_of_address_to_resource :: "int \<times> resource"
  ie_ioremap_resource :: "int option"         \<comment> \<open>the \<open>PTR_ERR\<close>, None if mapped\<close>
  ie_irq_of_parse_and_map :: "nat \<Rightarrow> int"
  ie_request_irq :: "int \<Rightarrow> int"
  ie_find_compatible_node :: "string \<Rightarrow> bool"
  ie_of_iomap :: bool
  ie_irq_get_irq_data :: "u32 \<Rightarrow> u64 option"  \<comment> \<open>the \<open>hwirq\<close> of the \<open>irq_data\<close>, None if NULL\<close>
  ie_plic_register_source_handler :: "u32 \<Rightarrow> int"
  ie_dma_alloc :: dma_alloc
  ie_uninit_ret :: int                        \<comment> \<open>what an uninitialised \<open>int ret\<close> holds\<close>

section \<open>PLIC\<close>

text \<open>\<open>4u * hwirq\<close> is computed on 32 bits and added to the base.\<close>

definition PLIC_PRIO_OFF :: "u32 \<Rightarrow> u64" where
  [reg_offsets]: "PLIC_PRIO_OFF hwirq = ucast (0x00000000 + 4 * hwirq)"

definition MAX_PRIORITY :: u32 where "MAX_PRIORITY = 0xFFFFFFFF"

definition get_hwirq :: "ioc_env \<Rightarrow> u32 \<Rightarrow> u32" where
  "get_hwirq E virq = (case ie_irq_get_irq_data E virq of Some d \<Rightarrow> ucast d | None \<Rightarrow> 0)"

definition plic_set_src_prio :: "'d device \<Rightarrow> u32 \<Rightarrow> u32 \<Rightarrow> 'd iocache \<Rightarrow> 'd iocache" where
  "plic_set_src_prio D hwirq want_prio s =
     (let h = iowrite32 D R_PLIC (PLIC_PRIO_OFF hwirq) want_prio (io_hw s);
          (got, h) = ioread32 D R_PLIC (PLIC_PRIO_OFF hwirq) h
      in s\<lparr>io_hw := h\<rparr>)"

definition map_plic_base :: "ioc_env \<Rightarrow> int" where
  "map_plic_base E =
     (if \<not> ie_find_compatible_node E ''riscv,plic0'' \<and> \<not> ie_find_compatible_node E ''sifive,plic-1.0.0''
      then - ENODEV
      else if ie_of_iomap E then 0 else - ENOMEM)"

text \<open>
  One pass of the loop of \<open>plic_set_prio\<close>. The function returns \<open>ret\<close> where a hwirq is not
  resolved, and \<open>ret\<close> is then 0, the result of the mapping.
\<close>

definition plic_set_prio_cpu ::
    "ioc_env \<Rightarrow> 'd device \<Rightarrow> int \<Rightarrow> nat \<Rightarrow> 'd iocache \<Rightarrow> int option \<times> 'd iocache" where
  "plic_set_prio_cpu E D ret i s =
     (let hwirq = get_hwirq E (word_of_int (io_rx_irq s ! i))
      in if hwirq = 0 then (Some ret, s)
      else
        (let s = s\<lparr>io_rx_hwirq := (io_rx_hwirq s)[i := sint hwirq]\<rparr>;
             s = plic_set_src_prio D hwirq MAX_PRIORITY s;
             hwirq = get_hwirq E (word_of_int (io_txcomp_irq s ! i))
         in if hwirq = 0 then (Some ret, s)
         else
           (let s = s\<lparr>io_txcomp_hwirq := (io_txcomp_hwirq s)[i := sint hwirq]\<rparr>
            in (None, plic_set_src_prio D hwirq MAX_PRIORITY s))))"

definition plic_set_prio :: "ioc_env \<Rightarrow> 'd device \<Rightarrow> 'd iocache \<Rightarrow> int \<times> 'd iocache" where
  "plic_set_prio E D s =
     (let ret = map_plic_base E
      in if ret \<noteq> 0 then (ret, s)
      else
        (case for_ret (plic_set_prio_cpu E D ret) [0..<NUM_CPUS] s of
           (Some ret, s) \<Rightarrow> (ret, s)
         | (None, s) \<Rightarrow> (0, s)))"

text \<open>
  One pass of the loop of \<open>plic_register_fast_path\<close>. The state carries \<open>ret\<close>, which has no
  value before the first registration.
\<close>

definition plic_register_cpu ::
    "ioc_env \<Rightarrow> nat \<Rightarrow> int \<times> 'd iocache \<Rightarrow> int option \<times> (int \<times> 'd iocache)" where
  "plic_register_cpu E i rs =
     (case rs of (ret, s) \<Rightarrow>
      let hwirq = get_hwirq E (word_of_int (io_rx_irq s ! i))
      in if hwirq = 0 then (Some ret, ret, s)
      else
        (let s = s\<lparr>io_rx_hwirq := (io_rx_hwirq s)[i := sint hwirq]\<rparr>;
             ret = ie_plic_register_source_handler E hwirq;
             s = io_call (C_plic_register hwirq Isr_rx) s
         in if ret \<noteq> 0 then (Some ret, ret, s)
         else
           (let hwirq = get_hwirq E (word_of_int (io_txcomp_irq s ! i))
            in if hwirq = 0 then (Some ret, ret, s)
            else
              (let s = s\<lparr>io_txcomp_hwirq := (io_txcomp_hwirq s)[i := sint hwirq]\<rparr>;
                   ret = ie_plic_register_source_handler E hwirq;
                   s = io_call (C_plic_register hwirq Isr_txcomp) s
               in if ret \<noteq> 0 then (Some ret, ret, s) else (None, ret, s)))))"

definition plic_register_fast_path :: "ioc_env \<Rightarrow> 'd iocache \<Rightarrow> int \<times> 'd iocache" where
  "plic_register_fast_path E s =
     (case for_ret (plic_register_cpu E) [0..<NUM_CPUS] (ie_uninit_ret E, s) of
        (Some ret, _, s) \<Rightarrow> (ret, s)
      | (None, _, s) \<Rightarrow> (0, s))"

definition plic_unregister_fast_path :: "'d iocache \<Rightarrow> 'd iocache" where
  "plic_unregister_fast_path s =
     fold (\<lambda>i s. io_call (C_plic_unregister (io_txcomp_hwirq s ! i))
                   (io_call (C_plic_unregister (io_rx_hwirq s ! i)) s)) [0..<NUM_CPUS] s"

section \<open>Device tree and interrupts\<close>

definition iocache_parse_addr :: "ioc_env \<Rightarrow> 'd iocache \<Rightarrow> int \<times> 'd iocache" where
  "iocache_parse_addr E s =
     (let (err, regs) = ie_of_address_to_resource E
      in if err \<noteq> 0 then (err, s)
      else
        (case ie_ioremap_resource E of
           Some e \<Rightarrow> (e, s)
         | None \<Rightarrow> (0, s\<lparr>io_control_phys := res_start regs, io_control_size := res_size regs\<rparr>)))"

definition parse_irq_cpu :: "ioc_env \<Rightarrow> nat \<Rightarrow> 'd iocache \<Rightarrow> int option \<times> 'd iocache" where
  "parse_irq_cpu E i s =
     (let irq = ie_irq_of_parse_and_map E (2 * i);
          s = s\<lparr>io_rx_irq := (io_rx_irq s)[i := irq]\<rparr>
      in if irq = 0 then (Some (- EINVAL), s)
      else
        (let err = ie_request_irq E irq;
             s = io_call (C_request_irq irq Isr_rx) s
         in if err \<noteq> 0 then (Some err, s)
         else
           (let s = io_call (C_irq_set_affinity irq i) s;
                irq = ie_irq_of_parse_and_map E (2 * i + 1);
                s = s\<lparr>io_txcomp_irq := (io_txcomp_irq s)[i := irq]\<rparr>
            in if irq = 0 then (Some (- EINVAL), s)
            else
              (let err = ie_request_irq E irq;
                   s = io_call (C_request_irq irq Isr_txcomp) s
               in if err \<noteq> 0 then (Some err, s)
               else (None, io_call (C_irq_set_affinity irq i) s)))))"

definition iocache_parse_irq :: "ioc_env \<Rightarrow> 'd iocache \<Rightarrow> int \<times> 'd iocache" where
  "iocache_parse_irq E s =
     (case for_ret (parse_irq_cpu E) [0..<NUM_CPUS] s of
        (Some ret, s) \<Rightarrow> (ret, s)
      | (None, s) \<Rightarrow> (0, s))"

section \<open>Probe and remove\<close>

definition set_intmasks :: "'d device \<Rightarrow> 'd iocache \<Rightarrow> 'd iocache" where
  "set_intmasks D s = fold (\<lambda>i s. set_intmask_txcomp D (int i) (set_intmask_rx D (int i) s)) [0..<NUM_CPUS] s"

definition clear_intmasks :: "'d device \<Rightarrow> 'd iocache \<Rightarrow> 'd iocache" where
  "clear_intmasks D s =
     fold (\<lambda>i s. clear_intmask_txcomp D (int i) (clear_intmask_rx D (int i) s)) [0..<NUM_CPUS] s"

text \<open>\<open>s\<close> is the zeroed structure. The result of \<open>misc_register\<close> is not looked at.\<close>

definition iocache_probe :: "ioc_env \<Rightarrow> 'd device \<Rightarrow> 'd iocache \<Rightarrow> int \<times> 'd iocache" where
  "iocache_probe E D s =
     (if \<not> ie_of_node E then (- ENODEV, s)
      else if \<not> ie_kzalloc E then (- ENOMEM, s)
      else
        (case iocache_parse_addr E (s\<lparr>io_magic := MAGIC_CHAR\<rparr>) of (ret, s) \<Rightarrow>
         if ret < 0 then (ret, s)
         else
           (case iocache_parse_irq E s of (ret, s) \<Rightarrow>
            if ret < 0 then (ret, s)
            else
              (case plic_set_prio E D s of (ret, s) \<Rightarrow>
               if ret \<noteq> 0 then (ret, s)
               else
                 (case init_udp_rings (ie_dma_alloc E) (set_intmasks D (io_call C_register_iocache_forall s)) of
                    (ret, s) \<Rightarrow>
                  if ret \<noteq> 0 then (ret, s)
                  else
                    (case plic_register_fast_path E (populate_ring_info D s) of (ret, s) \<Rightarrow>
                     if ret \<noteq> 0 then (ret, s)
                     else (0, io_call C_misc_register s)))))))"

definition iocache_remove :: "'d device \<Rightarrow> 'd iocache option \<Rightarrow> int \<times> 'd iocache option" where
  "iocache_remove D drvdata =
     (case drvdata of
        None \<Rightarrow> (0, None)
      | Some s \<Rightarrow>
          (let s = plic_unregister_fast_path s;
               s = io_call C_misc_deregister s;
               s = clear_intmasks D s
           in (0, Some (free_rings s))))"

section \<open>Interrupt lines\<close>

definition irq_events :: "ioc_env \<Rightarrow> nat \<Rightarrow> ioc_call list" where
  "irq_events E i =
     [C_request_irq (ie_irq_of_parse_and_map E (2 * i)) Isr_rx,
      C_irq_set_affinity (ie_irq_of_parse_and_map E (2 * i)) i,
      C_request_irq (ie_irq_of_parse_and_map E (2 * i + 1)) Isr_txcomp,
      C_irq_set_affinity (ie_irq_of_parse_and_map E (2 * i + 1)) i]"

definition line_ok :: "ioc_env \<Rightarrow> nat \<Rightarrow> bool" where
  "line_ok E n \<longleftrightarrow> ie_irq_of_parse_and_map E n \<noteq> 0 \<and> ie_request_irq E (ie_irq_of_parse_and_map E n) = 0"

definition irqs_done :: "ioc_env \<Rightarrow> nat \<Rightarrow> 'd iocache \<Rightarrow> 'd iocache" where
  "irqs_done E n s = s\<lparr>
     io_rx_irq := map (\<lambda>i. ie_irq_of_parse_and_map E (2 * i)) [0..<n] @ drop n (io_rx_irq s),
     io_txcomp_irq := map (\<lambda>i. ie_irq_of_parse_and_map E (2 * i + 1)) [0..<n] @ drop n (io_txcomp_irq s),
     io_log := io_log s @ concat (map (irq_events E) [0..<n])\<rparr>"

text \<open>The four arrays of interrupt numbers have one entry per CPU.\<close>

definition irqs_wf :: "'d iocache \<Rightarrow> bool" where
  "irqs_wf s \<longleftrightarrow> length (io_rx_irq s) = NUM_CPUS \<and> length (io_rx_hwirq s) = NUM_CPUS
     \<and> length (io_txcomp_irq s) = NUM_CPUS \<and> length (io_txcomp_hwirq s) = NUM_CPUS"

lemma parse_irq_cpu_ok:
  assumes "irqs_wf s" and "n < NUM_CPUS" and "line_ok E (2 * n)" and "line_ok E (2 * n + 1)"
  shows "parse_irq_cpu E n (irqs_done E n s) = (None, irqs_done E (Suc n) s)"
  using assms upt_update [of n "io_rx_irq s" "\<lambda>i. ie_irq_of_parse_and_map E (2 * i)"]
    upt_update [of n "io_txcomp_irq s" "\<lambda>i. ie_irq_of_parse_and_map E (2 * i + 1)"]
  by (simp add: parse_irq_cpu_def Let_def io_call_def line_ok_def irqs_wf_def irqs_done_def irq_events_def)

lemma parse_irq_cpu_fails:
  assumes "\<not> (line_ok E (2 * n) \<and> line_ok E (2 * n + 1))"
  shows "\<exists>r. fst (parse_irq_cpu E n s) = Some r \<and> r \<noteq> 0"
  using assms by (auto simp: parse_irq_cpu_def Let_def line_ok_def)

lemma parse_irq_prefix:
  assumes "irqs_wf s" and "n \<le> NUM_CPUS" and "\<forall>i<n. line_ok E (2 * i) \<and> line_ok E (2 * i + 1)"
  shows "for_ret (parse_irq_cpu E) [0..<n] s = (None, irqs_done E n s)"
  using for_ret_upt_None [of n "parse_irq_cpu E" "\<lambda>i. irqs_done E i s"] parse_irq_cpu_ok [OF assms(1)] assms(2,3)
  by (simp add: irqs_done_def)

text \<open>
  \<open>iocache_parse_irq\<close> returns 0 exactly if all eight interrupt lines can be
  mapped and requested. Then each CPU has its own receive line and its own completion line,
  each requested with its handler and steered to that CPU, in this order, and the driver
  keeps the numbers. Otherwise it returns an error.
\<close>

lemma iocache_parse_irq_steers:
  assumes "irqs_wf s"
  shows "(fst (iocache_parse_irq E s) = 0 \<longleftrightarrow> (\<forall>n<2 * NUM_CPUS. line_ok E n))
    \<and> (fst (iocache_parse_irq E s) = 0 \<longrightarrow> snd (iocache_parse_irq E s) = s\<lparr>
         io_rx_irq := map (\<lambda>i. ie_irq_of_parse_and_map E (2 * i)) [0..<NUM_CPUS],
         io_txcomp_irq := map (\<lambda>i. ie_irq_of_parse_and_map E (2 * i + 1)) [0..<NUM_CPUS],
         io_log := io_log s @ concat (map (irq_events E) [0..<NUM_CPUS])\<rparr>)"
proof -
  note even_odd = all_less_double [of NUM_CPUS "line_ok E"]
  note pre = parse_irq_prefix [OF assms]
  show ?thesis
  proof (cases "\<forall>i<NUM_CPUS. line_ok E (2 * i) \<and> line_ok E (2 * i + 1)")
    case True
    with pre [of NUM_CPUS] assms show ?thesis
      by (simp add: even_odd iocache_parse_irq_def irqs_done_def irqs_wf_def)
  next
    case False
    obtain k where k: "k < NUM_CPUS" "\<not> (line_ok E (2 * k) \<and> line_ok E (2 * k + 1))"
        "\<forall>i<k. line_ok E (2 * i) \<and> line_ok E (2 * i + 1)"
      using first_bad [OF False] by blast
    then obtain r s' where "parse_irq_cpu E k (irqs_done E k s) = (Some r, s')" "r \<noteq> 0"
      using parse_irq_cpu_fails [OF k(2), of "irqs_done E k s"] by (metis prod.collapse)
    with for_ret_upt_Some [OF k(1) pre [OF less_imp_le [OF k(1)] k(3)]] False show ?thesis
      by (auto simp: even_odd iocache_parse_irq_def)
  qed
qed

text \<open>A platform on which everything is granted: line \<open>n\<close> is interrupt \<open>n + 16\<close>,
  and the hardware interrupts are odd.\<close>

definition demo_ioc_env :: ioc_env where
  "demo_ioc_env = \<lparr>ie_of_node = True, ie_kzalloc = True,
     ie_of_address_to_resource = (0, \<lparr>res_start = 0x10040000, res_size = 0x8000\<rparr>),
     ie_ioremap_resource = None, ie_irq_of_parse_and_map = (\<lambda>n. int n + 16), ie_request_irq = (\<lambda>_. 0),
     ie_find_compatible_node = (\<lambda>n. n = ''riscv,plic0''), ie_of_iomap = True,
     ie_irq_get_irq_data = (\<lambda>v. Some (push_bit 1 (ucast v) OR 1)), ie_plic_register_source_handler = (\<lambda>_. 0),
     ie_dma_alloc = demo_alloc, ie_uninit_ret = - 1\<rparr>"

lemma zero_iocache_irqs_wf: "irqs_wf (zero_iocache h)"
  by (simp add: irqs_wf_def zero_iocache_def)

lemma iocache_parse_irq_steers_witness:
  "fst (iocache_parse_irq demo_ioc_env (zero_iocache ())) = 0
   \<and> C_irq_set_affinity 22 3 \<in> set (io_log (snd (iocache_parse_irq demo_ioc_env (zero_iocache ()))))"
proof -
  have "\<forall>n<2 * NUM_CPUS. line_ok demo_ioc_env n" by (simp add: line_ok_def demo_ioc_env_def)
  with iocache_parse_irq_steers [OF zero_iocache_irqs_wf, of demo_ioc_env "()"] show ?thesis
    by (auto simp: irq_events_def demo_ioc_env_def NUM_CPUS_def intro!: bexI [of _ 3])
qed

section \<open>The fast path of the PLIC\<close>

definition rx_hw :: "ioc_env \<Rightarrow> 'd iocache \<Rightarrow> nat \<Rightarrow> u32" where
  "rx_hw E s i = get_hwirq E (word_of_int (io_rx_irq s ! i))"

definition tx_hw :: "ioc_env \<Rightarrow> 'd iocache \<Rightarrow> nat \<Rightarrow> u32" where
  "tx_hw E s i = get_hwirq E (word_of_int (io_txcomp_irq s ! i))"

definition source_ok :: "ioc_env \<Rightarrow> u32 \<Rightarrow> bool" where
  "source_ok E hwirq \<longleftrightarrow> hwirq \<noteq> 0 \<and> ie_plic_register_source_handler E hwirq = 0"

definition plic_done :: "ioc_env \<Rightarrow> nat \<Rightarrow> int \<times> 'd iocache \<Rightarrow> int \<times> 'd iocache" where
  "plic_done E n rs = (case rs of (ret, s) \<Rightarrow> (if n = 0 then ret else 0, s\<lparr>
     io_rx_hwirq := map (\<lambda>i. sint (rx_hw E s i)) [0..<n] @ drop n (io_rx_hwirq s),
     io_txcomp_hwirq := map (\<lambda>i. sint (tx_hw E s i)) [0..<n] @ drop n (io_txcomp_hwirq s),
     io_log := io_log s @ concat (map (\<lambda>i. [C_plic_register (rx_hw E s i) Isr_rx,
                                            C_plic_register (tx_hw E s i) Isr_txcomp]) [0..<n])\<rparr>))"

lemma plic_register_cpu_ok:
  assumes "irqs_wf s" and "n < NUM_CPUS" and "source_ok E (rx_hw E s n)" and "source_ok E (tx_hw E s n)"
  shows "plic_register_cpu E n (plic_done E n (ret, s)) = (None, plic_done E (Suc n) (ret, s))"
  using assms upt_update [of n "io_rx_hwirq s" "\<lambda>i. sint (rx_hw E s i)"]
    upt_update [of n "io_txcomp_hwirq s" "\<lambda>i. sint (tx_hw E s i)"]
  by (simp add: plic_register_cpu_def Let_def io_call_def source_ok_def irqs_wf_def plic_done_def
      rx_hw_def tx_hw_def)

lemma plic_register_prefix:
  assumes "irqs_wf s" and "n \<le> NUM_CPUS" and "\<forall>i<n. source_ok E (rx_hw E s i) \<and> source_ok E (tx_hw E s i)"
  shows "for_ret (plic_register_cpu E) [0..<n] (ret, s) = (None, plic_done E n (ret, s))"
  using for_ret_upt_None [of n "plic_register_cpu E" "\<lambda>i. plic_done E i (ret, s)"]
    plic_register_cpu_ok [OF assms(1)] assms(2,3)
  by (simp add: plic_done_def)

lemma plic_unregister_log:
  "plic_unregister_fast_path s = s\<lparr>io_log := io_log s @ concat (map (\<lambda>i.
     [C_plic_unregister (io_rx_hwirq s ! i), C_plic_unregister (io_txcomp_hwirq s ! i)]) [0..<NUM_CPUS])\<rparr>"
proof -
  have "fold (\<lambda>i s. io_call (C_plic_unregister (io_txcomp_hwirq s ! i))
          (io_call (C_plic_unregister (io_rx_hwirq s ! i)) s)) is s = s\<lparr>io_log := io_log s @ concat (map (\<lambda>i.
     [C_plic_unregister (io_rx_hwirq s ! i), C_plic_unregister (io_txcomp_hwirq s ! i)]) is)\<rparr>"
    for "is" and s :: "'a iocache"
    by (induction "is" arbitrary: s) (simp_all add: io_call_def)
  then show ?thesis by (simp add: plic_unregister_fast_path_def)
qed

text \<open>
  The fast path of the PLIC is registered and taken down line by line. If all
  eight interrupts resolve to hardware interrupts and the PLIC accepts them, then
  \<open>plic_register_fast_path\<close> returns 0 and has registered the receive handler for the receive
  line and the completion handler for the completion line of each CPU, and unregistering
  afterwards names exactly these lines, in the same order.
\<close>

lemma plic_fast_path_roundtrip:
  assumes "irqs_wf s" and "\<forall>i<NUM_CPUS. source_ok E (rx_hw E s i) \<and> source_ok E (tx_hw E s i)"
  shows "fst (plic_register_fast_path E s) = 0
    \<and> io_log (plic_unregister_fast_path (snd (plic_register_fast_path E s))) = io_log s
        @ concat (map (\<lambda>i. [C_plic_register (rx_hw E s i) Isr_rx, C_plic_register (tx_hw E s i) Isr_txcomp]) [0..<NUM_CPUS])
        @ concat (map (\<lambda>i. [C_plic_unregister (sint (rx_hw E s i)), C_plic_unregister (sint (tx_hw E s i))]) [0..<NUM_CPUS])"
proof -
  let ?s = "snd (plic_done E NUM_CPUS (ie_uninit_ret E, s))"
  have "plic_register_fast_path E s = (0, ?s)"
    by (simp add: plic_register_fast_path_def plic_register_prefix [OF assms(1) order_refl assms(2)]
        split_beta)
  moreover have "io_rx_hwirq ?s ! i = sint (rx_hw E s i)" "io_txcomp_hwirq ?s ! i = sint (tx_hw E s i)"
    if "i < NUM_CPUS" for i
    using that by (simp_all add: plic_done_def nth_append)
  then have "concat (map (\<lambda>i. [C_plic_unregister (io_rx_hwirq ?s ! i), C_plic_unregister (io_txcomp_hwirq ?s ! i)]) [0..<NUM_CPUS]) =
      concat (map (\<lambda>i. [C_plic_unregister (sint (rx_hw E s i)), C_plic_unregister (sint (tx_hw E s i))]) [0..<NUM_CPUS])"
    by (intro arg_cong [where f = concat] map_cong) simp_all
  moreover have "io_log ?s = io_log s @ concat (map (\<lambda>i. [C_plic_register (rx_hw E s i) Isr_rx,
      C_plic_register (tx_hw E s i) Isr_txcomp]) [0..<NUM_CPUS])"
    by (simp add: plic_done_def)
  ultimately show ?thesis by (simp add: plic_unregister_log)
qed

text \<open>The device with its interrupt numbers, on the platform above.\<close>

definition irq_iocache :: "unit iocache" where
  "irq_iocache = (zero_iocache ())\<lparr>io_rx_irq := [16, 18, 20, 22], io_txcomp_irq := [17, 19, 21, 23]\<rparr>"

lemma irq_iocache_wf: "irqs_wf irq_iocache"
  by (simp add: irqs_wf_def irq_iocache_def zero_iocache_def NUM_CPUS_def)

lemma demo_source: "source_ok demo_ioc_env (get_hwirq demo_ioc_env v)"
proof -
  have "bit (ucast (push_bit 1 (ucast v :: u64) OR 1) :: u32) 0" by (simp add: bit_simps)
  then have "(ucast (push_bit 1 (ucast v :: u64) OR 1) :: u32) \<noteq> 0" by (metis bit_0_eq bot_apply bot_bool_def)
  then show ?thesis by (simp add: source_ok_def get_hwirq_def demo_ioc_env_def)
qed

lemma plic_fast_path_roundtrip_witness:
  "fst (plic_register_fast_path demo_ioc_env irq_iocache) = 0
   \<and> length (io_log (plic_unregister_fast_path (snd (plic_register_fast_path demo_ioc_env irq_iocache)))) = 16"
proof -
  have "io_log irq_iocache = []" by (simp add: irq_iocache_def zero_iocache_def)
  with plic_fast_path_roundtrip [OF irq_iocache_wf, of demo_ioc_env] show ?thesis
    by (simp add: rx_hw_def tx_hw_def demo_source length_concat comp_def sum_list_triv NUM_CPUS_def)
qed

lemma plic_set_prio_fst: "fst (plic_set_prio E D s) = map_plic_base E"
proof -
  have "fst (for_ret (plic_set_prio_cpu E D 0) xs s) \<in> {None, Some 0}" for xs
  proof (induction xs arbitrary: s)
    case (Cons x xs)
    have "fst (plic_set_prio_cpu E D 0 x s) \<in> {None, Some 0}"
      by (simp add: plic_set_prio_cpu_def Let_def)
    with Cons show ?case by (cases "plic_set_prio_cpu E D 0 x s") (auto split: option.split)
  qed simp
  from this [of "[0..<NUM_CPUS]"] show ?thesis
    by (cases "for_ret (plic_set_prio_cpu E D 0) [0..<NUM_CPUS] s") (auto simp: plic_set_prio_def Let_def)
qed

text \<open>
  A line that cannot be resolved goes unnoticed. \<open>plic_set_prio\<close> returns the
  result of mapping the PLIC whatever the lines are. \<open>plic_register_fast_path\<close> returns 0, as
  if all went well, when the receive line of some CPU after the first does not resolve: the
  CPUs before it have their handlers, that CPU and those after it have none. When the line of
  the first CPU does not resolve it returns a variable that was never set.
\<close>

lemma plic_unresolved_unreported:
  assumes "irqs_wf s" and "k < NUM_CPUS" and "rx_hw E s k = 0"
    and "\<forall>i<k. source_ok E (rx_hw E s i) \<and> source_ok E (tx_hw E s i)"
  shows "fst (plic_set_prio E D s) = map_plic_base E
    \<and> fst (plic_register_fast_path E s) = (if k = 0 then ie_uninit_ret E else 0)
    \<and> io_log (snd (plic_register_fast_path E s)) = io_log s @ concat (map (\<lambda>i.
         [C_plic_register (rx_hw E s i) Isr_rx, C_plic_register (tx_hw E s i) Isr_txcomp]) [0..<k])"
proof -
  have "plic_register_cpu E k (plic_done E k rs) = (Some (fst (plic_done E k rs)), plic_done E k rs)"
    if "snd rs = s" for rs
    using assms(3) that by (auto simp: plic_register_cpu_def plic_done_def rx_hw_def Let_def split_beta)
  from for_ret_upt_Some [OF assms(2) plic_register_prefix [OF assms(1) less_imp_le [OF assms(2)] assms(4)] this]
  show ?thesis by (simp add: plic_set_prio_fst plic_register_fast_path_def plic_done_def)
qed

lemma plic_unresolved_unreported_witness:
  "fst (plic_register_fast_path (demo_ioc_env\<lparr>ie_irq_get_irq_data := (\<lambda>v. if v = 18 then None else Some 1)\<rparr>) irq_iocache) = 0"
proof -
  let ?E = "demo_ioc_env\<lparr>ie_irq_get_irq_data := (\<lambda>v. if v = 18 then None else Some 1)\<rparr>"
  have "rx_hw ?E irq_iocache 1 = 0" "rx_hw ?E irq_iocache 0 = 1" "tx_hw ?E irq_iocache 0 = 1"
    by (simp_all add: rx_hw_def tx_hw_def get_hwirq_def irq_iocache_def)
  moreover have "source_ok ?E 1" by (simp add: source_ok_def demo_ioc_env_def)
  ultimately show ?thesis
    using plic_unresolved_unreported [OF irq_iocache_wf, of 1 ?E] by (simp add: NUM_CPUS_def)
qed

section \<open>Probe and remove, end to end\<close>

text \<open>The part of the state that the interrupt and PLIC steps leave alone.\<close>

definition fixed_part :: "'d iocache \<Rightarrow> dma_ring list \<times> dma_ring list \<times> u64 \<times> u64 \<times> u64" where
  "fixed_part s = (io_udp_tx s, io_udp_rx s, io_magic s, io_control_phys s, io_control_size s)"

lemma fixed_part_io_call [simp]: "fixed_part (io_call c s) = fixed_part s"
  by (simp add: fixed_part_def io_call_def)

lemma parse_irq_fixed: "fixed_part (snd (iocache_parse_irq E s)) = fixed_part s"
proof -
  have "fixed_part (snd (parse_irq_cpu E i s)) = fixed_part s" for i and s :: "'a iocache"
    by (simp add: parse_irq_cpu_def Let_def io_call_def fixed_part_def)
  then have "fixed_part (snd (for_ret (parse_irq_cpu E) [0..<NUM_CPUS] s)) = fixed_part s"
    by (rule for_ret_keeps)
  then show ?thesis by (simp add: iocache_parse_irq_def)
qed

lemma plic_set_prio_fixed: "fixed_part (snd (plic_set_prio E D s)) = fixed_part s"
proof -
  have "fixed_part (snd (plic_set_prio_cpu E D r i s)) = fixed_part s" for r i and s :: "'a iocache"
    by (simp add: plic_set_prio_cpu_def plic_set_src_prio_def Let_def split_beta fixed_part_def)
  then have "fixed_part (snd (for_ret (plic_set_prio_cpu E D r) [0..<NUM_CPUS] s)) = fixed_part s" for r
    by (rule for_ret_keeps)
  then show ?thesis by (simp add: plic_set_prio_def Let_def)
qed

lemma plic_register_fixed:
  "fixed_part (snd (plic_register_fast_path E s)) = fixed_part s"
  "io_hw (snd (plic_register_fast_path E s)) = io_hw s"
proof -
  let ?g = "\<lambda>rs :: int \<times> 'a iocache. (fixed_part (snd rs), io_hw (snd rs))"
  have "?g (snd (plic_register_cpu E i rs)) = ?g rs" for i rs
    by (simp add: plic_register_cpu_def Let_def split_beta io_call_def fixed_part_def)
  then have "?g (snd (for_ret (plic_register_cpu E) [0..<NUM_CPUS] (ie_uninit_ret E, s))) = ?g (ie_uninit_ret E, s)"
    by (rule for_ret_keeps)
  then show "fixed_part (snd (plic_register_fast_path E s)) = fixed_part s"
    "io_hw (snd (plic_register_fast_path E s)) = io_hw s"
    by (auto simp: plic_register_fast_path_def split: prod.split option.split)
qed

lemma intmasks_hw:
  "\<exists>h. set_intmasks D s = s\<lparr>io_hw := h\<rparr>" "\<exists>h. clear_intmasks D s = s\<lparr>io_hw := h\<rparr>"
  by (auto simp: set_intmasks_def clear_intmasks_def NUM_CPUS_def numeral_eq_Suc set_intmask_rx_def
      set_intmask_txcomp_def clear_intmask_rx_def clear_intmask_txcomp_def on_hw_def)

lemma set_intmasks_fixed [simp]: "fixed_part (set_intmasks D s) = fixed_part s"
  using intmasks_hw(1) [of D s] by (auto simp: fixed_part_def)

text \<open>A probe that succeeds went through every step.\<close>

lemma iocache_probe_steps:
  assumes "iocache_probe E D s0 = (0, s)"
  obtains s1 s2 where "fixed_part s1 = fixed_part (snd (iocache_parse_addr E (s0\<lparr>io_magic := MAGIC_CHAR\<rparr>)))"
    and "init_udp_rings (ie_dma_alloc E) s1 = (0, s2)"
    and "s = io_call C_misc_register (snd (plic_register_fast_path E (populate_ring_info D s2)))"
proof -
  define a where "a = iocache_parse_addr E (s0\<lparr>io_magic := MAGIC_CHAR\<rparr>)"
  define b where "b = iocache_parse_irq E (snd a)"
  define c where "c = plic_set_prio E D (snd b)"
  define d where "d = init_udp_rings (ie_dma_alloc E) (set_intmasks D (io_call C_register_iocache_forall (snd c)))"
  define e where "e = plic_register_fast_path E (populate_ring_info D (snd d))"
  have eq: "iocache_probe E D s0 =
      (if \<not> ie_of_node E then (- ENODEV, s0) else if \<not> ie_kzalloc E then (- ENOMEM, s0)
       else if fst a < 0 then a else if fst b < 0 then b else if fst c \<noteq> 0 then c
       else if fst d \<noteq> 0 then d else if fst e \<noteq> 0 then e else (0, io_call C_misc_register (snd e)))"
    by (simp add: iocache_probe_def a_def b_def c_def d_def e_def split_beta)
  with assms have "fst d = 0" "s = io_call C_misc_register (snd e)"
    by (auto split: if_splits)
  then have "init_udp_rings (ie_dma_alloc E) (set_intmasks D (io_call C_register_iocache_forall (snd c))) = (0, snd d)"
    by (simp add: d_def prod_eq_iff)
  moreover have "fixed_part (set_intmasks D (io_call C_register_iocache_forall (snd c))) = fixed_part (snd a)"
    by (simp add: c_def b_def plic_set_prio_fixed parse_irq_fixed)
  ultimately show ?thesis
    using that \<open>s = io_call C_misc_register (snd e)\<close> unfolding e_def a_def by blast
qed

lemma parse_addr_fixed:
  "fixed_part (snd (iocache_parse_addr E s)) =
     (io_udp_tx s, io_udp_rx s, io_magic s, io_control_phys (snd (iocache_parse_addr E s)),
      io_control_size (snd (iocache_parse_addr E s)))"
  by (simp add: fixed_part_def iocache_parse_addr_def split_beta split: option.split)

lemma init_udp_rings_0:
  assumes "rings_wf s" and "init_udp_rings A s = (0, s')"
  shows "\<forall>i<IOCACHE_CACHE_ENTRY_COUNT. pair_ok A i" and "s' = rings_done A IOCACHE_CACHE_ENTRY_COUNT s"
proof -
  show ok: "\<forall>i<IOCACHE_CACHE_ENTRY_COUNT. pair_ok A i"
  proof (rule ccontr)
    assume "\<not> ?thesis"
    from first_bad [OF this] obtain k where "k < IOCACHE_CACHE_ENTRY_COUNT" "\<not> pair_ok A k" "\<forall>i<k. pair_ok A i"
      by blast
    with init_udp_rings_fails [OF assms(1)] assms(2) show False by fastforce
  qed
  from init_udp_rings_ok [OF assms(1) ok] assms(2)
  show "s' = rings_done A IOCACHE_CACHE_ENTRY_COUNT s" by simp
qed

text \<open>The rings after a successful probe, and the state \<open>s2\<close> whose rings were told to the device.\<close>

lemma iocache_probe_rings:
  assumes "iocache_probe E D (zero_iocache h) = (0, s)"
  shows "\<forall>n<2 * IOCACHE_CACHE_ENTRY_COUNT. fst (dma_answer (ie_dma_alloc E) n) \<noteq> 0"
    and "io_udp_tx s = map (\<lambda>i. ring_of (ie_dma_alloc E) (2 * i)) [0..<IOCACHE_CACHE_ENTRY_COUNT]"
    and "io_udp_rx s = map (\<lambda>i. ring_of (ie_dma_alloc E) (2 * i + 1)) [0..<IOCACHE_CACHE_ENTRY_COUNT]"
    and "io_magic s = MAGIC_CHAR" and "last (io_log s) = C_misc_register"
    and "\<exists>s2. io_udp_tx s2 = io_udp_tx s \<and> io_udp_rx s2 = io_udp_rx s \<and> io_hw s = io_hw (populate_ring_info D s2)"
proof -
  let ?A = "ie_dma_alloc E"
  from iocache_probe_steps [OF assms] obtain s1 s2 where
      s1: "fixed_part s1 = fixed_part (snd (iocache_parse_addr E ((zero_iocache h)\<lparr>io_magic := MAGIC_CHAR\<rparr>)))"
    and s2: "init_udp_rings ?A s1 = (0, s2)"
    and s: "s = io_call C_misc_register (snd (plic_register_fast_path E (populate_ring_info D s2)))"
    by blast
  have wf: "rings_wf s1" and m: "io_magic s1 = MAGIC_CHAR"
    using s1 unfolding parse_addr_fixed by (simp_all add: fixed_part_def rings_wf_def zero_iocache_def)
  note fin = init_udp_rings_0 [OF wf s2]
  have fp: "fixed_part s = fixed_part s2"
    by (simp add: s plic_register_fixed) (simp add: fixed_part_def populate_writes)
  then show "io_udp_tx s = map (\<lambda>i. ring_of ?A (2 * i)) [0..<IOCACHE_CACHE_ENTRY_COUNT]"
    "io_udp_rx s = map (\<lambda>i. ring_of ?A (2 * i + 1)) [0..<IOCACHE_CACHE_ENTRY_COUNT]" "io_magic s = MAGIC_CHAR"
    using wf m by (simp_all add: fixed_part_def fin(2) rings_done_def rings_wf_def)
  show "\<forall>n<2 * IOCACHE_CACHE_ENTRY_COUNT. fst (dma_answer ?A n) \<noteq> 0"
    using fin(1) unfolding all_less_double pair_ok_def .
  show "last (io_log s) = C_misc_register" by (simp add: s io_call_def)
  have "io_hw s = io_hw (populate_ring_info D s2)" by (simp add: s io_call_def plic_register_fixed)
  with fp show "\<exists>s2. io_udp_tx s2 = io_udp_tx s \<and> io_udp_rx s2 = io_udp_rx s \<and> io_hw s = io_hw (populate_ring_info D s2)"
    by (auto simp: fixed_part_def)
qed

lemma demo_probe: "\<exists>s. iocache_probe demo_ioc_env D (zero_iocache h) = (0, s)"
proof -
  let ?E = demo_ioc_env
  define a where "a = snd (iocache_parse_addr ?E ((zero_iocache h)\<lparr>io_magic := MAGIC_CHAR\<rparr>))"
  have a: "iocache_parse_addr ?E ((zero_iocache h)\<lparr>io_magic := MAGIC_CHAR\<rparr>) = (0, a)" "irqs_wf a" "rings_wf a"
    by (simp_all add: a_def iocache_parse_addr_def demo_ioc_env_def irqs_wf_def rings_wf_def zero_iocache_def)
  have "\<forall>i<NUM_CPUS. line_ok ?E (2 * i) \<and> line_ok ?E (2 * i + 1)" by (simp add: line_ok_def demo_ioc_env_def)
  then have b: "iocache_parse_irq ?E a = (0, irqs_done ?E NUM_CPUS a)"
    by (simp add: iocache_parse_irq_def parse_irq_prefix [OF a(2) order_refl])
  define c where "c = snd (plic_set_prio ?E D (irqs_done ?E NUM_CPUS a))"
  have c: "plic_set_prio ?E D (irqs_done ?E NUM_CPUS a) = (0, c)"
    using plic_set_prio_fst [of ?E D] by (simp add: c_def prod_eq_iff map_plic_base_def demo_ioc_env_def)
  define d where "d = set_intmasks D (io_call C_register_iocache_forall c)"
  have "fixed_part (irqs_done ?E NUM_CPUS a) = fixed_part a" by (simp add: fixed_part_def irqs_done_def)
  then have "fixed_part d = fixed_part a" by (simp add: d_def c_def plic_set_prio_fixed)
  with a(3) have "rings_wf d" by (simp add: fixed_part_def rings_wf_def)
  moreover have "\<forall>i<IOCACHE_CACHE_ENTRY_COUNT. pair_ok (ie_dma_alloc ?E) i"
    using demo_alloc_ok(1) by (simp add: pair_ok_def demo_ioc_env_def)
  ultimately have d: "\<exists>d'. init_udp_rings (ie_dma_alloc ?E) d = (0, d')" using init_udp_rings_ok by blast
  have "fst (plic_register_cpu ?E i rs) = None" for i and rs :: "int \<times> 'a iocache"
    using demo_source by (simp add: plic_register_cpu_def Let_def split_beta source_ok_def)
  then have "fst (for_ret (plic_register_cpu ?E) [0..<NUM_CPUS] rs) = None" for rs :: "int \<times> 'a iocache"
    by (rule for_ret_cong_None)
  then have "fst (plic_register_fast_path ?E s) = 0" for s :: "'a iocache"
    by (simp add: plic_register_fast_path_def split_beta)
  with d have "fst (iocache_probe ?E D (zero_iocache h)) = 0"
    unfolding iocache_probe_def a(1) prod.case b c d_def [symmetric]
    by (auto simp: split_beta demo_ioc_env_def)
  then show ?thesis by (cases "iocache_probe ?E D (zero_iocache h)") simp
qed

text \<open>
  Property C18. What a successful probe leaves behind. No DMA allocation has failed; the
  driver holds the 64 transmit and the 64 receive rings that were allocated, the device's
  table has their aligned addresses, every row is disabled, the structure carries the magic
  number that open checks, and registering the misc device was the last step.
\<close>

theorem iocache_probe_establishes:
  assumes "storage_device D iocache_storage peek" and "iocache_probe E D (zero_iocache h) = (0, s)"
  shows "(\<forall>n<2 * IOCACHE_CACHE_ENTRY_COUNT. fst (dma_answer (ie_dma_alloc E) n) \<noteq> 0)
    \<and> io_udp_tx s = map (\<lambda>i. ring_of (ie_dma_alloc E) (2 * i)) [0..<IOCACHE_CACHE_ENTRY_COUNT]
    \<and> io_udp_rx s = map (\<lambda>i. ring_of (ie_dma_alloc E) (2 * i + 1)) [0..<IOCACHE_CACHE_ENTRY_COUNT]
    \<and> io_magic s = MAGIC_CHAR \<and> last (io_log s) = C_misc_register
    \<and> (\<forall>i<64. reg_val peek (io_hw s) R_IOCACHE (IOCACHE_REG_ENABLED (int i)) 8 = 0
         \<and> reg_val peek (io_hw s) R_IOCACHE (IOCACHE_REG_RX_RING_ADDR (int i)) 8 =
             dr_addr_aligned (ring_of (ie_dma_alloc E) (2 * i + 1))
         \<and> reg_val peek (io_hw s) R_IOCACHE (IOCACHE_REG_TX_RING_ADDR (int i)) 8 =
             dr_addr_aligned (ring_of (ie_dma_alloc E) (2 * i)))"
proof -
  note pr = iocache_probe_rings [OF assms(2)]
  from pr(6) obtain s2 where s2: "io_udp_tx s2 = io_udp_tx s" "io_udp_rx s2 = io_udp_rx s"
      "io_hw s = io_hw (populate_ring_info D s2)" by blast
  have "io_udp_tx s ! i = ring_of (ie_dma_alloc E) (2 * i)" "io_udp_rx s ! i = ring_of (ie_dma_alloc E) (2 * i + 1)"
    if "i < 64" for i
    using that by (simp_all add: pr(2,3) IOCACHE_CACHE_ENTRY_COUNT_def del: upt_Suc)
  with populate_regs [OF assms(1), of _ s2] s2 have "\<forall>i<64. reg_val peek (io_hw s) R_IOCACHE (IOCACHE_REG_ENABLED (int i)) 8 = 0
         \<and> reg_val peek (io_hw s) R_IOCACHE (IOCACHE_REG_RX_RING_ADDR (int i)) 8 =
             dr_addr_aligned (ring_of (ie_dma_alloc E) (2 * i + 1))
         \<and> reg_val peek (io_hw s) R_IOCACHE (IOCACHE_REG_TX_RING_ADDR (int i)) 8 =
             dr_addr_aligned (ring_of (ie_dma_alloc E) (2 * i))"
    by simp
  with pr(1-5) show ?thesis by blast
qed

theorem iocache_probe_establishes_witness:
  "\<exists>s. iocache_probe demo_ioc_env ram_device (zero_iocache (\<lambda>r a. 0)) = (0, s) \<and> io_magic s = MAGIC_CHAR"
  using demo_probe [of ram_device "\<lambda>r a. 0"]
    iocache_probe_establishes [OF ram_storage, of demo_ioc_env "\<lambda>r a. 0"] by blast

text \<open>
  Property C19. Remove undoes probe: on a device that was probed it unregisters the
  interrupt sources and the misc device, and frees each of the 128 DMA buffers exactly once,
  with the length and the addresses it was allocated with.
\<close>

theorem iocache_remove_frees:
  assumes "iocache_probe E D (zero_iocache h) = (0, s)"
  shows "\<exists>s'. iocache_remove D (Some s) = (0, Some s')
    \<and> io_log s' = io_log s
        @ concat (map (\<lambda>i. [C_plic_unregister (io_rx_hwirq s ! i), C_plic_unregister (io_txcomp_hwirq s ! i)]) [0..<NUM_CPUS])
        @ [C_misc_deregister]
        @ concat (map (\<lambda>i. map (\<lambda>n. C_dma_free (dma_len IOCACHE_UDP_RING_SIZE)
              (fst (dma_answer (ie_dma_alloc E) n)) (snd (dma_answer (ie_dma_alloc E) n))) [2 * i + 1, 2 * i])
            [0..<IOCACHE_CACHE_ENTRY_COUNT])"
proof -
  let ?A = "ie_dma_alloc E" and ?is = "[0..<IOCACHE_CACHE_ENTRY_COUNT]"
  define u where "u = io_call C_misc_deregister (plic_unregister_fast_path s)"
  obtain h' where c: "clear_intmasks D u = u\<lparr>io_hw := h'\<rparr>" using intmasks_hw(2) [of D u] by blast
  note est = iocache_probe_rings [OF assms]
  have ring: "ring_free (ring_of ?A n) =
      [C_dma_free (dma_len IOCACHE_UDP_RING_SIZE) (fst (dma_answer ?A n)) (snd (dma_answer ?A n))]"
    if "n < 2 * IOCACHE_CACHE_ENTRY_COUNT" for n
    using that est(1) by (auto simp: ring_free_def ring_of_def alloc_ring_def Let_def split_beta)
  have u: "io_udp_tx u = io_udp_tx s" "io_udp_rx u = io_udp_rx s"
    by (simp_all add: u_def io_call_def plic_unregister_log)
  have "map (\<lambda>i. ring_free (io_udp_rx u ! i) @ ring_free (io_udp_tx u ! i)) ?is =
      map (\<lambda>i. map (\<lambda>n. C_dma_free (dma_len IOCACHE_UDP_RING_SIZE) (fst (dma_answer ?A n)) (snd (dma_answer ?A n)))
        [2 * i + 1, 2 * i]) ?is"
    using ring unfolding u est(2,3) by (intro map_cong) simp_all
  note frees = this
  have "io_log (free_rings (clear_intmasks D u)) = io_log u @ concat (map (\<lambda>i. map (\<lambda>n.
      C_dma_free (dma_len IOCACHE_UDP_RING_SIZE) (fst (dma_answer ?A n)) (snd (dma_answer ?A n))) [2 * i + 1, 2 * i]) ?is)"
    unfolding frees [symmetric] by (simp add: c free_rings_log)
  moreover have "iocache_remove D (Some s) = (0, Some (free_rings (clear_intmasks D u)))"
    by (simp add: iocache_remove_def u_def)
  moreover have "io_log u = io_log s @ concat (map (\<lambda>i. [C_plic_unregister (io_rx_hwirq s ! i),
      C_plic_unregister (io_txcomp_hwirq s ! i)]) [0..<NUM_CPUS]) @ [C_misc_deregister]"
    by (simp add: u_def io_call_def plic_unregister_log)
  ultimately show ?thesis by simp
qed

theorem iocache_remove_frees_witness:
  "\<exists>s s'. iocache_probe demo_ioc_env ram_device (zero_iocache (\<lambda>r a. 0)) = (0, s)
     \<and> iocache_remove ram_device (Some s) = (0, Some s')"
  using demo_probe [of ram_device "\<lambda>r a. 0"] iocache_remove_frees [of demo_ioc_env ram_device "\<lambda>r a. 0"]
  by blast

end
