(* ===== verification/Iocache_Misc.thy ===== *)
theory Iocache_Misc
  imports Iocache_Setup Misc_Api
begin

text \<open>
  The misc device of the IOCache driver, iocache_misc.c with iocache_ioctl.h: open, release,
  every ioctl command, mmap, and the timer callback that ends a wait. The calling task
  \<open>cur\<close> and its CPU are arguments. What happens while a task sleeps is the parameter
  \<open>sched\<close>; what \<open>eventfd_ctx_fdget\<close> answers is the parameter \<open>fdget\<close>.
\<close>

section \<open>Commands\<close>

definition IOCACHE_IOCTL_API_VERSION :: int where "IOCACHE_IOCTL_API_VERSION = 0"
definition IOCACHE_IOCTL_TYPE :: u32 where [reg_offsets]: "IOCACHE_IOCTL_TYPE = 0x88"
definition IOCACHE_IOCTL_BASE :: u32 where [reg_offsets]: "IOCACHE_IOCTL_BASE = 0xC0"
definition IOCACHE_REGION_TYPE_UNIMPLEMENTED :: u32 where "IOCACHE_REGION_TYPE_UNIMPLEMENTED = 0"
definition IOCACHE_REGION_TYPE_CTRL :: u32 where "IOCACHE_REGION_TYPE_CTRL = 0x1000"

definition IOCACHE_IOCTL_GET_API_VERSION :: u32 where
  [reg_offsets]: "IOCACHE_IOCTL_GET_API_VERSION = IO IOCACHE_IOCTL_TYPE (IOCACHE_IOCTL_BASE + 0)"
definition IOCACHE_IOCTL_GET_DEVICE_INFO :: u32 where
  [reg_offsets]: "IOCACHE_IOCTL_GET_DEVICE_INFO = IO IOCACHE_IOCTL_TYPE (IOCACHE_IOCTL_BASE + 1)"
definition IOCACHE_IOCTL_GET_REGION_INFO :: u32 where
  [reg_offsets]: "IOCACHE_IOCTL_GET_REGION_INFO = IO IOCACHE_IOCTL_TYPE (IOCACHE_IOCTL_BASE + 2)"
definition IOCACHE_IOCTL_SET_EVENTFD :: u32 where
  [reg_offsets]: "IOCACHE_IOCTL_SET_EVENTFD = IOW IOCACHE_IOCTL_TYPE (IOCACHE_IOCTL_BASE + 3) 4"
definition IOCACHE_IOCTL_GET_LAST_IRQ_NS :: u32 where
  [reg_offsets]: "IOCACHE_IOCTL_GET_LAST_IRQ_NS = IOR IOCACHE_IOCTL_TYPE (IOCACHE_IOCTL_BASE + 4) 8"
definition IOCACHE_IOCTL_WAIT_READY :: u32 where
  [reg_offsets]: "IOCACHE_IOCTL_WAIT_READY = IOR IOCACHE_IOCTL_TYPE (IOCACHE_IOCTL_BASE + 5) 4"
definition IOCACHE_IOCTL_GET_KTIMES :: u32 where
  [reg_offsets]: "IOCACHE_IOCTL_GET_KTIMES = IOR IOCACHE_IOCTL_TYPE (IOCACHE_IOCTL_BASE + 6) 8"
definition IOCACHE_IOCTL_GET_PROC_UTIL :: u32 where
  [reg_offsets]: "IOCACHE_IOCTL_GET_PROC_UTIL = IOR IOCACHE_IOCTL_TYPE (IOCACHE_IOCTL_BASE + 7) 8"
definition IOCACHE_IOCTL_GET_AVAIL_RING :: u32 where
  [reg_offsets]: "IOCACHE_IOCTL_GET_AVAIL_RING = IOR IOCACHE_IOCTL_TYPE (IOCACHE_IOCTL_BASE + 8) 8"
definition IOCACHE_IOCTL_RUN_SCHEDULER :: u32 where
  [reg_offsets]: "IOCACHE_IOCTL_RUN_SCHEDULER = IOR IOCACHE_IOCTL_TYPE (IOCACHE_IOCTL_BASE + 9) 8"
definition IOCACHE_IOCTL_STOP_SCHEDULER :: u32 where
  [reg_offsets]: "IOCACHE_IOCTL_STOP_SCHEDULER = IOR IOCACHE_IOCTL_TYPE (IOCACHE_IOCTL_BASE + 10) 8"
definition IOCACHE_IOCTL_RESERVE_RING :: u32 where
  [reg_offsets]: "IOCACHE_IOCTL_RESERVE_RING = IOR IOCACHE_IOCTL_TYPE (IOCACHE_IOCTL_BASE + 11) 8"
definition IOCACHE_IOCTL_FREE_RING :: u32 where
  [reg_offsets]: "IOCACHE_IOCTL_FREE_RING = IOR IOCACHE_IOCTL_TYPE (IOCACHE_IOCTL_BASE + 12) 8"

section \<open>Timer, open and release\<close>

definition iocache_timeout_cb :: "'d device \<Rightarrow> u64 \<Rightarrow> 'd iocache \<Rightarrow> 'd iocache" where
  "iocache_timeout_cb D tsk s =
     (if tsk = 0 then s
      else
        (let reg = IOCACHE_REG_RX_SUSPENDED (t_iocache_id (io_tasks s tsk));
             (suspended, h) = ioread8 D R_IOCACHE reg (io_hw s);
             s = s\<lparr>io_hw := h\<rparr>
         in if suspended = 0 then
              io_call C_set_need_resched (io_call (C_wake_up_process tsk) s)
            else
              io_call C_set_need_resched (io_call (C_wake_up_process tsk)
                (on_hw (iowrite8 D R_IOCACHE reg 0) s))))"

definition iocache_misc_open :: "'d iocache \<Rightarrow> int" where
  "iocache_misc_open s = (if io_magic s \<noteq> MAGIC_CHAR then - EINVAL else 0)"

text \<open>Dropping the event context, as release and \<open>SET_EVENTFD\<close> with \<open>-1\<close> do.\<close>

definition put_old :: "nat option \<Rightarrow> 'd iocache \<Rightarrow> 'd iocache" where
  "put_old old s = (case old of None \<Rightarrow> s | Some ctx \<Rightarrow> io_call (C_eventfd_put ctx) s)"

definition swap_ev_ctx :: "nat option \<Rightarrow> 'd iocache \<Rightarrow> 'd iocache" where
  "swap_ev_ctx new s = put_old (io_ev_ctx s) (s\<lparr>io_ev_ctx := new\<rparr>)"

definition iocache_misc_release :: "'d iocache option \<Rightarrow> int \<times> 'd iocache option" where
  "iocache_misc_release private_data =
     (case private_data of
        None \<Rightarrow> (0, None)
      | Some s \<Rightarrow> (0, Some (swap_ev_ctx None s)))"

section \<open>ioctl\<close>

definition upd_task :: "u64 \<Rightarrow> (task \<Rightarrow> task) \<Rightarrow> 'd iocache \<Rightarrow> 'd iocache" where
  "upd_task p f s = s\<lparr>io_tasks := (io_tasks s)(p := f (io_tasks s p))\<rparr>"

text \<open>\<open>hrtimer_init\<close>, the callback and a period of one second (\<open>ktime_set(1, 0)\<close>).\<close>

definition arm_timer :: "u64 \<Rightarrow> 'd iocache \<Rightarrow> 'd iocache" where
  "arm_timer cur s =
     upd_task cur (\<lambda>t. t\<lparr>t_timer_set := True, t_to_period := 1000000000\<rparr>) (io_call (C_hrtimer_init cur) s)"

definition set_eventfd :: "(int \<Rightarrow> int + nat) \<Rightarrow> user_copy \<Rightarrow> 'd iocache \<Rightarrow> (int \<times> ioctl_out) \<times> 'd iocache" where
  "set_eventfd fdget U s =
     (case from_int U of
        None \<Rightarrow> ((- EFAULT, Out_nothing), s)
      | Some efd \<Rightarrow>
          if efd = - 1 then ((0, Out_nothing), swap_ev_ctx None s)
          else
            (case fdget efd of
               Inl err \<Rightarrow> ((err, Out_nothing), s)
             | Inr ctx \<Rightarrow> ((0, Out_nothing), swap_ev_ctx (Some ctx) s)))"

text \<open>\<open>WAIT_READY\<close>, before and after the call of \<open>schedule\<close>.\<close>

definition wait_begin :: "'d device \<Rightarrow> u64 \<Rightarrow> 'd iocache \<Rightarrow> 'd iocache" where
  "wait_begin D cur s =
     (let row = t_iocache_id (io_tasks s cur);
          s = io_call (C_set_interruptible cur) s;
          s = on_hw (iowrite8 D R_IOCACHE (IOCACHE_REG_RX_SUSPENDED row) 1) s;
          s = io_call (C_hrtimer_start cur (t_to_period (io_tasks s cur))) s
      in io_call C_schedule s)"

definition wait_end :: "u64 \<Rightarrow> 'd iocache \<Rightarrow> 'd iocache" where
  "wait_end cur s = io_call (C_hrtimer_cancel cur) s"

definition wait_ready ::
    "'d device \<Rightarrow> ('d iocache \<Rightarrow> 'd iocache) \<Rightarrow> u64 \<Rightarrow> 'd iocache \<Rightarrow> (int \<times> ioctl_out) \<times> 'd iocache" where
  "wait_ready D sched cur s = ((0, Out_nothing), wait_end cur (sched (wait_begin D cur s)))"

definition reserve_ring ::
    "'d device \<Rightarrow> u64 \<Rightarrow> int \<Rightarrow> user_copy \<Rightarrow> 'd iocache \<Rightarrow> (int \<times> ioctl_out) \<times> 'd iocache" where
  "reserve_ring D cur cpu U s =
     (case from_int U of
        None \<Rightarrow> ((- EFAULT, Out_nothing), s)
      | Some row \<Rightarrow>
          (let s = io_call C_migrate_disable s;
               s = upd_task cur (\<lambda>t. t\<lparr>t_iocache_iomem := True\<rparr>) s;
               s = on_hw (iowrite8 D R_IOCACHE (IOCACHE_REG_ENABLED row) 1) s;
               s = on_hw (iowrite32 D R_IOCACHE (IOCACHE_REG_PROC_CPU row) (word_of_int cpu)) s;
               s = on_hw (iowrite64 D R_IOCACHE (IOCACHE_REG_PROC_PTR row) cur) s;
               s = arm_timer cur s;
               s = upd_task cur (\<lambda>t. t\<lparr>t_iocache_id := row\<rparr>) s
           in (copy_out U (Out_int row), s)))"

definition free_ring_row :: "'d device \<Rightarrow> u64 \<Rightarrow> 'd iocache \<Rightarrow> (int \<times> ioctl_out) \<times> 'd iocache" where
  "free_ring_row D cur s =
     (let row = t_iocache_id (io_tasks s cur);
          s = on_hw (iowrite8 D R_IOCACHE (IOCACHE_REG_ENABLED row) 0) s;
          s = on_hw (iowrite32 D R_IOCACHE (IOCACHE_REG_PROC_CPU row) 0) s;
          s = on_hw (iowrite64 D R_IOCACHE (IOCACHE_REG_PROC_PTR row) 0) s
      in ((0, Out_nothing), s))"

definition run_scheduler :: "u64 \<Rightarrow> 'd iocache \<Rightarrow> (int \<times> ioctl_out) \<times> 'd iocache" where
  "run_scheduler cur s =
     (let s = io_call C_migrate_disable s;
          s = upd_task cur (\<lambda>t. t\<lparr>t_iocache_iomem := True\<rparr>) s;
          s = io_call (C_force_next_local cur) s
      in ((0, Out_nothing), arm_timer cur s))"

definition stop_scheduler :: "u64 \<Rightarrow> 'd iocache \<Rightarrow> (int \<times> ioctl_out) \<times> 'd iocache" where
  "stop_scheduler cur s =
     ((0, Out_nothing), io_call (C_hrtimer_cancel cur) (io_call (C_wake_up_process_iocache cur) s))"

text \<open>\<open>GET_DEVICE_INFO\<close> and \<open>GET_REGION_INFO\<close>, which read the state only.\<close>

definition iocache_device_info :: "user_copy \<Rightarrow> int \<times> ioctl_out" where
  "iocache_device_info U =
     (case from_device_info U of
        None \<Rightarrow> (- EFAULT, Out_nothing)
      | Some info \<Rightarrow>
          if di_argsz info < device_info_minsz then (- EINVAL, Out_nothing)
          else copy_out U (Out_device_info (fill_device_info info)))"

definition iocache_region_info :: "'d iocache \<Rightarrow> user_copy \<Rightarrow> int \<times> ioctl_out" where
  "iocache_region_info s U =
     (case from_region_info U of
        None \<Rightarrow> (- EFAULT, Out_nothing)
      | Some info \<Rightarrow>
          if ri_argsz info < region_info_minsz then (- EINVAL, Out_nothing)
          else
            (let info = (clear_region_info info)\<lparr>ri_type := IOCACHE_REGION_TYPE_UNIMPLEMENTED\<rparr>
             in if ri_index info = 0 then
                  copy_out U (Out_region_info (info\<lparr>ri_type := IOCACHE_REGION_TYPE_CTRL, ri_next := 1,
                    ri_child := 0, ri_size := io_control_size s,
                    ri_offset := push_bit 40 (ucast (ri_index info)), ri_name := ''ctrl''\<rparr>))
                else (- EINVAL, Out_nothing)))"

definition iocache_misc_ioctl ::
    "'d device \<Rightarrow> (int \<Rightarrow> int + nat) \<Rightarrow> ('d iocache \<Rightarrow> 'd iocache) \<Rightarrow> u64 \<Rightarrow> int \<Rightarrow> u32 \<Rightarrow> user_copy
      \<Rightarrow> 'd iocache \<Rightarrow> (int \<times> ioctl_out) \<times> 'd iocache" where
  "iocache_misc_ioctl D fdget sched cur cpu cmd U s =
     (if cmd = IOCACHE_IOCTL_GET_API_VERSION then ((IOCACHE_IOCTL_API_VERSION, Out_nothing), s)
      else if cmd = IOCACHE_IOCTL_GET_DEVICE_INFO then (iocache_device_info U, s)
      else if cmd = IOCACHE_IOCTL_GET_REGION_INFO then (iocache_region_info s U, s)
      else if cmd = IOCACHE_IOCTL_SET_EVENTFD then set_eventfd fdget U s
      else if cmd = IOCACHE_IOCTL_GET_KTIMES then
        (copy_out U (Out_u64s [io_entry_ktime s, io_claim_ktime s, io_isr_ktime s, io_syscall_time s]), s)
      else if cmd = IOCACHE_IOCTL_GET_PROC_UTIL then (copy_out U (Out_u64s [0, 0, 0]), s)
      else if cmd = IOCACHE_IOCTL_WAIT_READY then wait_ready D sched cur s
      else if cmd = IOCACHE_IOCTL_GET_AVAIL_RING then
        (copy_out U (Out_int (t_iocache_id (io_tasks s cur))), s)
      else if cmd = IOCACHE_IOCTL_RESERVE_RING then reserve_ring D cur cpu U s
      else if cmd = IOCACHE_IOCTL_FREE_RING then free_ring_row D cur s
      else if cmd = IOCACHE_IOCTL_RUN_SCHEDULER then run_scheduler cur s
      else if cmd = IOCACHE_IOCTL_STOP_SCHEDULER then stop_scheduler cur s
      else ((- EINVAL, Out_nothing), s))"

section \<open>mmap\<close>

text \<open>
  The two halves of the handler after the control window. The driver sets \<open>vm_pgoff\<close> to 0
  before it calls \<open>dma_mmap_coherent\<close>, so the mapping begins at the start of the buffer.
\<close>

definition mmap_ring :: "dma_ring \<Rightarrow> vm_area \<Rightarrow> int + map_req" where
  "mmap_ring r vma =
     (if vma_req_len vma > dr_len r then Inl (- EINVAL)
      else Inr (Mmap_coherent (dr_cpu r) (dr_addr r) (vma_req_len vma)))"

definition iocache_misc_mmap :: "'d iocache \<Rightarrow> vm_area \<Rightarrow> int + map_req" where
  "iocache_misc_mmap s vma =
     (if vma_bad vma then Inl (- EINVAL)
      else if vma_index vma = 0 then remap_window vma (io_control_phys s) (io_control_size s)
      else if vma_index vma \<ge> 1 + 2 * int IOCACHE_CACHE_ENTRY_COUNT \<or> vma_index vma \<le> 0 then Inl (- EINVAL)
      else if vma_index vma mod 2 = 0 then
        mmap_ring (io_udp_rx s ! nat ((vma_index vma - 2) div 2)) vma
      else mmap_ring (io_udp_tx s ! nat ((vma_index vma - 1) div 2)) vma)"

section \<open>Who owns a row\<close>

text \<open>A row belongs to a task if it is enabled, holds its pointer, and the task has its number.\<close>

definition owns :: "('d \<Rightarrow> region \<times> nat \<Rightarrow> u8) \<Rightarrow> 'd iocache \<Rightarrow> u64 \<Rightarrow> nat \<Rightarrow> bool" where
  "owns peek s p row \<longleftrightarrow> reg_val peek (io_hw s) R_IOCACHE (IOCACHE_REG_ENABLED (int row)) 1 = 1
     \<and> proc_ptr peek (io_hw s) row = p \<and> t_iocache_id (io_tasks s p) = int row"

lemma owns_io_call [simp]: "owns peek (io_call c s) p row = owns peek s p row"
  by (simp add: owns_def io_call_def)

lemma owns_upd_task [simp]: "q \<noteq> p \<Longrightarrow> owns peek (upd_task q f s) p row = owns peek s p row"
  by (simp add: owns_def upd_task_def)

lemma owns_swap_ev_ctx [simp]: "owns peek (swap_ev_ctx new s) p row = owns peek s p row"
  by (simp add: swap_ev_ctx_def put_old_def split: option.split) (simp add: owns_def)

lemma owns_arm_timer [simp]: "q \<noteq> p \<Longrightarrow> owns peek (arm_timer q s) p row = owns peek s p row"
  by (simp add: arm_timer_def)

text \<open>
  A write of \<open>n\<close> bytes at a field of a row that is either a software field or wholly outside
  of them.
\<close>

definition field_ok :: "u64 \<Rightarrow> nat \<Rightarrow> bool" where
  "field_ok off n \<longleftrightarrow> 0 < n \<and> (unat off + n \<le> 0x30 \<or> 0x60 \<le> unat off \<and> unat off + n \<le> 0x90
     \<or> 0x30 \<le> unat off \<and> unat off + n \<le> 0x60)"

lemma field_wr_in:
  "0 \<le> r \<Longrightarrow> r < 64 \<Longrightarrow> field_ok off n \<Longrightarrow> wr_in iocache_storage (R_IOCACHE, n, IOCACHE_REG r off, v)"
  using span_row_storage [of r off n] span_row_outside [of r off n] by (auto simp: field_ok_def)

lemma row_write_other:
  assumes "storage_device D iocache_storage peek" and "0 \<le> r" "r < 64" "field_ok off n"
    and "0 \<le> q" "q < 64" "r \<noteq> q" and "unat b + k \<le> 0x30 \<or> 0x60 \<le> unat b \<and> unat b + k \<le> 0x90" "0 < k"
  shows "reg_val peek (dev_write D R_IOCACHE n (IOCACHE_REG r off) v h) R_IOCACHE (IOCACHE_REG q b) k =
    reg_val peek h R_IOCACHE (IOCACHE_REG q b) k"
proof -
  have "span R_IOCACHE (IOCACHE_REG q b) k \<subseteq> iocache_storage" using assms by (intro span_row_storage)
  moreover have "wr_in iocache_storage (R_IOCACHE, n, IOCACHE_REG r off, v)" using assms by (intro field_wr_in)
  moreover have "apart (R_IOCACHE, n, IOCACHE_REG r off, v) R_IOCACHE (IOCACHE_REG q b) k"
    using assms(2-) unfolding field_ok_def by (intro rows_apart) linarith+
  ultimately show ?thesis
    using storage_device.reg_val_writes_other [OF assms(1), of R_IOCACHE "IOCACHE_REG q b" k
        "[(R_IOCACHE, n, IOCACHE_REG r off, v)]" h] by simp
qed

lemma owns_row_write:
  assumes "storage_device D iocache_storage peek" and "0 \<le> r" "r < 64" "field_ok off n" and "row < 64" "r \<noteq> int row"
  shows "owns peek (on_hw (dev_write D R_IOCACHE n (IOCACHE_REG r off) v) s) p row = owns peek s p row"
  using row_write_other [OF assms(1-4), of "int row" 0 1 v "io_hw s"]
    row_write_other [OF assms(1-4), of "int row" "0x60" 8 v "io_hw s"] assms(5,6)
  by (simp add: owns_def on_hw_def proc_ptr_def IOCACHE_REG_ENABLED_def IOCACHE_REG_PROC_PTR_def
      IOCACHE_ENABLED_OFF_def IOCACHE_PROC_PTR_OFF_def)

text \<open>A write outside of the software fields, even in the same row.\<close>

lemma owns_status_write:
  assumes "storage_device D iocache_storage peek" and "0 \<le> r" "r < 64" "0x30 \<le> unat off" "unat off + n \<le> 0x60" "0 < n"
    and "row < 64"
  shows "owns peek (on_hw (dev_write D R_IOCACHE n (IOCACHE_REG r off) v) s) p row = owns peek s p row"
proof -
  have *: "reg_val peek (dev_write D R_IOCACHE n (IOCACHE_REG r off) v h) R_IOCACHE (IOCACHE_REG (int row) b) k =
      reg_val peek h R_IOCACHE (IOCACHE_REG (int row) b) k"
    if "unat b + k \<le> 0x30 \<or> 0x60 \<le> unat b \<and> unat b + k \<le> 0x90" for b k h
  proof -
    have s: "span R_IOCACHE (IOCACHE_REG (int row) b) k \<subseteq> iocache_storage"
      using assms(7) that by (intro span_row_storage) auto
    have o: "span R_IOCACHE (IOCACHE_REG r off) n \<inter> iocache_storage = {}"
      using assms by (intro span_row_outside)
    with s show ?thesis by (intro storage_device.reg_val_write_other [OF assms(1) s]) auto
  qed
  show ?thesis
    by (simp add: owns_def on_hw_def proc_ptr_def IOCACHE_REG_ENABLED_def IOCACHE_REG_PROC_PTR_def
      IOCACHE_ENABLED_OFF_def IOCACHE_PROC_PTR_OFF_def *)
qed

lemmas row_regs = IOCACHE_REG_ENABLED_def IOCACHE_REG_PROC_CPU_def IOCACHE_REG_PROC_PTR_def
  IOCACHE_REG_RX_SUSPENDED_def IOCACHE_ENABLED_OFF_def IOCACHE_PROC_CPU_OFF_def
  IOCACHE_PROC_PTR_OFF_def IOCACHE_RX_SUSPENDED_OFF_def

lemmas io_writes = iowrite8_def [abs_def] iowrite32_def [abs_def] iowrite64_def [abs_def]

text \<open>What \<open>RESERVE_RING\<close> and \<open>FREE_RING\<close> write: the enable bit, the CPU and the pointer of a row.\<close>

definition own_writes :: "int \<Rightarrow> u64 \<Rightarrow> u64 \<Rightarrow> u64 \<Rightarrow> wr list" where
  "own_writes row en cpu ptr = [(R_IOCACHE, 1, IOCACHE_REG row 0, en),
     (R_IOCACHE, 4, IOCACHE_REG row 0x68, cpu), (R_IOCACHE, 8, IOCACHE_REG row 0x60, ptr)]"

lemma own_writes_regs:
  assumes "storage_device D iocache_storage peek" and "row < 64"
  shows "reg_val peek (fold (do_write D) (own_writes (int row) en cpu ptr) h) R_IOCACHE (IOCACHE_REG_ENABLED (int row)) 1 =
      take_bit 8 en"
    and "proc_ptr peek (fold (do_write D) (own_writes (int row) en cpu ptr) h) row = ptr"
proof -
  let ?ws = "own_writes (int row) en cpu ptr"
  have row: "0 \<le> int row" "int row < 64" using assms(2) by simp_all
  have wr: "wr_in iocache_storage w" if "w \<in> set ?ws" for w
    using that field_wr_in [OF row] by (auto simp: own_writes_def field_ok_def)
  have sp: "span R_IOCACHE (IOCACHE_REG (int row) 0) 1 \<subseteq> iocache_storage"
      "span R_IOCACHE (IOCACHE_REG (int row) 0x60) 8 \<subseteq> iocache_storage"
    using span_row_storage [OF row, of 0 1] span_row_storage [OF row, of "0x60" 8] by simp_all
  have ad: "unat (IOCACHE_REG (int row) 0) = 0x300 + row * 0x100" "unat (IOCACHE_REG (int row) 0x60) = 0x360 + row * 0x100"
      "unat (IOCACHE_REG (int row) 0x68) = 0x368 + row * 0x100"
    using unat_iocache_reg [OF row, of 0] unat_iocache_reg [OF row, of "0x60"] unat_iocache_reg [OF row, of "0x68"]
    by simp_all
  have "reg_val peek (fold (do_write D) ?ws h) R_IOCACHE (IOCACHE_REG (int row) 0) 1 = take_bit (8 * 1) en"
    using wr by (intro storage_device.reg_val_writes [OF assms(1) sp(1)]) (auto simp: own_writes_def ad)
  then show "reg_val peek (fold (do_write D) ?ws h) R_IOCACHE (IOCACHE_REG_ENABLED (int row)) 1 = take_bit 8 en"
    by (simp add: row_regs)
  have "reg_val peek (fold (do_write D) ?ws h) R_IOCACHE (IOCACHE_REG (int row) 0x60) 8 = take_bit (8 * 8) ptr"
    using wr by (intro storage_device.reg_val_writes [OF assms(1) sp(2)]) (auto simp: own_writes_def ad)
  then show "proc_ptr peek (fold (do_write D) ?ws h) row = ptr"
    by (simp add: proc_ptr_def row_regs take_bit_word_eq_self)
qed

lemma reserve_ring_state:
  assumes "from_int U = Some row"
  shows "io_hw (snd (reserve_ring D cur cpu U s)) =
      fold (do_write D) (own_writes row 1 (ucast (word_of_int cpu :: u32)) cur) (io_hw s)"
    and "t_iocache_id (io_tasks (snd (reserve_ring D cur cpu U s)) cur) = row"
  by (simp_all add: assms reserve_ring_def Let_def io_call_def upd_task_def arm_timer_def on_hw_def io_writes
      row_regs own_writes_def)

lemma reserve_ring_owns:
  assumes "storage_device D iocache_storage peek" and "row < 64" and "from_int U = Some (int row)"
  shows "owns peek (snd (reserve_ring D cur cpu U s)) cur row"
  using own_writes_regs [OF assms(1,2)] by (simp add: owns_def reserve_ring_state [OF assms(3)])

lemma free_ring_state:
  "free_ring_row D cur s = ((0, Out_nothing),
     s\<lparr>io_hw := fold (do_write D) (own_writes (t_iocache_id (io_tasks s cur)) 0 0 0) (io_hw s)\<rparr>)"
  by (simp add: free_ring_row_def Let_def on_hw_def io_writes row_regs own_writes_def)

section \<open>What the other tasks do\<close>

text \<open>
  The row of a task that is not \<open>p\<close>, and the row it asks for, are rows of the table other
  than \<open>row\<close>. This is what the user library makes sure of, since it takes a fresh row from
  the allocator; the driver does not check it.
\<close>

definition elsewhere :: "int \<Rightarrow> nat \<Rightarrow> bool" where
  "elsewhere r row \<longleftrightarrow> 0 \<le> r \<and> r < 64 \<and> r \<noteq> int row"

lemma owns_wait_begin:
  assumes "storage_device D iocache_storage peek" and "row < 64" and "0 \<le> t_iocache_id (io_tasks s q)"
    and "t_iocache_id (io_tasks s q) < 64"
  shows "owns peek (wait_begin D q s) p row = owns peek s p row"
  using owns_status_write [OF assms(1,3,4), of "0x38" 1] assms(2)
  by (simp add: wait_begin_def Let_def io_writes row_regs)

lemma owns_ioctl_other:
  assumes D: "storage_device D iocache_storage peek" and "row < 64" and "q \<noteq> p"
    and q: "elsewhere (t_iocache_id (io_tasks s q)) row"
    and req: "\<And>r. from_int U = Some r \<Longrightarrow> cmd = IOCACHE_IOCTL_RESERVE_RING \<Longrightarrow> elsewhere r row"
    and "cmd \<noteq> IOCACHE_IOCTL_WAIT_READY"
  shows "owns peek (snd (iocache_misc_ioctl D fdget sched q cpu cmd U s)) p row = owns peek s p row"
proof -
  note w = owns_row_write [OF D _ _ _ assms(2)]
  have free: "owns peek (snd (free_ring_row D q s)) p row = owns peek s p row"
    using q w unfolding elsewhere_def
    by (simp add: free_ring_row_def Let_def io_writes row_regs field_ok_def)
  have reserve: "owns peek (snd (reserve_ring D q cpu U s)) p row = owns peek s p row"
    if "cmd = IOCACHE_IOCTL_RESERVE_RING"
    using req [OF _ that] w assms(3) unfolding elsewhere_def
    by (simp add: reserve_ring_def Let_def io_writes row_regs field_ok_def split: option.split)
  show ?thesis
    using free reserve assms(3,6)
    by (simp add: iocache_misc_ioctl_def set_eventfd_def run_scheduler_def stop_scheduler_def Let_def
        split: option.split sum.split)
qed

lemma owns_same_storage:
  assumes "\<forall>x\<in>iocache_storage. peek (io_hw s') x = peek (io_hw s) x" and "row < 64"
    and "io_tasks s' = io_tasks s"
  shows "owns peek s' p row = owns peek s p row"
proof -
  have same: "reg_val peek (io_hw s') R_IOCACHE (IOCACHE_REG (int row) b) k = reg_val peek (io_hw s) R_IOCACHE (IOCACHE_REG (int row) b) k"
    if "unat b + k \<le> 0x30 \<or> 0x60 \<le> unat b \<and> unat b + k \<le> 0x90" for b k
    unfolding reg_val_def using span_row_storage [OF _ _ that, of "int row"] assms(1,2)
    by (intro le_get_cong) (auto simp: subset_iff)
  show ?thesis using same [of 0 1] same [of "0x60" 8]
    by (simp add: owns_def assms(3) proc_ptr_def row_regs)
qed

lemma owns_isr_rx:
  assumes "storage_device D iocache_storage peek" and "row < 64"
  shows "owns peek (iocache_isr_rx D cpu s) p row = owns peek s p row"
proof -
  obtain count msk h where "kick_all D cpu (io_hw s) = ((count, msk), h)" by (metis prod.collapse)
  from isr_rx_spec [OF assms(1) this] obtain h' log where "\<forall>x\<in>iocache_storage. peek h' x = peek (io_hw s) x"
      "iocache_isr_rx D cpu s = s\<lparr>io_hw := h', io_log := log\<rparr>" by blast
  then show ?thesis using assms(2) by (intro owns_same_storage) simp_all
qed

lemma owns_timeout_cb:
  assumes "storage_device D iocache_storage peek" and "row < 64" and "0 \<le> t_iocache_id (io_tasks s q)"
    and "t_iocache_id (io_tasks s q) < 64"
  shows "owns peek (iocache_timeout_cb D q s) p row = owns peek s p row"
proof -
  define r where "r = t_iocache_id (io_tasks s q)"
  define h where "h = snd (ioread8 D R_IOCACHE (IOCACHE_REG_RX_SUSPENDED r) (io_hw s))"
  have "\<forall>x\<in>iocache_storage. peek h x = peek (io_hw s) x"
    using storage_device.read_keeps [OF assms(1)] by (simp add: h_def ioread8_def split_beta)
  then have rd: "owns peek (s\<lparr>io_hw := h\<rparr>) p row = owns peek s p row"
    using assms(2) by (intro owns_same_storage) simp_all
  have "owns peek (on_hw (iowrite8 D R_IOCACHE (IOCACHE_REG_RX_SUSPENDED r) 0) (s\<lparr>io_hw := h\<rparr>)) p row = owns peek s p row"
    using owns_status_write [OF assms(1), of r "0x38" 1] assms(2-4) rd
    by (simp add: r_def io_writes row_regs)
  with rd show ?thesis
    by (simp add: iocache_timeout_cb_def Let_def split_beta r_def [symmetric] h_def [symmetric])
qed

text \<open>
  The steps of the system apart from those of task \<open>p\<close>, which owns \<open>row\<close>: any ioctl of another
  task, the two halves of its wait, the receive interrupt on any CPU, and the timer of any
  task.
\<close>

inductive ioc_other :: "'d device \<Rightarrow> u64 \<Rightarrow> nat \<Rightarrow> 'd iocache \<Rightarrow> 'd iocache \<Rightarrow> bool" for D p row where
  other_ioctl: "q \<noteq> p \<Longrightarrow> elsewhere (t_iocache_id (io_tasks s q)) row \<Longrightarrow>
    (\<forall>r. from_int U = Some r \<longrightarrow> cmd = IOCACHE_IOCTL_RESERVE_RING \<longrightarrow> elsewhere r row) \<Longrightarrow>
    cmd \<noteq> IOCACHE_IOCTL_WAIT_READY \<Longrightarrow>
    ioc_other D p row s (snd (iocache_misc_ioctl D fdget sched q cpu cmd U s))"
| other_wait: "q \<noteq> p \<Longrightarrow> elsewhere (t_iocache_id (io_tasks s q)) row \<Longrightarrow> ioc_other D p row s (wait_begin D q s)"
| other_resume: "ioc_other D p row s (wait_end q s)"
| other_isr: "ioc_other D p row s (iocache_isr_rx D cpu s)"
| other_timer: "0 \<le> t_iocache_id (io_tasks s q) \<Longrightarrow> t_iocache_id (io_tasks s q) < 64 \<Longrightarrow>
    ioc_other D p row s (iocache_timeout_cb D q s)"

lemma ioc_other_owns:
  assumes "ioc_other D p row s s'" and "storage_device D iocache_storage peek" and "row < 64"
  shows "owns peek s' p row = owns peek s p row"
  using assms(1)
proof cases
  case (other_ioctl q U cmd fdget sched cpu)
  then show ?thesis using owns_ioctl_other [OF assms(2,3)] by blast
next
  case (other_wait q)
  then show ?thesis using owns_wait_begin [OF assms(2,3)] by (simp add: elsewhere_def)
next
  case (other_resume q)
  then show ?thesis by (simp add: wait_end_def)
next
  case (other_isr cpu)
  then show ?thesis using owns_isr_rx [OF assms(2,3)] by simp
next
  case (other_timer q)
  then show ?thesis using owns_timeout_cb [OF assms(2,3)] by simp
qed

lemma ioc_others_owns:
  assumes "(ioc_other D p row)\<^sup>*\<^sup>* s s'" and "storage_device D iocache_storage peek" and "row < 64"
    and "owns peek s p row"
  shows "owns peek s' p row"
  using assms(1,4) by (induction rule: rtranclp_induct) (simp_all add: ioc_other_owns [OF _ assms(2,3)])

lemma isr_wakes_owner:
  assumes "storage_device D iocache_storage peek" and "owns peek s p row" and "p \<noteq> 0" and "row < 64"
    and "kick_all D cpu (io_hw s) = ((count, msk), h)" and "bit msk row"
    and "length (masked_ptrs (proc_ptr peek (io_hw s)) msk 0) \<le> unat count"
  shows "C_wake_up_process_iocache p \<in> set (drop (length (io_log s)) (io_log (iocache_isr_rx D cpu s)))"
proof -
  let ?ptr = "proc_ptr peek (io_hw s)"
  have "p \<in> set (masked_ptrs ?ptr msk 0)"
    using assms(2,3,4,6) by (auto simp: masked_ptrs_def owns_def IOCACHE_CACHE_ENTRY_COUNT_def simp del: upt_Suc)
  with assms(7) have "p \<in> set (take (unat count) (masked_ptrs ?ptr msk 0))" by simp
  with isr_rx_spec [OF assms(1,5)] show ?thesis by auto
qed

text \<open>
  Property C3. A waiting task is woken by its packet. Let a task reserve a row and go to
  sleep in \<open>WAIT_READY\<close>, and let the rest of the system then run for any number of steps:
  ioctls and waits of other tasks on other rows, interrupts on any CPU, timers. The row still
  belongs to the task, and when a receive interrupt reports the row, with a count that covers
  the reported rows, the handler wakes the task.
\<close>

theorem reserve_wait_woken:
  assumes "storage_device D iocache_storage peek" and "row < 64" and "p \<noteq> 0"
    and "from_int U = Some (int row)"
    and "s1 = snd (iocache_misc_ioctl D fdget sched p cpu IOCACHE_IOCTL_RESERVE_RING U s)"
    and "(ioc_other D p row)\<^sup>*\<^sup>* (wait_begin D p s1) s2"
    and "kick_all D cpu' (io_hw s2) = ((count, msk), h)" and "bit msk row"
    and "length (masked_ptrs (proc_ptr peek (io_hw s2)) msk 0) \<le> unat count"
  shows "owns peek s2 p row
    \<and> C_wake_up_process_iocache p \<in> set (drop (length (io_log s2)) (io_log (iocache_isr_rx D cpu' s2)))"
proof -
  have "s1 = snd (reserve_ring D p cpu U s)" by (simp add: assms(5) iocache_misc_ioctl_def reg_offsets IOC_def)
  then have o1: "owns peek s1 p row" using reserve_ring_owns [OF assms(1,2,4)] by simp
  then have "t_iocache_id (io_tasks s1 p) = int row" by (simp add: owns_def)
  with o1 have "owns peek (wait_begin D p s1) p row" using owns_wait_begin [OF assms(1,2)] assms(2) by simp
  from ioc_others_owns [OF assms(6,1,2) this] have "owns peek s2 p row" .
  with isr_wakes_owner [OF assms(1) this assms(3,2,7,8,9)] show ?thesis by simp
qed

text \<open>The request for row \<open>r\<close>.\<close>

definition asking_row :: "int \<Rightarrow> user_copy" where
  "asking_row r = \<lparr>from_device_info = None, from_region_info = None, from_int = Some r, to_user_ok = True\<rparr>"

lemma masked_ptrs_5: "length (masked_ptrs ptr 5 0) \<le> 2"
proof -
  have "filter (bit (5 :: u64)) [0..<IOCACHE_CACHE_ENTRY_COUNT] = [0, 2]" by code_simp
  then show ?thesis by (simp add: masked_ptrs_def)
qed

theorem reserve_wait_woken_witness:
  "\<exists>s2. s2 = wait_begin ram_device 11 (snd (iocache_misc_ioctl ram_device (\<lambda>_. Inl 0) id 11 1
          IOCACHE_IOCTL_RESERVE_RING (asking_row 2) (zero_iocache two_waiting)))
     \<and> C_wake_up_process_iocache 11 \<in> set (io_log (iocache_isr_rx ram_device 1 s2))"
proof -
  define s1 where def_s1: "s1 = snd (iocache_misc_ioctl ram_device (\<lambda>_. Inl 0) id 11 1 IOCACHE_IOCTL_RESERVE_RING
    (asking_row 2) (zero_iocache two_waiting))"
  let ?s2 = "wait_begin ram_device 11 s1"
  have s1: "s1 = snd (reserve_ring ram_device 11 1 (asking_row 2) (zero_iocache two_waiting))"
    by (simp add: def_s1 iocache_misc_ioctl_def reg_offsets IOC_def)
  have id2: "t_iocache_id (io_tasks s1 11) = 2"
    unfolding s1 by (rule reserve_ring_state(2)) (simp add: asking_row_def)
  have hw1: "io_hw s1 = fold (do_write ram_device) (own_writes 2 1 1 11) two_waiting"
    unfolding s1 by (subst reserve_ring_state(1) [of _ 2]) (simp_all add: asking_row_def zero_iocache_def)
  have "io_hw ?s2 = dev_write ram_device R_IOCACHE 1 0x538 1 (io_hw s1)"
    by (simp add: wait_begin_def Let_def id2 io_call_def on_hw_def io_writes row_regs IOCACHE_REG_def reg_offsets)
  then have "fst (kick_all ram_device 1 (io_hw ?s2)) = (2, 5)"
    by (simp add: hw1 own_writes_def kick_all_def io_eval Let_def reg_offsets IOCACHE_REG_def two_waiting_def le_put_def)
  then obtain h where k: "kick_all ram_device 1 (io_hw ?s2) = ((2, 5), h)" by (metis prod.collapse)
  from reserve_wait_woken [OF ram_storage _ _ _ def_s1 rtranclp.rtrancl_refl k, of 2] masked_ptrs_5
  have "C_wake_up_process_iocache 11 \<in> set (drop (length (io_log ?s2)) (io_log (iocache_isr_rx ram_device 1 ?s2)))"
    by (auto simp: asking_row_def bit_iff_odd)
  then show ?thesis unfolding def_s1 [symmetric] by (meson in_set_dropD)
qed

section \<open>Releasing a row\<close>

text \<open>
  \<open>FREE_RING\<close> releases the row of the caller and no other. Afterwards the row is
  disabled and has no process; every other row belongs to whom it belonged before; and no
  receive interrupt wakes the caller any more, if its pointer was in no other row.
\<close>

lemma free_ring_releases:
  assumes "storage_device D iocache_storage peek" and "owns peek s p row" and "row < 64" and "p \<noteq> 0"
    and "s' = snd (iocache_misc_ioctl D fdget sched p cpu IOCACHE_IOCTL_FREE_RING U s)"
  shows "reg_val peek (io_hw s') R_IOCACHE (IOCACHE_REG_ENABLED (int row)) 1 = 0 \<and> proc_ptr peek (io_hw s') row = 0
    \<and> (\<forall>q r. r < 64 \<longrightarrow> r \<noteq> row \<longrightarrow> owns peek s' q r = owns peek s q r)
    \<and> ((\<forall>r<64. r \<noteq> row \<longrightarrow> proc_ptr peek (io_hw s) r \<noteq> p) \<longrightarrow>
        C_wake_up_process_iocache p \<notin> set (drop (length (io_log s')) (io_log (iocache_isr_rx D cpu' s'))))"
proof -
  have s': "s' = snd (free_ring_row D p s)" by (simp add: assms(5) iocache_misc_ioctl_def reg_offsets IOC_def)
  have id: "t_iocache_id (io_tasks s p) = int row" using assms(2) by (simp add: owns_def)
  have hw: "s' = s\<lparr>io_hw := fold (do_write D) (own_writes (int row) 0 0 0) (io_hw s)\<rparr>"
    by (simp add: s' free_ring_state id)
  note own = own_writes_regs [OF assms(1,3), of 0 0 0 "io_hw s"]
  have reg: "reg_val peek (io_hw s') R_IOCACHE (IOCACHE_REG (int r) b) k = reg_val peek (io_hw s) R_IOCACHE (IOCACHE_REG (int r) b) k"
    if "r < 64" "r \<noteq> row" "(b, k) \<in> {(0, 1), (0x60, 8)}" for r b k
    using that assms(3) row_write_other [OF assms(1), of "int row" _ _ "int r" b k]
    by (auto simp: hw own_writes_def field_ok_def)
  have ptr: "proc_ptr peek (io_hw s') r = proc_ptr peek (io_hw s) r" if "r < 64" "r \<noteq> row" for r
    using reg [OF that] by (simp add: proc_ptr_def row_regs)
  have "owns peek s' q r = owns peek s q r" if "r < 64" "r \<noteq> row" for q r
    using reg [OF that] ptr [OF that] by (simp add: owns_def row_regs) (simp add: hw)
  moreover have "p \<notin> set (masked_ptrs (proc_ptr peek (io_hw s')) msk 0)"
    if "\<forall>r<64. r \<noteq> row \<longrightarrow> proc_ptr peek (io_hw s) r \<noteq> p" for msk
  proof -
    have "proc_ptr peek (io_hw s') r \<noteq> p" if "r < 64" for r
      using ptr that \<open>\<forall>r<64. _ r\<close> own(2) assms(4) by (cases "r = row") (simp_all add: hw)
    then show ?thesis by (auto simp: masked_ptrs_def IOCACHE_CACHE_ENTRY_COUNT_def simp del: upt_Suc)
  qed
  moreover obtain count msk h where "kick_all D cpu' (io_hw s') = ((count, msk), h)" by (metis prod.collapse)
  note isr_rx_spec [OF assms(1) this]
  ultimately show ?thesis using own by (auto simp: hw dest!: in_set_takeD)
qed

lemma free_ring_releases_witness:
  "\<exists>s. s = snd (reserve_ring ram_device 11 1 (asking_row 2) (zero_iocache two_waiting))
     \<and> proc_ptr (\<lambda>m (r, a). m r a) (io_hw (snd (iocache_misc_ioctl ram_device (\<lambda>_. Inl 0) id 11 1
          IOCACHE_IOCTL_FREE_RING (asking_row 2) s))) 2 = 0"
proof -
  let ?s = "snd (reserve_ring ram_device 11 1 (asking_row 2) (zero_iocache two_waiting))"
  have "owns (\<lambda>m (r, a). m r a) ?s 11 2"
    by (rule reserve_ring_owns [OF ram_storage]) (simp_all add: asking_row_def)
  from free_ring_releases [OF ram_storage this _ _ refl] show ?thesis by auto
qed

section \<open>Timeout\<close>



section \<open>Rows that do not exist\<close>

text \<open>
  Property C39. \<open>RESERVE_RING\<close> accepts any row. Whatever integer the caller passes, the command
  succeeds if the result can be copied out, the task is recorded under that row, and three
  registers are written at the place the row would have; for row \<open>-1\<close> that place is the
  scheduler block, so that the enable bit goes to the scheduler register of CPU 0.
\<close>

theorem reserve_ring_unchecked:
  assumes "from_int U = Some row"
  shows "fst (iocache_misc_ioctl D fdget sched p cpu IOCACHE_IOCTL_RESERVE_RING U s) = copy_out U (Out_int row)
    \<and> t_iocache_id (io_tasks (snd (iocache_misc_ioctl D fdget sched p cpu IOCACHE_IOCTL_RESERVE_RING U s)) p) = row
    \<and> io_hw (snd (iocache_misc_ioctl D fdget sched p cpu IOCACHE_IOCTL_RESERVE_RING U s)) =
        fold (do_write D) (own_writes row 1 (ucast (word_of_int cpu :: u32)) p) (io_hw s)
    \<and> hd (own_writes (- 1) 1 c p) = (R_IOCACHE, 1, IOCACHE_REG_SCHED_READ 0, 1)"
proof -
  have "iocache_misc_ioctl D fdget sched p cpu IOCACHE_IOCTL_RESERVE_RING U s = reserve_ring D p cpu U s"
    by (simp add: iocache_misc_ioctl_def reg_offsets IOC_def)
  moreover have "fst (reserve_ring D p cpu U s) = copy_out U (Out_int row)"
    by (simp add: reserve_ring_def assms Let_def)
  moreover have "hd (own_writes (- 1) 1 c p) = (R_IOCACHE, 1, IOCACHE_REG_SCHED_READ 0, 1)"
    by (simp add: own_writes_def IOCACHE_REG_def reg_offsets)
  ultimately show ?thesis by (simp add: reserve_ring_state [OF assms])
qed

theorem reserve_ring_unchecked_witness:
  "fst (iocache_misc_ioctl ram_device (\<lambda>_. Inl 0) id 11 1 IOCACHE_IOCTL_RESERVE_RING (asking_row (- 1))
     (zero_iocache (\<lambda>r a. 0))) = (0, Out_int (- 1))"
  using reserve_ring_unchecked [of "asking_row (- 1)" "- 1" ram_device "\<lambda>_. Inl 0" id 11 1 "zero_iocache (\<lambda>r a. 0)"]
  by (simp add: asking_row_def copy_out_def)

section \<open>What user space can map\<close>

text \<open>
  Property C13. Through the misc device user space can map the control window and the ring
  buffers, nothing else. A granted request either maps frames of the control window, within
  its size, or the beginning of the buffer of one of the rings, and no more of it than its
  length.
\<close>

theorem iocache_mmap_confined:
  assumes "iocache_misc_mmap s vma = Inr req" and "rings_wf s" and "unat (vm_end vma) \<le> 2 ^ 63"
    and "4096 dvd unat (io_control_phys s)" and "unat (io_control_phys s) + unat (io_control_size s) < 2 ^ 64"
  shows "(\<exists>pfn. req = Remap_pfn (vm_start vma) pfn (vma_req_len vma)
        \<and> unat pfn * 4096 = unat (io_control_phys s) + unat (vma_req_start vma)
        \<and> unat (vma_req_start vma) + unat (vma_req_len vma) \<le> unat (io_control_size s))
    \<or> (\<exists>r\<in>set (io_udp_tx s) \<union> set (io_udp_rx s). req = Mmap_coherent (dr_cpu r) (dr_addr r) (vma_req_len vma)
        \<and> vma_req_len vma \<le> dr_len r)"
proof (cases "vma_index vma = 0")
  case True
  with assms(1) have bad: "\<not> vma_bad vma" and rm: "remap_window vma (io_control_phys s) (io_control_size s) = Inr req"
    by (auto simp: iocache_misc_mmap_def split: if_splits)
  then obtain a pfn len where "req = Remap_pfn a pfn len" by (auto simp: remap_window_def split: if_splits)
  with bad rm remap_window_inside [of vma _ _ a pfn len] assms(3-5) show ?thesis
    by (auto simp: vma_bad_def not_less)
next
  case False
  let ?n = "vma_index vma"
  from False assms(1) have n: "0 < ?n" "?n < 1 + 2 * int IOCACHE_CACHE_ENTRY_COUNT"
    by (auto simp: iocache_misc_mmap_def split: if_splits)
  have "nat ((?n - 2) div 2) < IOCACHE_CACHE_ENTRY_COUNT" "nat ((?n - 1) div 2) < IOCACHE_CACHE_ENTRY_COUNT"
    using n by linarith+
  then have "io_udp_rx s ! nat ((?n - 2) div 2) \<in> set (io_udp_rx s)" "io_udp_tx s ! nat ((?n - 1) div 2) \<in> set (io_udp_tx s)"
    using assms(2) by (simp_all add: rings_wf_def)
  moreover have "\<exists>r\<in>{io_udp_rx s ! nat ((?n - 2) div 2), io_udp_tx s ! nat ((?n - 1) div 2)}. mmap_ring r vma = Inr req"
    using False assms(1) n by (auto simp: iocache_misc_mmap_def split: if_splits)
  ultimately show ?thesis by (auto simp: mmap_ring_def not_less split: if_splits)
qed

text \<open>The device with its control window and with all its rings.\<close>

definition ringed_iocache :: "unit iocache" where
  "ringed_iocache = (rings_done demo_alloc IOCACHE_CACHE_ENTRY_COUNT (zero_iocache ()))
     \<lparr>io_control_phys := 0x10040000, io_control_size := 0x8000\<rparr>"

theorem iocache_mmap_confined_witness:
  "\<exists>r\<in>set (io_udp_tx ringed_iocache) \<union> set (io_udp_rx ringed_iocache).
     iocache_misc_mmap ringed_iocache (vma_at 0x7f000000 (push_bit 40 1) 0x1000) =
       Inr (Mmap_coherent (dr_cpu r) (dr_addr r) 0x1000)"
proof -
  let ?v = "vma_at 0x7f000000 (push_bit 40 1) 0x1000"
  have wf: "rings_wf ringed_iocache"
    by (simp add: ringed_iocache_def rings_done_def rings_wf_def zero_iocache_def)
  have v: "vma_index ?v = 1" "\<not> vma_bad ?v" "vma_req_len ?v = 0x1000" "unat (vm_end ?v) \<le> 2 ^ 63"
    using vma_at_index [of 1 "0x7f000000" "0x1000"] by (simp_all add: vma_at_def)
  have "dr_len (io_udp_tx ringed_iocache ! 0) = IOCACHE_UDP_RING_SIZE"
    by (simp add: ringed_iocache_def rings_done_def IOCACHE_CACHE_ENTRY_COUNT_def nth_append ring_of_def
        alloc_ring_def Let_def split_beta del: upt_Suc)
  then have m: "iocache_misc_mmap ringed_iocache ?v =
      Inr (Mmap_coherent (dr_cpu (io_udp_tx ringed_iocache ! 0)) (dr_addr (io_udp_tx ringed_iocache ! 0)) 0x1000)"
    unfolding iocache_misc_mmap_def mmap_ring_def v
    using v(2) by (simp add: IOCACHE_CACHE_ENTRY_COUNT_def IOCACHE_UDP_RING_SIZE_def)
  from iocache_mmap_confined [OF this wf v(4)] show ?thesis
    unfolding m v by (simp add: ringed_iocache_def) blast
qed

lemma mmap_rings:
  assumes "row < 64" and "unat start + unat len < 2 ^ 64"
  shows "iocache_misc_mmap s (vma_at start (push_bit 40 (of_nat (2 * row + 1))) len) =
      (if len \<le> dr_len (io_udp_tx s ! row)
       then Inr (Mmap_coherent (dr_cpu (io_udp_tx s ! row)) (dr_addr (io_udp_tx s ! row)) len) else Inl (- EINVAL))
    \<and> iocache_misc_mmap s (vma_at start (push_bit 40 (of_nat (2 * row + 2))) len) =
      (if len \<le> dr_len (io_udp_rx s ! row)
       then Inr (Mmap_coherent (dr_cpu (io_udp_rx s ! row)) (dr_addr (io_udp_rx s ! row)) len) else Inl (- EINVAL))"
proof -
  let ?tx = "vma_at start (push_bit 40 (of_nat (2 * row + 1))) len"
  let ?rx = "vma_at start (push_bit 40 (of_nat (2 * row + 2))) len"
  have lt: "2 * row + 1 < 256" "2 * row + 2 < 256" using assms(1) by simp_all
  note at = vma_at_index [OF lt(1) assms(2)] vma_at_index [OF lt(2) assms(2)]
  have idx: "vma_index ?tx = 2 * int row + 1" "vma_index ?rx = 2 * int row + 2" unfolding at by simp_all
  have "iocache_misc_mmap s ?tx = mmap_ring (io_udp_tx s ! row) ?tx"
    unfolding iocache_misc_mmap_def idx using at(5) assms(1) by (simp add: IOCACHE_CACHE_ENTRY_COUNT_def)
  moreover have "iocache_misc_mmap s ?rx = mmap_ring (io_udp_rx s ! row) ?rx"
    unfolding iocache_misc_mmap_def idx using at(10) assms(1) by (simp add: IOCACHE_CACHE_ENTRY_COUNT_def)
  ultimately show ?thesis unfolding mmap_ring_def at by (simp add: not_le [symmetric])
qed

text \<open>
  Which offset maps which ring: for every row, offset \<open>(2 * row + 1) << 40\<close> maps
  its transmit ring and offset \<open>(2 * row + 2) << 40\<close> its receive ring, for any length up to that
  of the ring, and one byte more is refused.
\<close>

lemma iocache_mmap_rings:
  assumes "row < 64" and "unat start + unat len < 2 ^ 64"
  shows "iocache_misc_mmap s (vma_at start (push_bit 40 (of_nat (2 * row + 1))) len) =
      (if len \<le> dr_len (io_udp_tx s ! row)
       then Inr (Mmap_coherent (dr_cpu (io_udp_tx s ! row)) (dr_addr (io_udp_tx s ! row)) len) else Inl (- EINVAL))
    \<and> iocache_misc_mmap s (vma_at start (push_bit 40 (of_nat (2 * row + 2))) len) =
      (if len \<le> dr_len (io_udp_rx s ! row)
       then Inr (Mmap_coherent (dr_cpu (io_udp_rx s ! row)) (dr_addr (io_udp_rx s ! row)) len) else Inl (- EINVAL))"
  by (rule mmap_rings [OF assms])

lemma iocache_mmap_rings_witness:
  "iocache_misc_mmap ringed_iocache (vma_at 0x7f000000 (push_bit 40 8) 0x8001) = Inl (- EINVAL)"
proof -
  have "dr_len (io_udp_rx ringed_iocache ! 3) = IOCACHE_UDP_RING_SIZE"
    by (simp add: ringed_iocache_def rings_done_def IOCACHE_CACHE_ENTRY_COUNT_def nth_append ring_of_def
        alloc_ring_def Let_def split_beta del: upt_Suc)
  then show ?thesis
    using iocache_mmap_rings [of 3 "0x7f000000" "0x8001" ringed_iocache] by (simp add: IOCACHE_UDP_RING_SIZE_def)
qed

end
