(* ===== verification/Common.thy ===== *)
theory Common
  imports Mmio "HOL-Library.Char_ord"
begin

text \<open>
  The header that the user libraries share, boards/default/lib/common.h: MAC and IPv4
  addresses as strings, and \<open>struct connection_info\<close>. The register macros of the header are
  in the theory Mmio. \<open>inet_pton\<close> is the parameter \<open>pton\<close>: the 32-bit value of
  \<open>s_addr\<close>, as a little-endian host reads it, or None.
\<close>

section \<open>Data\<close>

definition MAP_INDEX :: "u64 \<Rightarrow> u64" where
  "MAP_INDEX idx = push_bit 40 idx"

record connection_info =
  ci_protocol :: u8
  ci_src_ip :: u32
  ci_dst_ip :: u32
  ci_src_port :: u16
  ci_dst_port :: u16
  ci_src_mac :: u64
  ci_dst_mac :: u64

section \<open>sscanf and snprintf, as far as they are used\<close>

text \<open>
  \<open>%2x\<close> of the C standard: skip white space, then take the longest prefix of at most two
  characters that can begin a hexadecimal number, with a sign or \<open>0x\<close> in front; the conversion
  fails if that prefix is not a number. A sign leaves room for one digit, and \<open>0x\<close> for none.
\<close>

definition hexval :: "char \<Rightarrow> nat option" where
  "hexval c =
     (let n = of_char c :: nat
      in if 48 \<le> n \<and> n \<le> 57 then Some (n - 48)
      else if 97 \<le> n \<and> n \<le> 102 then Some (n - 87)
      else if 65 \<le> n \<and> n \<le> 70 then Some (n - 55)
      else None)"

definition is_space :: "char \<Rightarrow> bool" where
  "is_space c \<longleftrightarrow> (let n = of_char c :: nat in n = 32 \<or> 9 \<le> n \<and> n \<le> 13)"

definition scan_hex2 :: "string \<Rightarrow> (u32 \<times> string) option" where
  "scan_hex2 s =
     (case dropWhile is_space s of
        [] \<Rightarrow> None
      | c # r \<Rightarrow>
          if c = CHR ''+'' \<or> c = CHR ''-'' then
            (case r of
               [] \<Rightarrow> None
             | d # r' \<Rightarrow>
                 (case hexval d of
                    None \<Rightarrow> None
                  | Some v \<Rightarrow> Some (if c = CHR ''-'' then - of_nat v else of_nat v, r')))
          else
            (case hexval c of
               None \<Rightarrow> None
             | Some v \<Rightarrow>
                 (case r of
                    [] \<Rightarrow> Some (of_nat v, [])
                  | d # r' \<Rightarrow>
                      (case hexval d of
                         Some w \<Rightarrow> Some (of_nat (16 * v + w), r')
                       | None \<Rightarrow>
                           if c = CHR ''0'' \<and> (d = CHR ''x'' \<or> d = CHR ''X'') then None
                           else Some (of_nat v, r)))))"

text \<open>\<open>n\<close> conversions separated by colons; None if fewer than \<open>n\<close> succeed.\<close>

fun scan_bytes :: "nat \<Rightarrow> string \<Rightarrow> u32 list option" where
  "scan_bytes 0 s = Some []"
| "scan_bytes (Suc n) s =
     (case scan_hex2 s of
        None \<Rightarrow> None
      | Some (v, r) \<Rightarrow>
          if n = 0 then Some [v]
          else
            (case r of
               [] \<Rightarrow> None
             | c # r' \<Rightarrow>
                 if c = CHR '':'' then map_option ((#) v) (scan_bytes n r') else None))"

definition hexchar :: "nat \<Rightarrow> char" where
  "hexchar n = ''0123456789abcdef'' ! n"

definition print_02x :: "u64 \<Rightarrow> string" where
  "print_02x v = [hexchar (unat v div 16), hexchar (unat v mod 16)]"

section \<open>MAC addresses\<close>

definition mac_str_to_uint64 :: "string \<Rightarrow> u64 option" where
  "mac_str_to_uint64 mac_str =
     (case scan_bytes 6 mac_str of
        None \<Rightarrow> None
      | Some bytes \<Rightarrow> Some (fold (\<lambda>b mac. push_bit 8 mac OR ucast (b AND 0xFF)) bytes 0))"

text \<open>The result is None where the buffer is too short and nothing is written.\<close>

definition mac_uint64_to_str :: "u64 \<Rightarrow> nat \<Rightarrow> string option" where
  "mac_uint64_to_str mac buflen =
     (if buflen < 18 then None
      else Some (print_02x (drop_bit 40 mac AND 0xFF) @ '':'' @ print_02x (drop_bit 32 mac AND 0xFF) @ '':''
        @ print_02x (drop_bit 24 mac AND 0xFF) @ '':'' @ print_02x (drop_bit 16 mac AND 0xFF) @ '':''
        @ print_02x (drop_bit 8 mac AND 0xFF) @ '':'' @ print_02x (mac AND 0xFF)))"

section \<open>Connections\<close>

definition string_to_ip :: "(string \<Rightarrow> u32 option) \<Rightarrow> string \<Rightarrow> int \<times> u32 option" where
  "string_to_ip pton s = (case pton s of Some a \<Rightarrow> (0, Some a) | None \<Rightarrow> (- 1, None))"

definition str_to_ipv4 :: "(string \<Rightarrow> u32 option) \<Rightarrow> string \<Rightarrow> int \<times> u32 option" where
  "str_to_ipv4 pton s = (if fst (string_to_ip pton s) < 0 then (- 1, None) else (0, snd (string_to_ip pton s)))"

text \<open>\<open>ntohl\<close> on a little-endian host reverses the bytes.\<close>

definition ntohl :: "u32 \<Rightarrow> u32" where
  "ntohl x = push_bit 24 (x AND 0xFF) OR push_bit 8 (x AND 0xFF00)
     OR (drop_bit 8 x AND 0xFF00) OR (drop_bit 24 x AND 0xFF)"

text \<open>
  The pointers that may be NULL are options. The result is the return value and the structure;
  \<open>errno\<close> is \<open>EINVAL\<close> whenever the value is \<open>-1\<close>.
\<close>

definition conn_from_strings ::
    "(string \<Rightarrow> u32 option) \<Rightarrow> connection_info option \<Rightarrow> u8 \<Rightarrow> string option \<Rightarrow> u16 \<Rightarrow> string option \<Rightarrow> u16
      \<Rightarrow> int \<times> connection_info option" where
  "conn_from_strings pton c protocol src_ip_str src_port dst_ip_str dst_port =
     (case (c, src_ip_str, dst_ip_str) of
        (Some ci, Some src, Some dst) \<Rightarrow>
          (case (pton src, pton dst) of
             (Some sip, Some dip) \<Rightarrow>
               (0, Some (ci\<lparr>ci_protocol := protocol, ci_src_ip := ntohl sip, ci_dst_ip := ntohl dip,
                  ci_src_port := src_port, ci_dst_port := dst_port\<rparr>))
           | _ \<Rightarrow> (- 1, c))
      | _ \<Rightarrow> (- 1, c))"

definition conn_from_strings_mac ::
    "(string \<Rightarrow> u32 option) \<Rightarrow> connection_info option \<Rightarrow> u8 \<Rightarrow> string option \<Rightarrow> string option \<Rightarrow> u16
      \<Rightarrow> string option \<Rightarrow> string option \<Rightarrow> u16 \<Rightarrow> int \<times> connection_info option" where
  "conn_from_strings_mac pton c protocol src_mac_str src_ip_str src_port dst_mac_str dst_ip_str dst_port =
     (case (c, src_ip_str, dst_ip_str, src_mac_str, dst_mac_str) of
        (Some ci, Some src, Some dst, Some smac, Some dmac) \<Rightarrow>
          (case (pton src, pton dst, mac_str_to_uint64 smac, mac_str_to_uint64 dmac) of
             (Some sip, Some dip, Some src_mac, Some dst_mac) \<Rightarrow>
               (0, Some (ci\<lparr>ci_protocol := protocol, ci_src_ip := ntohl sip, ci_dst_ip := ntohl dip,
                  ci_src_port := src_port, ci_dst_port := dst_port, ci_src_mac := src_mac, ci_dst_mac := dst_mac\<rparr>))
           | _ \<Rightarrow> (- 1, c))
      | _ \<Rightarrow> (- 1, c))"

section \<open>Round trip\<close>

lemma hex_digits:
  assumes "n < 16"
  shows "hexval (hexchar n) = Some n" and "\<not> is_space (hexchar n)"
    and "hexchar n \<noteq> CHR ''+''" "hexchar n \<noteq> CHR ''-''"
proof -
  have "list_all (\<lambda>n. hexval (hexchar n) = Some n \<and> \<not> is_space (hexchar n) \<and> hexchar n \<noteq> CHR ''+''
      \<and> hexchar n \<noteq> CHR ''-'') [0..<16]"
    by code_simp
  with assms show "hexval (hexchar n) = Some n" "\<not> is_space (hexchar n)"
    "hexchar n \<noteq> CHR ''+''" "hexchar n \<noteq> CHR ''-''"
    by (simp_all add: list_all_iff del: upt_Suc)
qed

lemma scan_print:
  assumes "unat v < 256"
  shows "scan_hex2 (print_02x v @ r) = Some (of_nat (unat v), r)"
proof -
  have "unat v div 16 < 16" "unat v mod 16 < 16" using assms by simp_all
  note d = hex_digits [OF this(1)] hex_digits [OF this(2)]
  have v: "16 * (unat v div 16) + unat v mod 16 = unat v" by simp
  show ?thesis by (simp only: scan_hex2_def print_02x_def append_Cons append_Nil dropWhile.simps d
        list.case option.case if_False simp_thms v)
qed

lemma and_0xFF: "x AND 0xFF = take_bit 8 (x :: 'a::len word)"
  by (simp add: take_bit_eq_mask mask_eq_exp_minus_1)

lemma scan_byte:
  "scan_hex2 (print_02x (x AND 0xFF) @ r) = Some (ucast (x AND 0xFF), r)"
proof -
  have "unat (x AND 0xFF) < 256" unfolding and_0xFF unsigned_take_bit_eq by (simp add: take_bit_eq_mod)
  from scan_print [OF this, of r] show ?thesis by simp
qed

lemma scan_byte_last: "scan_hex2 (print_02x (x AND 0xFF)) = Some (ucast (x AND 0xFF), [])"
  using scan_byte [of x "[]"] by simp

lemma scan_bytes_numeral:
  "scan_bytes (numeral k) s =
     (case scan_hex2 s of
        None \<Rightarrow> None
      | Some (v, r) \<Rightarrow>
          if pred_numeral k = 0 then Some [v]
          else
            (case r of
               [] \<Rightarrow> None
             | c # r' \<Rightarrow> if c = CHR '':'' then map_option ((#) v) (scan_bytes (pred_numeral k) r') else None))"
  by (simp only: numeral_eq_Suc scan_bytes.simps)

lemma join_byte:
  assumes "k \<le> 40"
  shows "push_bit 8 (drop_bit (k + 8) (take_bit 48 m)) OR take_bit 8 (drop_bit k m) = drop_bit k (take_bit 48 (m :: u64))"
proof (rule bit_word_eqI)
  fix n
  show "bit (push_bit 8 (drop_bit (k + 8) (take_bit 48 m)) OR take_bit 8 (drop_bit k m)) n =
      bit (drop_bit k (take_bit 48 m)) n" if "n < LENGTH(64)"
    using assms that by (cases "n < 8") (auto simp: bit_simps ac_simps)
qed

text \<open>
  Property C36. Printing a MAC address and parsing it again gives its low 48 bits back, so
  every MAC address survives the round trip; in particular the parser accepts whatever the
  printer writes, in buffers of at least 18 bytes.
\<close>

theorem mac_roundtrip:
  assumes "18 \<le> buflen"
  shows "Option.bind (mac_uint64_to_str mac buflen) mac_str_to_uint64 = Some (take_bit 48 mac)"
proof -
  have bytes: "scan_bytes 6 (print_02x (x5 AND 0xFF) @ '':'' @ print_02x (x4 AND 0xFF) @ '':'' @ print_02x (x3 AND 0xFF)
      @ '':'' @ print_02x (x2 AND 0xFF) @ '':'' @ print_02x (x1 AND 0xFF) @ '':'' @ print_02x (x0 AND 0xFF)) =
    Some (map (\<lambda>x. ucast (x AND 0xFF)) [x5, x4, x3, x2, x1, x0])" for x5 x4 x3 x2 x1 x0
    by (simp add: scan_bytes_numeral scan_byte scan_byte_last)
  have b: "ucast ((ucast (take_bit 8 x) :: u32) AND 0xFF) = take_bit 8 (x :: u64)" for x
    unfolding and_0xFF by (rule bit_word_eqI) (auto simp: bit_simps)
  have z: "(0 :: u64) = drop_bit 48 (take_bit 48 mac)"
    by (rule bit_word_eqI) (auto simp: bit_simps)
  have "fold (\<lambda>b m. push_bit 8 m OR ucast (b AND 0xFF)) (map (\<lambda>x. ucast (x AND 0xFF) :: u32) [drop_bit 40 mac,
      drop_bit 32 mac, drop_bit 24 mac, drop_bit 16 mac, drop_bit 8 mac, mac]) 0 = take_bit 48 mac"
    unfolding and_0xFF [of "drop_bit _ mac"] and_0xFF [of mac] list.map fold_simps b
    unfolding z using join_byte [of 40 mac] join_byte [of 32 mac] join_byte [of 24 mac] join_byte [of 16 mac]
      join_byte [of 8 mac] join_byte [of 0 mac] by simp
  with assms bytes show ?thesis by (simp add: mac_uint64_to_str_def mac_str_to_uint64_def)
qed

theorem mac_roundtrip_witness:
  "Option.bind (mac_uint64_to_str 0x0c42a1a82de6 18) mac_str_to_uint64 = Some 0x0c42a1a82de6"
  using mac_roundtrip [of 18 "0x0c42a1a82de6"] by simp

end
