(* ===== verification/Iocache_Lib.thy ===== *)
theory Iocache_Lib
  imports Iocache_Misc Common
begin

text \<open>
  The user library of the IOCache, boards/default/lib/iocache_lib.c and iocache_lib.h. Its
  system calls on the device file run the driver's handlers, so this theory composes the
  library with the model of the driver: \<open>ioctl\<close> is \<^const>\<open>iocache_misc_ioctl\<close> and \<open>mmap\<close> is
  \<^const>\<open>iocache_misc_mmap\<close>. The other system calls are logged, and what they return is the
  parameter \<open>E\<close>.
\<close>

section \<open>State\<close>

record iocache_info =
  ii_fd :: int
  ii_regs_offset :: u64
  ii_regs_size :: u64
  ii_row :: int
  ii_cpu :: int
  ii_udp_tx_buffer :: u64
  ii_udp_rx_buffer :: u64
  ii_udp_tx_buffer_aligned :: u64
  ii_udp_rx_buffer_aligned :: u64
  ii_udp_tx_size :: u64
  ii_udp_rx_size :: u64
  ii_regs :: u64
  ii_efd :: int
  ii_ep :: int

datatype sys_call =
    S_open string
  | S_close int
  | S_eventfd
  | S_epoll_create
  | S_epoll_add int int
  | S_mmap u64 u64 map_req      \<comment> \<open>address, length, what the driver maps there\<close>
  | S_munmap u64 u64

text \<open>The driver below the library, and the system calls so far.\<close>

record 'd lib =
  lb_drv :: "'d iocache"
  lb_sys :: "sys_call list"

text \<open>The process that calls: the device, the kernel's answers to the driver, the task, its CPU.\<close>

record 'd ctx =
  cx_dev :: "'d device"
  cx_fdget :: "int \<Rightarrow> int + nat"
  cx_sched :: "'d iocache \<Rightarrow> 'd iocache"
  cx_cur :: u64
  cx_cpu :: int

record lib_env =
  lv_open :: int
  lv_getcpu :: int
  lv_eventfd :: int
  lv_epoll_create :: int
  lv_mmap_addr :: "u64 \<Rightarrow> u64"   \<comment> \<open>where the kernel puts the mapping of a file offset\<close>

definition sys :: "sys_call \<Rightarrow> 'd lib \<Rightarrow> 'd lib" where
  "sys c lb = lb\<lparr>lb_sys := lb_sys lb @ [c]\<rparr>"

section \<open>System calls on the device file\<close>

text \<open>A negative result of the handler becomes \<open>-1\<close> and \<open>errno\<close>.\<close>

definition lib_ioctl :: "'d ctx \<Rightarrow> u32 \<Rightarrow> user_copy \<Rightarrow> 'd lib \<Rightarrow> (int \<times> ioctl_out) \<times> 'd lib" where
  "lib_ioctl X cmd U lb =
     (case iocache_misc_ioctl (cx_dev X) (cx_fdget X) (cx_sched X) (cx_cur X) (cx_cpu X) cmd U (lb_drv lb) of
        ((ret, out), s) \<Rightarrow> ((if ret < 0 then - 1 else ret, out), lb\<lparr>lb_drv := s\<rparr>))"

text \<open>The kernel rounds the length up to pages before it calls the handler.\<close>

definition page_align :: "u64 \<Rightarrow> u64" where
  "page_align len = (len + 0xfff) AND NOT 0xfff"

definition lib_mmap :: "lib_env \<Rightarrow> u64 \<Rightarrow> u64 \<Rightarrow> 'd lib \<Rightarrow> u64 option \<times> 'd lib" where
  "lib_mmap E len off lb =
     (if len = 0 then (None, lb)
      else
        (case iocache_misc_mmap (lb_drv lb) (vma_at (lv_mmap_addr E off) off (page_align len)) of
           Inl _ \<Rightarrow> (None, lb)
         | Inr req \<Rightarrow> (Some (lv_mmap_addr E off), sys (S_mmap (lv_mmap_addr E off) len req) lb)))"

text \<open>Arguments of an ioctl: nothing, an \<open>int\<close>, a region query.\<close>

definition arg_none :: user_copy where
  "arg_none = \<lparr>from_device_info = None, from_region_info = None, from_int = None, to_user_ok = True\<rparr>"

definition arg_int :: "int \<Rightarrow> user_copy" where
  "arg_int v = arg_none\<lparr>from_int := Some v\<rparr>"

definition arg_region :: "u32 \<Rightarrow> user_copy" where
  "arg_region index = arg_none\<lparr>from_region_info := Some \<lparr>ri_argsz = 72, ri_flags = 0, ri_index = index,
     ri_type = 0, ri_next = 0, ri_child = 0, ri_size = 0, ri_offset = 0, ri_name = []\<rparr>\<rparr>"

text \<open>\<open>_iocache_ioctl\<close>: the offset and the size of a region, None for \<open>-1\<close>.\<close>

definition region_ioctl :: "'d ctx \<Rightarrow> u32 \<Rightarrow> 'd lib \<Rightarrow> (u64 \<times> u64) option \<times> 'd lib" where
  "region_ioctl X index lb =
     (case lib_ioctl X IOCACHE_IOCTL_GET_REGION_INFO (arg_region index) lb of
        ((ret, out), lb) \<Rightarrow>
          (if ret = - 1 then None
           else case out of Out_region_info r \<Rightarrow> Some (ri_offset r, ri_size r) | _ \<Rightarrow> Some (0, 0), lb))"

section \<open>Registers\<close>

definition on_regs :: "('d \<Rightarrow> 'd) \<Rightarrow> 'd lib \<Rightarrow> 'd lib" where
  "on_regs f lb = lb\<lparr>lb_drv := on_hw f (lb_drv lb)\<rparr>"

definition iocache_enable_interrupts_rx :: "'d ctx \<Rightarrow> iocache_info \<Rightarrow> 'd lib \<Rightarrow> 'd lib" where
  "iocache_enable_interrupts_rx X info =
     on_regs (reg_write8 (cx_dev X) R_IOCACHE (IOCACHE_REG_INTMASK_RX (ii_cpu info)) 0x1)"

definition iocache_disable_interrupts_rx :: "'d ctx \<Rightarrow> iocache_info \<Rightarrow> 'd lib \<Rightarrow> 'd lib" where
  "iocache_disable_interrupts_rx X info =
     on_regs (reg_write8 (cx_dev X) R_IOCACHE (IOCACHE_REG_INTMASK_RX (ii_cpu info)) 0x0)"

definition iocache_set_rx_suspended :: "'d ctx \<Rightarrow> iocache_info \<Rightarrow> 'd lib \<Rightarrow> 'd lib" where
  "iocache_set_rx_suspended X info =
     on_regs (reg_write8 (cx_dev X) R_IOCACHE (IOCACHE_REG_RX_SUSPENDED (ii_row info)) 0x1)"

definition iocache_clear_rx_suspended :: "'d ctx \<Rightarrow> iocache_info \<Rightarrow> 'd lib \<Rightarrow> 'd lib" where
  "iocache_clear_rx_suspended X info =
     on_regs (reg_write8 (cx_dev X) R_IOCACHE (IOCACHE_REG_RX_SUSPENDED (ii_row info)) 0x0)"

definition iocache_set_txcomp_suspended :: "'d ctx \<Rightarrow> iocache_info \<Rightarrow> 'd lib \<Rightarrow> 'd lib" where
  "iocache_set_txcomp_suspended X info =
     on_regs (reg_write8 (cx_dev X) R_IOCACHE (IOCACHE_REG_TXCOMP_SUSPENDED (ii_row info)) 0x1)"

definition iocache_clear_txcomp_suspended :: "'d ctx \<Rightarrow> iocache_info \<Rightarrow> 'd lib \<Rightarrow> 'd lib" where
  "iocache_clear_txcomp_suspended X info =
     on_regs (reg_write8 (cx_dev X) R_IOCACHE (IOCACHE_REG_TXCOMP_SUSPENDED (ii_row info)) 0x0)"

definition iocache_is_rx_available :: "'d ctx \<Rightarrow> iocache_info \<Rightarrow> 'd lib \<Rightarrow> bool \<times> 'd lib" where
  "iocache_is_rx_available X info lb =
     (case reg_read8 (cx_dev X) R_IOCACHE (IOCACHE_REG_RX_AVAILABLE (ii_row info)) (io_hw (lb_drv lb)) of
        (v, h) \<Rightarrow> (v \<noteq> 0, on_regs (\<lambda>_. h) lb))"

definition iocache_is_txcomp_available :: "'d ctx \<Rightarrow> iocache_info \<Rightarrow> 'd lib \<Rightarrow> bool \<times> 'd lib" where
  "iocache_is_txcomp_available X info lb =
     (case reg_read8 (cx_dev X) R_IOCACHE (IOCACHE_REG_TXCOMP_AVAILABLE (ii_row info)) (io_hw (lb_drv lb)) of
        (v, h) \<Rightarrow> (v \<noteq> 0, on_regs (\<lambda>_. h) lb))"

definition setup_connection_row :: "'d device \<Rightarrow> connection_info \<Rightarrow> int \<Rightarrow> 'd \<Rightarrow> 'd" where
  "setup_connection_row D entry row h =
     (let h = reg_write8 D R_IOCACHE (IOCACHE_REG_PROTOCOL row) (ci_protocol entry) h;
          h = reg_write32 D R_IOCACHE (IOCACHE_REG_SRC_IP row) (ci_src_ip entry) h;
          h = reg_write16 D R_IOCACHE (IOCACHE_REG_SRC_PORT row) (ci_src_port entry) h;
          h = reg_write32 D R_IOCACHE (IOCACHE_REG_DST_IP row) (ci_dst_ip entry) h;
          h = reg_write16 D R_IOCACHE (IOCACHE_REG_DST_PORT row) (ci_dst_port entry) h;
          h = reg_write16 D R_IOCACHE (IOCACHE_REG_CONN_ID row) (ci_src_port entry) h
      in reg_write8 D R_IOCACHE (IOCACHE_REG_ENABLED row) 1 h)"

definition iocache_setup_connection :: "'d ctx \<Rightarrow> iocache_info \<Rightarrow> connection_info \<Rightarrow> 'd lib \<Rightarrow> 'd lib" where
  "iocache_setup_connection X info entry = on_regs (setup_connection_row (cx_dev X) entry (ii_row info))"

definition iocache_clear_connection :: "'d ctx \<Rightarrow> iocache_info \<Rightarrow> 'd lib \<Rightarrow> 'd lib" where
  "iocache_clear_connection X info =
     on_regs (\<lambda>h.
       (let row = ii_row info; D = cx_dev X;
            h = reg_write8 D R_IOCACHE (IOCACHE_REG_PROTOCOL row) 0 h;
            h = reg_write32 D R_IOCACHE (IOCACHE_REG_SRC_IP row) 0 h;
            h = reg_write16 D R_IOCACHE (IOCACHE_REG_SRC_PORT row) 0 h;
            h = reg_write32 D R_IOCACHE (IOCACHE_REG_DST_IP row) 0 h
        in reg_write16 D R_IOCACHE (IOCACHE_REG_DST_PORT row) 0 h))"

definition iocache_set_tx_ring_addr :: "'d ctx \<Rightarrow> u64 \<Rightarrow> int \<Rightarrow> 'd lib \<Rightarrow> 'd lib" where
  "iocache_set_tx_ring_addr X val row = on_regs (reg_write64 (cx_dev X) R_IOCACHE (IOCACHE_REG_TX_RING_ADDR row) val)"

definition iocache_set_tx_ring_size :: "'d ctx \<Rightarrow> u32 \<Rightarrow> int \<Rightarrow> 'd lib \<Rightarrow> 'd lib" where
  "iocache_set_tx_ring_size X val row = on_regs (reg_write32 (cx_dev X) R_IOCACHE (IOCACHE_REG_TX_RING_SIZE row) val)"

definition iocache_set_rx_ring_addr :: "'d ctx \<Rightarrow> u64 \<Rightarrow> int \<Rightarrow> 'd lib \<Rightarrow> 'd lib" where
  "iocache_set_rx_ring_addr X val row = on_regs (reg_write64 (cx_dev X) R_IOCACHE (IOCACHE_REG_RX_RING_ADDR row) val)"

definition iocache_set_rx_ring_size :: "'d ctx \<Rightarrow> u32 \<Rightarrow> int \<Rightarrow> 'd lib \<Rightarrow> 'd lib" where
  "iocache_set_rx_ring_size X val row = on_regs (reg_write32 (cx_dev X) R_IOCACHE (IOCACHE_REG_RX_RING_SIZE row) val)"

section \<open>Waiting, scheduling, rings\<close>

definition iocache_wait_on_rx :: "'d ctx \<Rightarrow> iocache_info \<Rightarrow> 'd lib \<Rightarrow> int \<times> 'd lib" where
  "iocache_wait_on_rx X info lb =
     (case iocache_is_rx_available X info lb of (avail, lb) \<Rightarrow>
      if avail then (0, lb)
      else
        (let lb = iocache_set_rx_suspended X info lb;
             lb = iocache_enable_interrupts_rx X info lb
         in case lib_ioctl X IOCACHE_IOCTL_WAIT_READY arg_none lb of ((ret, _), lb) \<Rightarrow>
            if ret = - 1 then (- 1, iocache_clear_rx_suspended X info lb)
            else
              (case iocache_is_rx_available X info (iocache_clear_rx_suspended X info lb) of (avail, lb) \<Rightarrow>
               (if avail then 0 else - 1, lb))))"

definition iocache_wait_on_txcomp :: "'d lib \<Rightarrow> int \<times> 'd lib" where
  "iocache_wait_on_txcomp lb = (0, lb)"

text \<open>The queries give the value that is copied to the caller with the result.\<close>

definition simple_ioctl :: "'d ctx \<Rightarrow> u32 \<Rightarrow> user_copy \<Rightarrow> 'd lib \<Rightarrow> (int \<times> ioctl_out) \<times> 'd lib" where
  "simple_ioctl X cmd U lb =
     (case lib_ioctl X cmd U lb of ((ret, out), lb) \<Rightarrow>
      if ret = - 1 then ((- 1, Out_nothing), lb) else ((0, out), lb))"

definition iocache_get_last_irq_ns :: "'d ctx \<Rightarrow> 'd lib \<Rightarrow> (int \<times> ioctl_out) \<times> 'd lib" where
  "iocache_get_last_irq_ns X = simple_ioctl X IOCACHE_IOCTL_GET_LAST_IRQ_NS arg_none"

definition iocache_get_last_ktimes :: "'d ctx \<Rightarrow> 'd lib \<Rightarrow> (int \<times> ioctl_out) \<times> 'd lib" where
  "iocache_get_last_ktimes X = simple_ioctl X IOCACHE_IOCTL_GET_KTIMES arg_none"

definition iocache_start_scheduler :: "'d ctx \<Rightarrow> 'd lib \<Rightarrow> int \<times> 'd lib" where
  "iocache_start_scheduler X lb =
     (case simple_ioctl X IOCACHE_IOCTL_RUN_SCHEDULER arg_none lb of ((ret, _), lb) \<Rightarrow> (ret, lb))"

definition iocache_stop_scheduler :: "'d ctx \<Rightarrow> iocache_info \<Rightarrow> 'd lib \<Rightarrow> int \<times> 'd lib" where
  "iocache_stop_scheduler X info lb =
     (case simple_ioctl X IOCACHE_IOCTL_STOP_SCHEDULER (arg_int (ii_row info)) lb of ((ret, _), lb) \<Rightarrow> (ret, lb))"

definition lib_reserve_ring :: "'d ctx \<Rightarrow> int \<Rightarrow> 'd lib \<Rightarrow> iocache_info \<Rightarrow> int \<times> 'd lib \<times> iocache_info" where
  "lib_reserve_ring X row lb info =
     (case lib_ioctl X IOCACHE_IOCTL_RESERVE_RING (arg_int row) lb of ((ret, _), lb) \<Rightarrow>
      if ret = - 1 then (- 1, lb, info) else (0, lb, info\<lparr>ii_row := row\<rparr>))"

definition lib_free_ring :: "'d ctx \<Rightarrow> 'd lib \<Rightarrow> int \<times> 'd lib" where
  "lib_free_ring X lb =
     (case simple_ioctl X IOCACHE_IOCTL_FREE_RING arg_none lb of ((ret, _), lb) \<Rightarrow> (ret, lb))"

section \<open>Open and close\<close>

text \<open>Rounding a pointer up to 64.\<close>

definition align64 :: "u64 \<Rightarrow> u64" where
  "align64 p = (p + (64 - 1)) AND NOT (64 - 1)"

text \<open>The second half of \<open>iocache_open\<close>: the three mappings and their error paths.\<close>

definition open_maps :: "'d ctx \<Rightarrow> lib_env \<Rightarrow> 'd lib \<Rightarrow> iocache_info \<Rightarrow> int \<times> 'd lib \<times> iocache_info" where
  "open_maps X E lb info =
     (case lib_mmap E (ii_regs_size info) (MAP_INDEX 0) lb of
        (None, lb) \<Rightarrow> (- 1, sys (S_close (ii_fd info)) (sys (S_close (ii_efd info)) lb), info)
      | (Some regs, lb) \<Rightarrow>
        (let info = info\<lparr>ii_regs := regs\<rparr>
         in case lib_mmap E (ii_udp_tx_size info + (64 - 1)) (MAP_INDEX (2 * word_of_int (ii_row info) + 1)) lb of
           (None, lb) \<Rightarrow> (- 1, sys (S_close (ii_fd info)) lb, info)
         | (Some p, lb) \<Rightarrow>
           (let info = info\<lparr>ii_udp_tx_buffer := p, ii_udp_tx_buffer_aligned := align64 p\<rparr>
            in case lib_mmap E (ii_udp_rx_size info + (64 - 1)) (MAP_INDEX (2 * word_of_int (ii_row info) + 2)) lb of
              (None, lb) \<Rightarrow>
                (- 1, sys (S_close (ii_fd info)) (sys (S_munmap (ii_regs info) (ii_regs_size info)) lb), info)
            | (Some p, lb) \<Rightarrow>
              (let info = info\<lparr>ii_udp_rx_buffer := p, ii_udp_rx_buffer_aligned := align64 p\<rparr>
               in (0, iocache_enable_interrupts_rx X info lb, info)))))"

definition iocache_open ::
    "'d ctx \<Rightarrow> lib_env \<Rightarrow> string \<Rightarrow> int \<Rightarrow> 'd lib \<Rightarrow> iocache_info \<Rightarrow> int \<times> 'd lib \<times> iocache_info" where
  "iocache_open X E file row lb info =
     (let info = info\<lparr>ii_udp_tx_size := 8 * 1024, ii_udp_rx_size := 8 * 1024\<rparr>;
          lb = sys (S_open file) lb;
          info = info\<lparr>ii_fd := lv_open E\<rparr>
      in if ii_fd info < 0 then (- 1, lb, info)
      else
        (let info = info\<lparr>ii_cpu := lv_getcpu E\<rparr>
         in case region_ioctl X 0 lb of
           (None, lb) \<Rightarrow> (- 1, sys (S_close (ii_fd info)) lb, info)
         | (Some (offset, regs_size), lb) \<Rightarrow>
           (let info = info\<lparr>ii_regs_offset := offset, ii_regs_size := regs_size, ii_efd := lv_eventfd E\<rparr>;
                lb = sys S_eventfd lb
            in case lib_ioctl X IOCACHE_IOCTL_SET_EVENTFD (arg_int (ii_efd info)) lb of
              ((ret, _), lb) \<Rightarrow>
              if ret = - 1 then (- 1, sys (S_close (ii_fd info)) (sys (S_close (ii_efd info)) lb), info)
              else
                (case lib_reserve_ring X row lb info of (_, lb, info) \<Rightarrow>
                 (let info = info\<lparr>ii_ep := lv_epoll_create E\<rparr>;
                      lb = sys S_epoll_create lb;
                      lb = sys (S_epoll_add (ii_ep info) (ii_efd info)) lb
                  in open_maps X E lb info)))))"

definition iocache_close :: "'d ctx \<Rightarrow> 'd lib \<Rightarrow> iocache_info option \<Rightarrow> int \<times> 'd lib" where
  "iocache_close X lb iocache =
     (case iocache of
        None \<Rightarrow> (0, lb)
      | Some info \<Rightarrow>
          (let lb = snd (lib_ioctl X IOCACHE_IOCTL_SET_EVENTFD (arg_int (- 1)) lb);
               lb = iocache_clear_rx_suspended X info lb;
               lb = iocache_clear_connection X info lb;
               lb = sys (S_munmap (ii_regs info) (ii_regs_size info)) lb;
               lb = sys (S_munmap (ii_udp_rx_buffer info) (ii_udp_rx_size info)) lb;
               lb = sys (S_munmap (ii_udp_tx_buffer info) (ii_udp_tx_size info)) lb;
               lb = snd (lib_free_ring X lb);
               lb = sys (S_close (ii_ep info)) lb;
               lb = sys (S_close (ii_efd info)) lb;
               lb = sys (S_close (ii_fd info)) lb
           in (0, lb)))"

section \<open>What the library calls come to\<close>

lemma reserve_ioctl:
  "lib_ioctl X IOCACHE_IOCTL_RESERVE_RING (arg_int row) lb =
     ((0, Out_int row), lb\<lparr>lb_drv := snd (reserve_ring (cx_dev X) (cx_cur X) (cx_cpu X) (arg_int row) (lb_drv lb))\<rparr>)"
  by (simp add: lib_ioctl_def iocache_misc_ioctl_def reg_offsets IOC_def reserve_ring_def arg_int_def arg_none_def
      copy_out_def Let_def)

lemma lib_reserve_ring_eq:
  "lib_reserve_ring X row lb info =
     (0, lb\<lparr>lb_drv := snd (reserve_ring (cx_dev X) (cx_cur X) (cx_cpu X) (arg_int row) (lb_drv lb))\<rparr>, info\<lparr>ii_row := row\<rparr>)"
  by (simp add: lib_reserve_ring_def reserve_ioctl)

lemma region_ioctl_0: "region_ioctl X 0 lb = (Some (0, io_control_size (lb_drv lb)), lb)"
  by (simp add: region_ioctl_def lib_ioctl_def iocache_misc_ioctl_def reg_offsets IOC_def iocache_region_info_def
      arg_region_def arg_none_def region_info_minsz_def copy_out_def clear_region_info_def)

lemma set_eventfd_ioctl:
  "lib_ioctl X IOCACHE_IOCTL_SET_EVENTFD (arg_int efd) lb =
     (case set_eventfd (cx_fdget X) (arg_int efd) (lb_drv lb) of
        ((ret, out), s) \<Rightarrow> ((if ret < 0 then - 1 else ret, out), lb\<lparr>lb_drv := s\<rparr>))"
  by (simp add: lib_ioctl_def iocache_misc_ioctl_def reg_offsets IOC_def)

lemma free_ring_ioctl:
  "lib_free_ring X lb = (0, lb\<lparr>lb_drv := snd (free_ring_row (cx_dev X) (cx_cur X) (lb_drv lb))\<rparr>)"
  by (simp add: lib_free_ring_def simple_ioctl_def lib_ioctl_def iocache_misc_ioctl_def reg_offsets IOC_def
      free_ring_row_def Let_def)

lemma set_eventfd_keeps:
  "io_hw (snd (set_eventfd f U s)) = io_hw s" "io_tasks (snd (set_eventfd f U s)) = io_tasks s"
  "io_udp_tx (snd (set_eventfd f U s)) = io_udp_tx s" "io_udp_rx (snd (set_eventfd f U s)) = io_udp_rx s"
  "io_control_phys (snd (set_eventfd f U s)) = io_control_phys s"
  "io_control_size (snd (set_eventfd f U s)) = io_control_size s"
  by (simp_all add: set_eventfd_def swap_ev_ctx_def put_old_def io_call_def split: option.split sum.split)

lemma reserve_ring_keeps:
  "io_udp_tx (snd (reserve_ring D p cpu U s)) = io_udp_tx s"
  "io_udp_rx (snd (reserve_ring D p cpu U s)) = io_udp_rx s"
  "io_control_phys (snd (reserve_ring D p cpu U s)) = io_control_phys s"
  "io_control_size (snd (reserve_ring D p cpu U s)) = io_control_size s"
  "io_ev_ctx (snd (reserve_ring D p cpu U s)) = io_ev_ctx s"
  by (simp_all add: reserve_ring_def Let_def io_call_def upd_task_def arm_timer_def on_hw_def split: option.split)

text \<open>The driver state after opening: the event context is set and the row reserved.\<close>

definition open_drv :: "'d ctx \<Rightarrow> lib_env \<Rightarrow> int \<Rightarrow> 'd iocache \<Rightarrow> 'd iocache" where
  "open_drv X E row s = snd (reserve_ring (cx_dev X) (cx_cur X) (cx_cpu X) (arg_int row)
     (snd (set_eventfd (cx_fdget X) (arg_int (lv_eventfd E)) s)))"

definition open_info :: "lib_env \<Rightarrow> int \<Rightarrow> 'd iocache \<Rightarrow> iocache_info \<Rightarrow> iocache_info" where
  "open_info E row s info = info\<lparr>ii_udp_tx_size := 8192, ii_udp_rx_size := 8192, ii_fd := lv_open E, ii_cpu := lv_getcpu E,
     ii_regs_offset := 0, ii_regs_size := io_control_size s, ii_efd := lv_eventfd E, ii_row := row,
     ii_ep := lv_epoll_create E\<rparr>"

lemma iocache_open_eq:
  assumes "0 \<le> lv_open E" and "0 \<le> fst (fst (set_eventfd (cx_fdget X) (arg_int (lv_eventfd E)) (lb_drv lb)))"
  shows "iocache_open X E file row lb info =
    open_maps X E (lb\<lparr>lb_drv := open_drv X E row (lb_drv lb),
        lb_sys := lb_sys lb @ [S_open file, S_eventfd, S_epoll_create, S_epoll_add (lv_epoll_create E) (lv_eventfd E)]\<rparr>) (open_info E row (lb_drv lb) info)"
  using assms
  by (simp add: iocache_open_def Let_def region_ioctl_0 set_eventfd_ioctl lib_reserve_ring_eq sys_def split_beta
      open_drv_def open_info_def)

lemma iocache_open_fails:
  assumes "lv_open E < 0 \<or> fst (fst (set_eventfd (cx_fdget X) (arg_int (lv_eventfd E)) (lb_drv lb))) < 0"
  shows "fst (iocache_open X E file row lb info) = - 1"
  using assms by (auto simp: iocache_open_def Let_def region_ioctl_0 set_eventfd_ioctl sys_def split_beta)

section \<open>The mappings\<close>

lemma page_align_8255: "page_align 8255 = 12288"
  by (simp add: page_align_def)

text \<open>What the library asks for, on a driver whose rings have the length the driver gives them.\<close>

lemma lib_mmap_ring:
  assumes "row < 64" and "unat (lv_mmap_addr E off) + 12288 < 2 ^ 64"
    and "dr_len (io_udp_tx (lb_drv lb) ! row) = IOCACHE_UDP_RING_SIZE" "dr_len (io_udp_rx (lb_drv lb) ! row) = IOCACHE_UDP_RING_SIZE"
  shows "off = MAP_INDEX (2 * word_of_int (int row) + 1) \<Longrightarrow> lib_mmap E 8255 off lb = (Some (lv_mmap_addr E off),
      sys (S_mmap (lv_mmap_addr E off) 8255 (Mmap_coherent (dr_cpu (io_udp_tx (lb_drv lb) ! row)) (dr_addr (io_udp_tx (lb_drv lb) ! row)) 12288)) lb)"
    and "off = MAP_INDEX (2 * word_of_int (int row) + 2) \<Longrightarrow> lib_mmap E 8255 off lb = (Some (lv_mmap_addr E off),
      sys (S_mmap (lv_mmap_addr E off) 8255 (Mmap_coherent (dr_cpu (io_udp_rx (lb_drv lb) ! row)) (dr_addr (io_udp_rx (lb_drv lb) ! row)) 12288)) lb)"
proof -
  have len: "unat (12288 :: u64) = 12288" "(12288 :: u64) \<le> IOCACHE_UDP_RING_SIZE" by (simp_all add: IOCACHE_UDP_RING_SIZE_def)
  have off: "MAP_INDEX (2 * word_of_int (int row) + 1) = push_bit 40 (of_nat (2 * row + 1))"
      "MAP_INDEX (2 * word_of_int (int row) + 2) = push_bit 40 (of_nat (2 * row + 2))"
    by (simp_all add: MAP_INDEX_def add.commute)
  have "unat (lv_mmap_addr E off) + unat (12288 :: u64) < 2 ^ 64" unfolding len by (rule assms(2))
  note m = mmap_rings [OF assms(1) this, of "lb_drv lb", unfolded assms(3,4) if_P [OF len(2)]]
  show "lib_mmap E 8255 off lb = (Some (lv_mmap_addr E off),
      sys (S_mmap (lv_mmap_addr E off) 8255 (Mmap_coherent (dr_cpu (io_udp_tx (lb_drv lb) ! row)) (dr_addr (io_udp_tx (lb_drv lb) ! row)) 12288)) lb)"
    if "off = MAP_INDEX (2 * word_of_int (int row) + 1)"
    using m(1) unfolding lib_mmap_def page_align_8255 that off by simp
  show "lib_mmap E 8255 off lb = (Some (lv_mmap_addr E off),
      sys (S_mmap (lv_mmap_addr E off) 8255 (Mmap_coherent (dr_cpu (io_udp_rx (lb_drv lb) ! row)) (dr_addr (io_udp_rx (lb_drv lb) ! row)) 12288)) lb)"
    if "off = MAP_INDEX (2 * word_of_int (int row) + 2)"
    using m unfolding lib_mmap_def page_align_8255 that off by simp
qed

lemma lib_mmap_regs:
  assumes "0 < io_control_size (lb_drv lb)" and "page_align (io_control_size (lb_drv lb)) = io_control_size (lb_drv lb)"
    and "unat (lv_mmap_addr E (MAP_INDEX 0)) + unat (io_control_size (lb_drv lb)) < 2 ^ 64"
  shows "lib_mmap E (io_control_size (lb_drv lb)) (MAP_INDEX 0) lb = (Some (lv_mmap_addr E (MAP_INDEX 0)),
    sys (S_mmap (lv_mmap_addr E (MAP_INDEX 0)) (io_control_size (lb_drv lb))
      (Remap_pfn (lv_mmap_addr E (MAP_INDEX 0)) (drop_bit PAGE_SHIFT (io_control_phys (lb_drv lb))) (io_control_size (lb_drv lb)))) lb)"
proof -
  let ?a = "lv_mmap_addr E (MAP_INDEX 0)" and ?n = "io_control_size (lb_drv lb)"
  have off: "MAP_INDEX 0 = push_bit 40 (of_nat 0)" by (simp add: MAP_INDEX_def)
  note at = vma_at_index [of 0 ?a ?n, OF _ assms(3), folded off]
  have "iocache_misc_mmap (lb_drv lb) (vma_at ?a (MAP_INDEX 0) ?n) =
      Inr (Remap_pfn ?a (drop_bit PAGE_SHIFT (io_control_phys (lb_drv lb))) ?n)"
    using at by (simp add: iocache_misc_mmap_def remap_window_def) (simp add: vma_at_def)
  with assms(1,2) show ?thesis by (simp add: lib_mmap_def)
qed

text \<open>A driver as a successful probe leaves it, for what the library needs of it.\<close>

definition drv_ready :: "'d iocache \<Rightarrow> bool" where
  "drv_ready s \<longleftrightarrow> (\<forall>i<64. dr_len (io_udp_tx s ! i) = IOCACHE_UDP_RING_SIZE \<and> dr_len (io_udp_rx s ! i) = IOCACHE_UDP_RING_SIZE)
     \<and> 0 < io_control_size s \<and> page_align (io_control_size s) = io_control_size s"

text \<open>The process gets descriptors, a CPU number and addresses below \<open>2^47\<close>.\<close>

definition env_ready :: "'d ctx \<Rightarrow> lib_env \<Rightarrow> 'd iocache \<Rightarrow> bool" where
  "env_ready X E s \<longleftrightarrow> 0 \<le> lv_open E \<and> 0 \<le> lv_getcpu E \<and> lv_getcpu E < int NUM_CPUS
     \<and> 0 \<le> fst (fst (set_eventfd (cx_fdget X) (arg_int (lv_eventfd E)) s))
     \<and> unat (io_control_size s) < 2 ^ 47 \<and> (\<forall>off. unat (lv_mmap_addr E off) < 2 ^ 47)"

lemma open_drv_keeps:
  "io_udp_tx (open_drv X E row s) = io_udp_tx s" "io_udp_rx (open_drv X E row s) = io_udp_rx s"
  "io_control_phys (open_drv X E row s) = io_control_phys s" "io_control_size (open_drv X E row s) = io_control_size s"
  by (simp_all add: open_drv_def reserve_ring_keeps set_eventfd_keeps)

text \<open>The three mappings of an open that succeeds.\<close>

definition open_mappings :: "lib_env \<Rightarrow> nat \<Rightarrow> 'd iocache \<Rightarrow> sys_call list" where
  "open_mappings E row s =
     [S_mmap (lv_mmap_addr E (MAP_INDEX 0)) (io_control_size s)
        (Remap_pfn (lv_mmap_addr E (MAP_INDEX 0)) (drop_bit PAGE_SHIFT (io_control_phys s)) (io_control_size s)),
      S_mmap (lv_mmap_addr E (MAP_INDEX (2 * of_nat row + 1))) 8255
        (Mmap_coherent (dr_cpu (io_udp_tx s ! row)) (dr_addr (io_udp_tx s ! row)) 12288),
      S_mmap (lv_mmap_addr E (MAP_INDEX (2 * of_nat row + 2))) 8255
        (Mmap_coherent (dr_cpu (io_udp_rx s ! row)) (dr_addr (io_udp_rx s ! row)) 12288)]"

lemma open_maps_ok:
  assumes "row < 64" and "drv_ready (lb_drv lb)" and "\<forall>off. unat (lv_mmap_addr E off) < 2 ^ 47"
    and "unat (io_control_size (lb_drv lb)) < 2 ^ 47"
    and "ii_row info = int row" "ii_regs_size info = io_control_size (lb_drv lb)"
      "ii_udp_tx_size info = 8192" "ii_udp_rx_size info = 8192"
  shows "\<exists>info'. open_maps X E lb info =
      (0, iocache_enable_interrupts_rx X info (lb\<lparr>lb_sys := lb_sys lb @ open_mappings E row (lb_drv lb)\<rparr>), info')
    \<and> ii_row info' = int row \<and> ii_udp_tx_buffer info' = lv_mmap_addr E (MAP_INDEX (2 * of_nat row + 1))
    \<and> ii_udp_rx_buffer info' = lv_mmap_addr E (MAP_INDEX (2 * of_nat row + 2)) \<and> ii_cpu info' = ii_cpu info
    \<and> ii_fd info' = ii_fd info \<and> ii_efd info' = ii_efd info \<and> ii_ep info' = ii_ep info"
proof -
  let ?off1 = "MAP_INDEX (2 * of_nat row + 1)" and ?off2 = "MAP_INDEX (2 * of_nat row + 2)"
  have bound: "unat (lv_mmap_addr E off) + 12288 < 2 ^ 64" "unat (lv_mmap_addr E off) + unat (io_control_size (lb_drv lb)) < 2 ^ 64" for off
    using assms(3) [rule_format, of off] assms(4) by simp_all
  have len: "dr_len (io_udp_tx (lb_drv lb) ! row) = IOCACHE_UDP_RING_SIZE" "dr_len (io_udp_rx (lb_drv lb) ! row) = IOCACHE_UDP_RING_SIZE"
    and reg: "0 < io_control_size (lb_drv lb)" "page_align (io_control_size (lb_drv lb)) = io_control_size (lb_drv lb)"
    using assms(1,2) by (auto simp: drv_ready_def)
  note m0 = lib_mmap_regs [OF reg bound(2)]
  have m1: "lib_mmap E 8255 ?off1 lb' = (Some (lv_mmap_addr E ?off1), sys (S_mmap (lv_mmap_addr E ?off1) 8255
      (Mmap_coherent (dr_cpu (io_udp_tx (lb_drv lb) ! row)) (dr_addr (io_udp_tx (lb_drv lb) ! row)) 12288)) lb')"
    and m2: "lib_mmap E 8255 ?off2 lb' = (Some (lv_mmap_addr E ?off2), sys (S_mmap (lv_mmap_addr E ?off2) 8255
      (Mmap_coherent (dr_cpu (io_udp_rx (lb_drv lb) ! row)) (dr_addr (io_udp_rx (lb_drv lb) ! row)) 12288)) lb')"
    if "lb_drv lb' = lb_drv lb" for lb'
    using lib_mmap_ring [OF assms(1) bound(1), of lb'] that len by simp_all
  show ?thesis
    unfolding open_maps_def assms(6) m0
    by (simp add: Let_def assms(5-8) m1 m2 sys_def open_mappings_def iocache_enable_interrupts_rx_def)
qed

section \<open>Opening\<close>

lemma owns_low_write:
  assumes "storage_device D iocache_storage peek" and "row < 64" and "unat off + n \<le> 0x300"
  shows "owns peek (on_hw (dev_write D R_IOCACHE n off v) s) p row = owns peek s p row"
proof -
  have "peek (dev_write D R_IOCACHE n off v (io_hw s)) x = peek (io_hw s) x" if "x \<in> iocache_storage" for x
    using storage_device.write_peek [OF assms(1) _ that, of R_IOCACHE off n] span_low_outside [OF assms(3)] that by auto
  then show ?thesis using assms(2) by (intro owns_same_storage) (simp_all add: on_hw_def)
qed

lemma unat_intmask_rx:
  assumes "0 \<le> c" and "c < int NUM_CPUS"
  shows "unat (IOCACHE_REG_INTMASK_RX c) = 16 * nat c"
  using assms by (simp add: reg_offsets unat_word_ariths unat_word_of_int_small NUM_CPUS_def nat_less_iff)

text \<open>
  Property C4. Opening the library on a driver that is ready, with a row of the table, succeeds.
  Afterwards the row belongs to the calling task, and the process has three mappings: the
  control window, and the transmit and the receive ring of that row, from the beginning of
  their buffers.
\<close>

theorem iocache_open_owns:
  assumes "storage_device (cx_dev X) iocache_storage peek" and "row < 64" and "drv_ready (lb_drv lb)"
    and "env_ready X E (lb_drv lb)"
  shows "\<exists>lb' info'. iocache_open X E file (int row) lb info = (0, lb', info')
    \<and> ii_row info' = int row \<and> owns peek (lb_drv lb') (cx_cur X) row
    \<and> ii_udp_tx_buffer info' = lv_mmap_addr E (MAP_INDEX (2 * of_nat row + 1))
    \<and> ii_udp_rx_buffer info' = lv_mmap_addr E (MAP_INDEX (2 * of_nat row + 2))
    \<and> lb_sys lb' = lb_sys lb @ [S_open file, S_eventfd, S_epoll_create, S_epoll_add (lv_epoll_create E) (lv_eventfd E)]
        @ open_mappings E row (lb_drv lb)"
proof -
  let ?d = "open_drv X E (int row) (lb_drv lb)"
  define l where "l = lb\<lparr>lb_drv := ?d, lb_sys := lb_sys lb @ [S_open file, S_eventfd, S_epoll_create,
      S_epoll_add (lv_epoll_create E) (lv_eventfd E)]\<rparr>"
  let ?i = "open_info E (int row) (lb_drv lb) info"
  have env: "0 \<le> lv_open E" "0 \<le> fst (fst (set_eventfd (cx_fdget X) (arg_int (lv_eventfd E)) (lb_drv lb)))"
      "\<forall>off. unat (lv_mmap_addr E off) < 2 ^ 47" "unat (io_control_size (lb_drv lb)) < 2 ^ 47"
      "0 \<le> lv_getcpu E" "lv_getcpu E < int NUM_CPUS"
    using assms(4) by (simp_all add: env_ready_def)
  have "drv_ready (lb_drv l)" using assms(3) by (simp add: l_def drv_ready_def open_drv_keeps)
  with open_maps_ok [OF assms(2) this env(3), of ?i X] env(4) obtain info' where
      "open_maps X E l ?i = (0, iocache_enable_interrupts_rx X ?i (l\<lparr>lb_sys := lb_sys l @ open_mappings E row (lb_drv l)\<rparr>), info')"
      "ii_row info' = int row" "ii_udp_tx_buffer info' = lv_mmap_addr E (MAP_INDEX (2 * of_nat row + 1))"
      "ii_udp_rx_buffer info' = lv_mmap_addr E (MAP_INDEX (2 * of_nat row + 2))"
    by (auto simp: l_def open_drv_keeps open_info_def)
  moreover have "iocache_open X E file (int row) lb info = open_maps X E l ?i"
    unfolding iocache_open_eq [OF env(1,2)] l_def ..
  moreover have "owns peek ?d (cx_cur X) row"
    unfolding open_drv_def by (rule reserve_ring_owns [OF assms(1,2)]) (simp add: arg_int_def)
  then have "owns peek (lb_drv (iocache_enable_interrupts_rx X ?i (l\<lparr>lb_sys := u\<rparr>))) (cx_cur X) row" for u
    using unat_intmask_rx [OF env(5,6)] env(5,6)
    by (simp add: iocache_enable_interrupts_rx_def on_regs_def reg_write_aligned iowrite8_def [abs_def] l_def
        open_info_def owns_low_write [OF assms(1,2)] NUM_CPUS_def)
  moreover have "open_mappings E row (lb_drv l) = open_mappings E row (lb_drv lb)"
    by (simp add: open_mappings_def l_def open_drv_keeps)
  moreover have "lb_sys (iocache_enable_interrupts_rx X i lb') = lb_sys lb'" for i lb'
    by (simp add: iocache_enable_interrupts_rx_def on_regs_def)
  ultimately show ?thesis by (simp add: l_def)
qed

text \<open>A process and a driver for examples.\<close>

definition demo_ctx :: "(region \<Rightarrow> bytes_at) ctx" where
  "demo_ctx = \<lparr>cx_dev = ram_device, cx_fdget = (\<lambda>_. Inr 1), cx_sched = id, cx_cur = 11, cx_cpu = 1\<rparr>"

definition demo_lib_env :: lib_env where
  "demo_lib_env = \<lparr>lv_open = 3, lv_getcpu = 1, lv_eventfd = 4, lv_epoll_create = 5,
     lv_mmap_addr = (\<lambda>off. 0x40000000 + drop_bit 24 off)\<rparr>"

definition demo_lib :: "(region \<Rightarrow> bytes_at) lib" where
  "demo_lib = \<lparr>lb_drv = (rings_done demo_alloc IOCACHE_CACHE_ENTRY_COUNT (zero_iocache (\<lambda>r a. 0)))
     \<lparr>io_control_phys := 0x10040000, io_control_size := 0x8000\<rparr>, lb_sys = []\<rparr>"

definition zero_info :: iocache_info where
  "zero_info = \<lparr>ii_fd = 0, ii_regs_offset = 0, ii_regs_size = 0, ii_row = 0, ii_cpu = 0, ii_udp_tx_buffer = 0,
     ii_udp_rx_buffer = 0, ii_udp_tx_buffer_aligned = 0, ii_udp_rx_buffer_aligned = 0, ii_udp_tx_size = 0,
     ii_udp_rx_size = 0, ii_regs = 0, ii_efd = 0, ii_ep = 0\<rparr>"

lemma demo_lib_ready: "drv_ready (lb_drv demo_lib)"
  by (auto simp: drv_ready_def demo_lib_def rings_done_def IOCACHE_CACHE_ENTRY_COUNT_def nth_append ring_of_def
      alloc_ring_def Let_def split_beta page_align_def simp del: upt_Suc)

lemma demo_env_lib_ready: "env_ready demo_ctx demo_lib_env (lb_drv demo_lib)"
proof -
  have "unat (0x40000000 + drop_bit 24 off :: u64) < 2 ^ 47" for off
  proof -
    have "unat (drop_bit 24 off) < 2 ^ 40"
      unfolding unat_drop_bit using unsigned_less [of off, where 'a = nat] by (simp add: less_mult_imp_div_less)
    then show ?thesis by (simp add: unat_word_ariths)
  qed
  then show ?thesis
    by (simp add: env_ready_def demo_lib_env_def demo_ctx_def demo_lib_def set_eventfd_def arg_int_def NUM_CPUS_def)
qed

theorem iocache_open_owns_witness:
  "fst (iocache_open demo_ctx demo_lib_env ''/dev/iocache-misc'' (int 3) demo_lib zero_info) = 0"
proof -
  have "storage_device (cx_dev demo_ctx) iocache_storage (\<lambda>m (r, a). m r a)"
    by (simp add: demo_ctx_def ram_storage)
  from iocache_open_owns [OF this _ demo_lib_ready demo_env_lib_ready, of 3 "''/dev/iocache-misc''" zero_info]
  show ?thesis by auto
qed

section \<open>Connections\<close>

text \<open>A sequence of writes to fields of one row, and what a field of the row then holds.\<close>

definition row_writes :: "nat \<Rightarrow> (u64 \<times> nat \<times> u64) list \<Rightarrow> wr list" where
  "row_writes row fs = map (\<lambda>(off, n, v). (R_IOCACHE, n, IOCACHE_REG (int row) off, v)) fs"

lemma row_writes_reg:
  assumes "storage_device D iocache_storage peek" and "row < 64" and "(off, n, v) \<in> set fs" and "0 < n"
    and "unat off + n \<le> 0x30 \<or> 0x60 \<le> unat off \<and> unat off + n \<le> 0x90"
    and "\<forall>(off', n', v')\<in>set fs. field_ok off' n' \<and>
      ((off', n', v') = (off, n, v) \<or> unat off' + n' \<le> unat off \<or> unat off + n \<le> unat off')"
  shows "reg_val peek (fold (do_write D) (row_writes row fs) h) R_IOCACHE (IOCACHE_REG (int row) off) n = take_bit (8 * n) v"
proof (rule storage_device.reg_val_writes [OF assms(1)])
  show "span R_IOCACHE (IOCACHE_REG (int row) off) n \<subseteq> iocache_storage"
    using assms(2,5) by (intro span_row_storage) auto
  show "(R_IOCACHE, n, IOCACHE_REG (int row) off, v) \<in> set (row_writes row fs)"
    using assms(3) by (force simp: row_writes_def)
  show "\<forall>w\<in>set (row_writes row fs). wr_in iocache_storage w \<and>
      (w = (R_IOCACHE, n, IOCACHE_REG (int row) off, v) \<or> apart w R_IOCACHE (IOCACHE_REG (int row) off) n)"
  proof
    fix w assume "w \<in> set (row_writes row fs)"
    then obtain off' n' v' where f: "(off', n', v') \<in> set fs" and w: "w = (R_IOCACHE, n', IOCACHE_REG (int row) off', v')"
      by (auto simp: row_writes_def)
    from assms(6) f have ok: "field_ok off' n'"
      and d: "(off', n', v') = (off, n, v) \<or> unat off' + n' \<le> unat off \<or> unat off + n \<le> unat off'"
      by auto
    have "wr_in iocache_storage w" unfolding w using assms(2) ok by (intro field_wr_in) auto
    moreover have "apart w R_IOCACHE (IOCACHE_REG (int row) off) n" if "unat off' + n' \<le> unat off \<or> unat off + n \<le> unat off'"
      unfolding w using assms(2,4,5) ok that unfolding field_ok_def by (intro rows_apart) linarith+
    ultimately show "wr_in iocache_storage w \<and>
        (w = (R_IOCACHE, n, IOCACHE_REG (int row) off, v) \<or> apart w R_IOCACHE (IOCACHE_REG (int row) off) n)"
      using d w by blast
  qed
qed

lemma row_writes_other:
  assumes "storage_device D iocache_storage peek" and "row < 64" and "q < 64" and "q \<noteq> row"
    and "list_all (\<lambda>(off, n, v). field_ok off n) fs"
    and "0 < k" and "unat b + k \<le> 0x30 \<or> 0x60 \<le> unat b \<and> unat b + k \<le> 0x90"
  shows "reg_val peek (fold (do_write D) (row_writes row fs) h) R_IOCACHE (IOCACHE_REG (int q) b) k =
    reg_val peek h R_IOCACHE (IOCACHE_REG (int q) b) k"
  using assms(5)
proof (induction fs arbitrary: h)
  case (Cons f fs)
  obtain off n v where f: "f = (off, n, v)" by (cases f)
  with Cons.prems have "field_ok off n" by simp
  with row_write_other [OF assms(1), of "int row" off n "int q" b k v h] assms(2-4,6,7)
  have "reg_val peek (dev_write D R_IOCACHE n (IOCACHE_REG (int row) off) v h) R_IOCACHE (IOCACHE_REG (int q) b) k =
      reg_val peek h R_IOCACHE (IOCACHE_REG (int q) b) k" by simp
  with Cons show ?case by (simp add: f row_writes_def)
qed (simp add: row_writes_def)

lemma row_reg_aligned:
  assumes "row < 64" and "unat off < 0x100" and "k dvd unat off" and "k dvd 0x100"
  shows "k dvd unat (IOCACHE_REG (int row) off)"
proof -
  have "unat (IOCACHE_REG (int row) off) = (3 + row) * 0x100 + unat off"
    using unat_iocache_reg [of "int row" off] assms(1,2) by simp
  with assms(3,4) show ?thesis by (metis dvd_add dvd_mult)
qed

definition conn_fields :: "connection_info \<Rightarrow> (u64 \<times> nat \<times> u64) list" where
  "conn_fields c = [(0x08, 1, ucast (ci_protocol c)), (0x10, 4, ucast (ci_src_ip c)), (0x18, 2, ucast (ci_src_port c)),
     (0x20, 4, ucast (ci_dst_ip c)), (0x28, 2, ucast (ci_dst_port c)), (0x58, 2, ucast (ci_src_port c)), (0x00, 1, 1)]"

lemma setup_row_writes:
  assumes "row < 64"
  shows "setup_connection_row D c (int row) h = fold (do_write D) (row_writes row (conn_fields c)) h"
proof -
  have al: "4 dvd unat (IOCACHE_REG (int row) 0x10)" "2 dvd unat (IOCACHE_REG (int row) 0x18)"
      "4 dvd unat (IOCACHE_REG (int row) 0x20)" "2 dvd unat (IOCACHE_REG (int row) 0x28)" "2 dvd unat (IOCACHE_REG (int row) 0x58)"
    by (rule row_reg_aligned [OF assms]; simp)+
  show ?thesis
    using al
    by (simp add: setup_connection_row_def Let_def reg_offsets reg_write_aligned iowrite8_def iowrite16_def iowrite32_def
        row_writes_def conn_fields_def)
qed

text \<open>
  Property C11. Setting up a connection fills the row of the library with exactly that
  connection: afterwards the protocol, the addresses and the ports of the row are those of
  the connection, the row is enabled, and the software fields of every other row are as before.
\<close>

theorem setup_connection_regs:
  assumes "storage_device (cx_dev X) iocache_storage peek" and "row < 64" and "ii_row info = int row"
    and "h' = io_hw (lb_drv (iocache_setup_connection X info c lb))"
  shows "reg_val peek h' R_IOCACHE (IOCACHE_REG_PROTOCOL (int row)) 1 = ucast (ci_protocol c)
    \<and> reg_val peek h' R_IOCACHE (IOCACHE_REG_SRC_IP (int row)) 4 = ucast (ci_src_ip c)
    \<and> reg_val peek h' R_IOCACHE (IOCACHE_REG_SRC_PORT (int row)) 2 = ucast (ci_src_port c)
    \<and> reg_val peek h' R_IOCACHE (IOCACHE_REG_DST_IP (int row)) 4 = ucast (ci_dst_ip c)
    \<and> reg_val peek h' R_IOCACHE (IOCACHE_REG_DST_PORT (int row)) 2 = ucast (ci_dst_port c)
    \<and> reg_val peek h' R_IOCACHE (IOCACHE_REG_ENABLED (int row)) 1 = 1
    \<and> (\<forall>q b k. q < 64 \<and> q \<noteq> row \<and> 0 < k \<and> (unat b + k \<le> 0x30 \<or> 0x60 \<le> unat b \<and> unat b + k \<le> 0x90) \<longrightarrow>
        reg_val peek h' R_IOCACHE (IOCACHE_REG (int q) b) k = reg_val peek (io_hw (lb_drv lb)) R_IOCACHE (IOCACHE_REG (int q) b) k)"
proof -
  let ?h = "io_hw (lb_drv lb)" and ?fs = "conn_fields c"
  have h': "h' = fold (do_write (cx_dev X)) (row_writes row ?fs) ?h"
    using assms(3,4) by (simp add: iocache_setup_connection_def on_regs_def on_hw_def setup_row_writes [OF assms(2)])
  have reg: "reg_val peek h' R_IOCACHE (IOCACHE_REG (int row) off) n = take_bit (8 * n) v"
    if "(off, n, v) \<in> set ?fs" "off \<noteq> 0x58" for off n v
    unfolding h'
    by (rule row_writes_reg [OF assms(1,2) that(1)]) (use that in \<open>auto simp: conn_fields_def field_ok_def\<close>)
  have other: "reg_val peek h' R_IOCACHE (IOCACHE_REG (int q) b) k = reg_val peek ?h R_IOCACHE (IOCACHE_REG (int q) b) k"
    if "q < 64" "q \<noteq> row" "0 < k" "unat b + k \<le> 0x30 \<or> 0x60 \<le> unat b \<and> unat b + k \<le> 0x90" for q b k
    unfolding h' by (rule row_writes_other [OF assms(1,2) that(1,2) _ that(3,4)]) (simp add: conn_fields_def field_ok_def)
  have "take_bit 8 (ucast (x :: u8) :: u64) = ucast x" "take_bit 16 (ucast (y :: u16) :: u64) = ucast y"
      "take_bit 32 (ucast (z :: u32) :: u64) = ucast z" for x y z
    using take_bit_ucast [of x] take_bit_ucast [of y] take_bit_ucast [of z] by simp_all
  with reg other show ?thesis by (simp add: conn_fields_def reg_offsets)
qed

theorem setup_connection_regs_witness:
  "\<exists>c. conn_from_strings (\<lambda>_. Some 0x0100007f) (Some \<lparr>ci_protocol = 0, ci_src_ip = 0, ci_dst_ip = 0, ci_src_port = 0,
       ci_dst_port = 0, ci_src_mac = 0, ci_dst_mac = 0\<rparr>) 0x11 (Some ''127.0.0.1'') 1111 (Some ''127.0.0.1'') 2222 = (0, Some c)
     \<and> reg_val (\<lambda>m (r, a). m r a) (io_hw (lb_drv (iocache_setup_connection demo_ctx (zero_info\<lparr>ii_row := 3\<rparr>) c demo_lib)))
         R_IOCACHE (IOCACHE_REG_SRC_IP (int 3)) 4 = 0x7f000001"
proof -
  have "storage_device (cx_dev demo_ctx) iocache_storage (\<lambda>m (r, a). m r a)"
    by (simp add: demo_ctx_def ram_storage)
  from setup_connection_regs [OF this, of 3 "zero_info\<lparr>ii_row := 3\<rparr>", OF _ _ refl] show ?thesis
    by (simp add: conn_from_strings_def ntohl_def)
qed

section \<open>Closing\<close>

definition close_fields :: "(u64 \<times> nat \<times> u64) list" where
  "close_fields = [(0x38, 1, 0), (0x08, 1, 0), (0x10, 4, 0), (0x18, 2, 0), (0x20, 4, 0), (0x28, 2, 0),
     (0x00, 1, 0), (0x68, 4, 0), (0x60, 8, 0)]"

lemmas conn_regs = IOCACHE_REG_PROTOCOL_def IOCACHE_REG_SRC_IP_def IOCACHE_REG_SRC_PORT_def IOCACHE_REG_DST_IP_def
  IOCACHE_REG_DST_PORT_def IOCACHE_PROTOCOL_OFF_def IOCACHE_SRC_IP_OFF_def IOCACHE_SRC_PORT_OFF_def
  IOCACHE_DST_IP_OFF_def IOCACHE_DST_PORT_OFF_def

lemma iocache_close_state:
  assumes "row < 64" and "ii_row info = int row" and "t_iocache_id (io_tasks (lb_drv lb) (cx_cur X)) = int row"
    and "iocache_close X lb (Some info) = (r, lb')"
  shows "r = 0" and "io_ev_ctx (lb_drv lb') = None"
    and "io_hw (lb_drv lb') = fold (do_write (cx_dev X)) (row_writes row close_fields) (io_hw (lb_drv lb))"
    and "io_tasks (lb_drv lb') = io_tasks (lb_drv lb)"
    and "lb_sys lb' = lb_sys lb @ [S_munmap (ii_regs info) (ii_regs_size info), S_munmap (ii_udp_rx_buffer info) (ii_udp_rx_size info),
      S_munmap (ii_udp_tx_buffer info) (ii_udp_tx_size info), S_close (ii_ep info), S_close (ii_efd info), S_close (ii_fd info)]"
proof -
  have al: "4 dvd unat (IOCACHE_REG (int row) 0x10)" "2 dvd unat (IOCACHE_REG (int row) 0x18)"
      "4 dvd unat (IOCACHE_REG (int row) 0x20)" "2 dvd unat (IOCACHE_REG (int row) 0x28)"
    by (rule row_reg_aligned [OF assms(1)]; simp)+
  have ev: "snd (lib_ioctl X IOCACHE_IOCTL_SET_EVENTFD (arg_int (- 1)) lb) = lb\<lparr>lb_drv := swap_ev_ctx None (lb_drv lb)\<rparr>"
    unfolding set_eventfd_ioctl by (simp add: set_eventfd_def arg_int_def)
  have sw: "io_hw (swap_ev_ctx None s) = io_hw s" "io_tasks (swap_ev_ctx None s) = io_tasks s" "io_ev_ctx (swap_ev_ctx None s) = None"
    for s :: "'a iocache"
    by (simp_all add: swap_ev_ctx_def put_old_def io_call_def split: option.split)
  note eval = iocache_close_def Let_def ev free_ring_ioctl free_ring_state sys_def on_regs_def on_hw_def sw assms(2,3)
    iocache_clear_rx_suspended_def iocache_clear_connection_def
  show "r = 0" "io_ev_ctx (lb_drv lb') = None" "io_tasks (lb_drv lb') = io_tasks (lb_drv lb)"
    "lb_sys lb' = lb_sys lb @ [S_munmap (ii_regs info) (ii_regs_size info), S_munmap (ii_udp_rx_buffer info) (ii_udp_rx_size info),
      S_munmap (ii_udp_tx_buffer info) (ii_udp_tx_size info), S_close (ii_ep info), S_close (ii_efd info), S_close (ii_fd info)]"
    using assms(4) by (auto simp: eval)
  show "io_hw (lb_drv lb') = fold (do_write (cx_dev X)) (row_writes row close_fields) (io_hw (lb_drv lb))"
    using assms(4) al
    by (auto simp: eval row_regs conn_regs reg_write_aligned iowrite8_def iowrite16_def iowrite32_def own_writes_def row_writes_def close_fields_def)
qed



section \<open>Waiting\<close>

lemma wait_ioctl:
  "lib_ioctl X IOCACHE_IOCTL_WAIT_READY U lb =
     ((0, Out_nothing), lb\<lparr>lb_drv := wait_end (cx_cur X) (cx_sched X (wait_begin (cx_dev X) (cx_cur X) (lb_drv lb)))\<rparr>)"
  by (simp add: lib_ioctl_def iocache_misc_ioctl_def reg_offsets IOC_def wait_ready_def)



text \<open>
  Opening with a row that does not exist fails late and leaks. The driver accepts the
  reservation of the row, the registers are mapped, and only the mapping of the ring is
  refused. The result is \<open>-1\<close>; of what was acquired only the device file is closed, while the
  event descriptor, the epoll descriptor and the mapping of the registers remain.
\<close>

lemma iocache_open_bad_row:
  assumes "64 \<le> row" and "row < 127" and "drv_ready (lb_drv lb)" and "env_ready X E (lb_drv lb)"
  shows "\<exists>lb' info'. iocache_open X E file (int row) lb info = (- 1, lb', info')
    \<and> lb_sys lb' = lb_sys lb @ [S_open file, S_eventfd, S_epoll_create, S_epoll_add (lv_epoll_create E) (lv_eventfd E)]
        @ [hd (open_mappings E row (lb_drv lb)), S_close (lv_open E)]
    \<and> t_iocache_id (io_tasks (lb_drv lb') (cx_cur X)) = int row"
proof -
  let ?s = "lb_drv lb" and ?a = "lv_mmap_addr E"
  have env: "0 \<le> lv_open E" "0 \<le> fst (fst (set_eventfd (cx_fdget X) (arg_int (lv_eventfd E)) ?s))"
      "\<forall>off. unat (?a off) < 2 ^ 47" "unat (io_control_size ?s) < 2 ^ 47"
    using assms(4) by (simp_all add: env_ready_def)
  define l where "l = lb\<lparr>lb_drv := open_drv X E (int row) ?s, lb_sys := lb_sys lb @ [S_open file, S_eventfd, S_epoll_create,
      S_epoll_add (lv_epoll_create E) (lv_eventfd E)]\<rparr>"
  have reg: "0 < io_control_size (lb_drv l)" "page_align (io_control_size (lb_drv l)) = io_control_size (lb_drv l)"
      "unat (?a (MAP_INDEX 0)) + unat (io_control_size (lb_drv l)) < 2 ^ 64"
    using assms(3) env(3,4) by (simp_all add: l_def drv_ready_def open_drv_keeps add_less_mono [of _ "2 ^ 47" _ "2 ^ 47", simplified, THEN less_trans])
  have idx: "MAP_INDEX (2 * of_nat row + 1) = push_bit 40 (of_nat (2 * row + 1))"
    by (simp add: MAP_INDEX_def add.commute)
  have lt: "2 * row + 1 < 256" "unat (?a (MAP_INDEX (2 * of_nat row + 1))) + unat (12288 :: u64) < 2 ^ 64"
    using assms(2) env(3) [rule_format, of "MAP_INDEX (2 * of_nat row + 1)"] by simp_all
  have vi: "vma_index (vma_at (?a (MAP_INDEX (2 * of_nat row + 1))) (MAP_INDEX (2 * of_nat row + 1)) 12288) = int (2 * row + 1)"
    unfolding idx by (rule vma_at_index(1) [OF lt(1)]) (use lt(2) idx in simp)
  have "iocache_misc_mmap s (vma_at (?a (MAP_INDEX (2 * of_nat row + 1))) (MAP_INDEX (2 * of_nat row + 1)) 12288) = Inl (- EINVAL)"
    for s :: "'a iocache"
    unfolding iocache_misc_mmap_def vi using assms(1) by (simp add: IOCACHE_CACHE_ENTRY_COUNT_def)
  then have tx: "lib_mmap E 8255 (MAP_INDEX (2 * of_nat row + 1)) l' = (None, l')" for l' :: "'a lib"
    by (simp add: lib_mmap_def page_align_8255)
  have "t_iocache_id (io_tasks (lb_drv l) (cx_cur X)) = int row"
    unfolding l_def lib.simps open_drv_def by (simp add: reserve_ring_state(2) arg_int_def)
  moreover have "iocache_open X E file (int row) lb info = open_maps X E l (open_info E (int row) ?s info)"
    unfolding iocache_open_eq [OF env(1,2)] l_def ..
  moreover have "open_maps X E l (open_info E (int row) ?s info) = (- 1,
      l\<lparr>lb_sys := lb_sys l @ [hd (open_mappings E row ?s), S_close (lv_open E)]\<rparr>,
      (open_info E (int row) ?s info)\<lparr>ii_regs := ?a (MAP_INDEX 0)\<rparr>)"
    using lib_mmap_regs [OF reg]
    by (simp add: open_maps_def open_info_def tx sys_def open_mappings_def l_def open_drv_keeps)
  ultimately show ?thesis by (simp add: l_def)
qed

lemma iocache_open_bad_row_witness:
  "fst (iocache_open demo_ctx demo_lib_env ''/dev/iocache-misc'' (int 64) demo_lib zero_info) = - 1"
  using iocache_open_bad_row [OF _ _ demo_lib_ready demo_env_lib_ready, of 64 "''/dev/iocache-misc''" zero_info] by auto

end
