(* ===== verification/Accnet_Lib.thy ===== *)
theory Accnet_Lib
  imports Accnet_Misc Iocache_Lib
begin

text \<open>
  The user library of the AccNet NIC, boards/default/lib/accnet_lib.c and accnet_lib.h, on top
  of the model of the driver's misc device. The hardware is the \<open>hw\<close> of the NIC; the library
  reaches the registers of the IOCache on the same bus. The pointer \<open>accnet->iocache\<close> is an
  argument of the functions that follow it, and \<open>exit(0)\<close> is None.
\<close>

section \<open>State\<close>

record ring_info =
  rg_rx_head :: u32
  rg_rx_tail :: u32
  rg_rx_size :: u32
  rg_tx_head :: u32
  rg_tx_tail :: u32
  rg_tx_size :: u32

record accnet_info =
  ai_fd :: int
  ai_ALIGN :: u64
  ai_regs_offset :: u64
  ai_udp_tx_offset :: u64
  ai_udp_rx_offset :: u64
  ai_regs_size :: u64
  ai_udp_tx_regs_size :: u64
  ai_udp_rx_regs_size :: u64
  ai_regs :: u64
  ai_udp_tx_regs :: u64
  ai_udp_rx_regs :: u64
  ai_ring :: ring_info

record 'd alib =
  al_nic :: "'d nic"
  al_sys :: "sys_call list"

definition asys :: "sys_call \<Rightarrow> 'd alib \<Rightarrow> 'd alib" where
  "asys c al = al\<lparr>al_sys := al_sys al @ [c]\<rparr>"

definition on_nic :: "('d \<Rightarrow> 'd) \<Rightarrow> 'd alib \<Rightarrow> 'd alib" where
  "on_nic f al = al\<lparr>al_nic := (al_nic al)\<lparr>hw := f (hw (al_nic al))\<rparr>\<rparr>"

section \<open>System calls on the device file\<close>

text \<open>\<open>_accnet_ioctl\<close>: the offset and the size of a region, None for \<open>-1\<close>.\<close>

definition accnet_region_ioctl :: "u32 \<Rightarrow> 'd alib \<Rightarrow> (u64 \<times> u64) option" where
  "accnet_region_ioctl index al =
     (case accnet_misc_ioctl (al_nic al) ACCNET_IOCTL_GET_REGION_INFO (arg_region index) of
        (ret, out) \<Rightarrow>
          if ret < 0 then None
          else (case out of Out_region_info r \<Rightarrow> Some (ri_offset r, ri_size r) | _ \<Rightarrow> Some (0, 0)))"

definition accnet_mmap :: "lib_env \<Rightarrow> u64 \<Rightarrow> u64 \<Rightarrow> 'd alib \<Rightarrow> u64 option \<times> 'd alib" where
  "accnet_mmap E len off al =
     (if len = 0 then (None, al)
      else
        (case accnet_misc_mmap (al_nic al) (vma_at (lv_mmap_addr E off) off (page_align len)) of
           Inl _ \<Rightarrow> (None, al)
         | Inr req \<Rightarrow> (Some (lv_mmap_addr E off), asys (S_mmap (lv_mmap_addr E off) len req) al)))"

section \<open>Registers\<close>

definition init_regs :: "'d device \<Rightarrow> iocache_info \<Rightarrow> int \<Rightarrow> 'd \<Rightarrow> 'd option" where
  "init_regs D ioc row h =
     (let h = reg_write16 D R_UDP_TX ACCNET_UDP_TX_MTU 1472 h;
          h = reg_write64 D R_UDP_TX ACCNET_UDP_TX_HDR_MAC_SRC 0x112233445566 h;
          h = reg_write64 D R_UDP_TX ACCNET_UDP_TX_HDR_MAC_DST 0x0c42a1a82de6 h;
          h = reg_write8 D R_UDP_TX ACCNET_UDP_TX_HDR_IP_TOS 0 h;
          h = reg_write8 D R_UDP_TX ACCNET_UDP_TX_HDR_IP_TTL 64 h;
          h = reg_write16 D R_UDP_TX ACCNET_UDP_TX_HDR_IP_ID 0 h;
          h = reg_write32 D R_IOCACHE (IOCACHE_REG_RX_RING_SIZE row) 0 h;
          h = reg_write32 D R_IOCACHE (IOCACHE_REG_TX_RING_SIZE row) 0 h;
          h = reg_write32 D R_UDP_TX (ACCNET_UDP_TX_RING_HEAD row) 0 h;
          h = reg_write32 D R_UDP_TX (ACCNET_UDP_TX_RING_TAIL row) 0 h;
          h = reg_write32 D R_UDP_RX (ACCNET_UDP_RX_RING_HEAD row) 0 h;
          h = reg_write32 D R_UDP_RX (ACCNET_UDP_RX_RING_TAIL row) 0 h;
          h = reg_write32 D R_IOCACHE (IOCACHE_REG_RX_RING_SIZE row) (ucast (ii_udp_rx_size ioc)) h;
          h = reg_write32 D R_IOCACHE (IOCACHE_REG_TX_RING_SIZE row) (ucast (ii_udp_tx_size ioc)) h;
          (tx_tail, h) = reg_read32 D R_UDP_TX (ACCNET_UDP_TX_RING_TAIL row) h
      in if tx_tail \<noteq> 0 then None
      else
        (let (rx_tail, h) = reg_read32 D R_UDP_RX (ACCNET_UDP_RX_RING_TAIL row) h
         in if rx_tail \<noteq> 0 then None else Some h))"

definition accnet_setup_connection :: "'d device \<Rightarrow> connection_info \<Rightarrow> 'd alib option \<Rightarrow> int \<times> 'd alib option" where
  "accnet_setup_connection D connection accnet =
     (case accnet of
        None \<Rightarrow> (- 1, None)
      | Some al \<Rightarrow>
          (let al = (if ci_src_mac connection \<noteq> 0
                     then on_nic (reg_write64 D R_UDP_TX ACCNET_UDP_TX_HDR_MAC_SRC (ci_src_mac connection)) al else al);
               al = (if ci_dst_mac connection \<noteq> 0
                     then on_nic (reg_write64 D R_UDP_TX ACCNET_UDP_TX_HDR_MAC_DST (ci_dst_mac connection)) al else al)
           in (0, Some al)))"

definition accnet_start_ring :: "'d alib option \<Rightarrow> int" where
  "accnet_start_ring accnet = (case accnet of None \<Rightarrow> - 1 | Some _ \<Rightarrow> 0)"

text \<open>
  The setters and getters of the header. \<open>accnet_set_tx_tail\<close> uses the base of the receive
  engine, and the getters use the address of the structure as their base. \<open>accnet_get_time\<close> reads
  the clock and has no \<open>return\<close>, so it gives only the state after the read.
\<close>

definition accnet_get_time :: "'d device \<Rightarrow> 'd \<Rightarrow> 'd" where
  "accnet_get_time D h = snd (reg_read64 D R_CTRL ACCNET_CTRL_TIMESTAMP h)"

definition accnet_set_rx_head :: "'d device \<Rightarrow> int \<Rightarrow> u32 \<Rightarrow> 'd \<Rightarrow> 'd" where
  "accnet_set_rx_head D row = reg_write32 D R_UDP_RX (ACCNET_UDP_RX_RING_HEAD row)"

definition accnet_set_tx_tail :: "'d device \<Rightarrow> int \<Rightarrow> u32 \<Rightarrow> 'd \<Rightarrow> 'd" where
  "accnet_set_tx_tail D row = reg_write32 D R_UDP_RX (ACCNET_UDP_TX_RING_TAIL row)"

definition accnet_get_rx_head :: "'d device \<Rightarrow> int \<Rightarrow> 'd \<Rightarrow> u32 \<times> 'd" where
  "accnet_get_rx_head D row = reg_read32 D R_ACCNET_INFO (ACCNET_UDP_RX_RING_HEAD row)"

definition accnet_get_rx_tail :: "'d device \<Rightarrow> int \<Rightarrow> 'd \<Rightarrow> u32 \<times> 'd" where
  "accnet_get_rx_tail D row = reg_read32 D R_ACCNET_INFO (ACCNET_UDP_RX_RING_TAIL row)"

definition accnet_get_tx_head :: "'d device \<Rightarrow> int \<Rightarrow> 'd \<Rightarrow> u32 \<times> 'd" where
  "accnet_get_tx_head D row = reg_read32 D R_ACCNET_INFO (ACCNET_UDP_TX_RING_HEAD row)"

definition accnet_get_tx_tail :: "'d device \<Rightarrow> int \<Rightarrow> 'd \<Rightarrow> u32 \<times> 'd" where
  "accnet_get_tx_tail D row = reg_read32 D R_ACCNET_INFO (ACCNET_UDP_TX_RING_TAIL row)"

text \<open>
  The two timestamps are kept in variables without a type, which are \<open>int\<close>: the 64-bit values
  are cut to 32 bits and read as signed, and the difference is taken at that width.
\<close>

definition accnet_get_outside_ticks :: "'d device \<Rightarrow> int \<Rightarrow> 'd \<Rightarrow> u64 \<times> 'd" where
  "accnet_get_outside_ticks D row h =
     (let (rx, h) = reg_read64 D R_UDP_RX (ACCNET_UDP_RX_RING_LAST_TIMESTAMP row) h;
          (tx, h) = reg_read64 D R_UDP_TX (ACCNET_UDP_TX_RING_LAST_TIMESTAMP row) h;
          rx_timestamp = sint (ucast rx :: u32);
          tx_timestamp = sint (ucast tx :: u32)
      in if rx_timestamp \<le> tx_timestamp then (0, h)
      else (word_of_int (sint (word_of_int (rx_timestamp - tx_timestamp) :: u32)), h))"

text \<open>
  The memory behind \<open>udp_tx_buffer\<close> is the list of its mapped bytes. A copy past the end of the
  mapping is None. The amount of free space is computed and not used.
\<close>

definition accnet_send :: "'d device \<Rightarrow> int \<Rightarrow> u32 \<Rightarrow> u8 list \<Rightarrow> u8 list \<Rightarrow> 'd \<Rightarrow> (u64 \<times> u8 list \<times> 'd) option" where
  "accnet_send D row tx_size mem buffer h =
     (let (tx_head, h) = accnet_get_tx_head D row h;
          (tx_tail, h) = accnet_get_tx_tail D row h;
          len = length buffer;
          val = ucast ((ucast tx_tail + of_nat len :: u64) mod ucast tx_size)
      in if unat tx_tail + len > length mem then None
      else
        (let mem = take (unat tx_tail) mem @ buffer @ drop (unat tx_tail + len) mem
         in Some (of_nat len, mem, accnet_set_tx_tail D row val h)))"

section \<open>Open and close\<close>

text \<open>\<open>MAP_FAILED\<close> is stored in the structure like any other result of \<open>mmap\<close>.\<close>

definition MAP_FAILED :: u64 where "MAP_FAILED = - 1"

definition mapped_at :: "u64 option \<Rightarrow> u64" where
  "mapped_at r = (case r of None \<Rightarrow> MAP_FAILED | Some a \<Rightarrow> a)"

definition accnet_open_maps ::
    "'d device \<Rightarrow> lib_env \<Rightarrow> iocache_info \<Rightarrow> bool \<Rightarrow> 'd alib \<Rightarrow> accnet_info
      \<Rightarrow> int option \<times> 'd alib \<times> accnet_info" where
  "accnet_open_maps D E ioc do_init al info =
     (let (r, al) = accnet_mmap E (ai_regs_size info) (MAP_INDEX 0) al;
          info = info\<lparr>ai_regs := mapped_at r\<rparr>
      in if r = None then (Some (- 1), asys (S_close (ai_fd info)) al, info)
      else
     (let (r, al) = accnet_mmap E (ai_udp_tx_regs_size info) (MAP_INDEX 1) al;
          info = info\<lparr>ai_udp_tx_regs := mapped_at r\<rparr>
      in if r = None then (Some (- 1), asys (S_close (ai_fd info)) al, info)
      else
     (let (r, al) = accnet_mmap E (ai_udp_rx_regs_size info) (MAP_INDEX 2) al;
          info = info\<lparr>ai_udp_rx_regs := mapped_at r\<rparr>
      in if r = None then (Some (- 1), asys (S_close (ai_fd info)) al, info)
      else if do_init then
        (case init_regs D ioc (ii_row ioc) (hw (al_nic al)) of
           None \<Rightarrow> (None, al, info)
         | Some h \<Rightarrow> (Some 0, on_nic (\<lambda>_. h) al, info))
      else (Some 0, al, info))))"

definition accnet_open ::
    "'d device \<Rightarrow> lib_env \<Rightarrow> string \<Rightarrow> iocache_info option \<Rightarrow> bool \<Rightarrow> 'd alib \<Rightarrow> accnet_info
      \<Rightarrow> int option \<times> 'd alib \<times> accnet_info" where
  "accnet_open D E file iocache do_init al info =
     (case iocache of
        None \<Rightarrow> (Some (- 1), al, info)
      | Some ioc \<Rightarrow>
        (let info = info\<lparr>ai_fd := lv_open E\<rparr>;
             al = asys (S_open file) al
         in if ai_fd info < 0 then (Some (- 1), al, info)
         else
           (case accnet_region_ioctl 0 al of
              None \<Rightarrow> (Some (- 1), asys (S_close (ai_fd info)) al, info)
            | Some (off, n) \<Rightarrow>
              (let info = info\<lparr>ai_regs_offset := off, ai_regs_size := n\<rparr>
               in case accnet_region_ioctl 1 al of
                 None \<Rightarrow> (Some (- 1), asys (S_close (ai_fd info)) al, info)
               | Some (off, n) \<Rightarrow>
                 (let info = info\<lparr>ai_udp_tx_offset := off, ai_udp_tx_regs_size := n\<rparr>
                  in case accnet_region_ioctl 2 al of
                    None \<Rightarrow> (Some (- 1), asys (S_close (ai_fd info)) al, info)
                  | Some (off, n) \<Rightarrow>
                    accnet_open_maps D E ioc do_init al
                      (info\<lparr>ai_udp_rx_offset := off, ai_udp_rx_regs_size := n\<rparr>))))))"

definition accnet_close :: "'d alib \<Rightarrow> accnet_info \<Rightarrow> int \<times> 'd alib" where
  "accnet_close al info =
     (let al = asys (S_munmap (ai_regs info) (ai_regs_size info)) al;
          al = asys (S_munmap (ai_udp_tx_regs info) (ai_udp_tx_regs_size info)) al;
          al = asys (S_munmap (ai_udp_rx_regs info) (ai_udp_rx_regs_size info)) al
      in (0, asys (S_close (ai_fd info)) al))"

section \<open>Initial registers\<close>

definition init_writes_1 :: "int \<Rightarrow> wr list" where
  "init_writes_1 row =
     [(R_UDP_TX, 2, ACCNET_UDP_TX_MTU, 1472), (R_UDP_TX, 8, ACCNET_UDP_TX_HDR_MAC_SRC, 0x112233445566),
      (R_UDP_TX, 8, ACCNET_UDP_TX_HDR_MAC_DST, 0x0c42a1a82de6), (R_UDP_TX, 1, ACCNET_UDP_TX_HDR_IP_TOS, 0),
      (R_UDP_TX, 1, ACCNET_UDP_TX_HDR_IP_TTL, 64), (R_UDP_TX, 2, ACCNET_UDP_TX_HDR_IP_ID, 0),
      (R_IOCACHE, 4, IOCACHE_REG_RX_RING_SIZE row, 0), (R_IOCACHE, 4, IOCACHE_REG_TX_RING_SIZE row, 0)]"

definition init_writes_2 :: "iocache_info \<Rightarrow> int \<Rightarrow> wr list" where
  "init_writes_2 ioc row =
     [(R_UDP_TX, 4, ACCNET_UDP_TX_RING_HEAD row, 0), (R_UDP_TX, 4, ACCNET_UDP_TX_RING_TAIL row, 0),
      (R_UDP_RX, 4, ACCNET_UDP_RX_RING_HEAD row, 0), (R_UDP_RX, 4, ACCNET_UDP_RX_RING_TAIL row, 0),
      (R_IOCACHE, 4, IOCACHE_REG_RX_RING_SIZE row, ucast (ucast (ii_udp_rx_size ioc) :: u32)),
      (R_IOCACHE, 4, IOCACHE_REG_TX_RING_SIZE row, ucast (ucast (ii_udp_tx_size ioc) :: u32))]"

lemmas ring_regs = ACCNET_UDP_TX_RING_HEAD_def ACCNET_UDP_TX_RING_TAIL_def ACCNET_UDP_RX_RING_HEAD_def
  ACCNET_UDP_RX_RING_TAIL_def IOCACHE_REG_RX_RING_SIZE_def IOCACHE_REG_TX_RING_SIZE_def
  IOCACHE_RX_RING_SIZE_OFF_def IOCACHE_TX_RING_SIZE_OFF_def
lemmas hdr_regs = ACCNET_UDP_TX_MTU_def ACCNET_UDP_TX_HDR_MAC_SRC_def ACCNET_UDP_TX_HDR_MAC_DST_def
  ACCNET_UDP_TX_HDR_IP_TOS_def ACCNET_UDP_TX_HDR_IP_TTL_def ACCNET_UDP_TX_HDR_IP_ID_def

text \<open>Where the registers of one row lie.\<close>

lemma unat_row_regs:
  assumes "row < 64"
  shows "unat (ACCNET_UDP_TX_RING_HEAD (int row)) = 4 * (4 * row)"
    and "unat (ACCNET_UDP_TX_RING_TAIL (int row)) = 4 * (4 * row + 1)"
    and "unat (ACCNET_UDP_RX_RING_HEAD (int row)) = 4 * (8 * row)"
    and "unat (ACCNET_UDP_RX_RING_TAIL (int row)) = 4 * (8 * row + 1)"
    and "unat (IOCACHE_REG_RX_RING_SIZE (int row)) = 4 * (0xde + 64 * row)"
    and "unat (IOCACHE_REG_TX_RING_SIZE (int row)) = 4 * (0xe2 + 64 * row)"
  using assms by (simp_all add: ring_regs unat_tx_ring_reg unat_rx_ring_reg unat_iocache_reg)

lemma init_regs_writes:
  assumes "row < 64"
  shows "init_regs D ioc (int row) h =
    (let h = fold (do_write D) (init_writes_1 (int row) @ init_writes_2 ioc (int row)) h;
         (t, h) = ioread32 D R_UDP_TX (ACCNET_UDP_TX_RING_TAIL (int row)) h
     in if t \<noteq> 0 then None
        else (let (t, h) = ioread32 D R_UDP_RX (ACCNET_UDP_RX_RING_TAIL (int row)) h
              in if t \<noteq> 0 then None else Some h))"
proof -
  note al = unat_row_regs [OF assms]
  have hdr: "2 dvd unat ACCNET_UDP_TX_MTU" "8 dvd unat ACCNET_UDP_TX_HDR_MAC_SRC" "8 dvd unat ACCNET_UDP_TX_HDR_MAC_DST"
      "2 dvd unat ACCNET_UDP_TX_HDR_IP_ID"
    by (simp_all add: hdr_regs)
  show ?thesis
    by (simp add: init_regs_def Let_def split_beta reg_write_aligned reg_read_aligned al hdr iowrite8_def iowrite16_def
        iowrite32_def iowrite64_def init_writes_1_def init_writes_2_def)
qed

text \<open>The registers that the initialisation uses are storage.\<close>

definition init_storage :: "iocache_info \<Rightarrow> int \<Rightarrow> (region \<times> nat) set \<Rightarrow> bool" where
  "init_storage ioc row S \<longleftrightarrow>
     list_all (\<lambda>(r, n, off, v). span r off n \<subseteq> S) (init_writes_1 row @ init_writes_2 ioc row)"

lemma init_storage_span:
  "init_storage ioc row S \<Longrightarrow> (r, n, off, v) \<in> set (init_writes_1 row @ init_writes_2 ioc row) \<Longrightarrow> span r off n \<subseteq> S"
  unfolding init_storage_def list_all_iff by blast

lemma header_regs_apart:
  assumes "(R_UDP_TX, n, off, v) \<in> set (init_writes_1 row)"
  shows "0x400 \<le> unat off" and "\<forall>w\<in>set (init_writes_1 row). w = (R_UDP_TX, n, off, v) \<or> apart w R_UDP_TX off n"
proof -
  have "\<forall>x\<in>set (init_writes_1 row). fst x = R_UDP_TX \<longrightarrow> 0x400 \<le> unat (fst (snd (snd x)))"
    by (simp add: init_writes_1_def hdr_regs)
  with assms show "0x400 \<le> unat off" by fastforce
  have "\<forall>x\<in>set (init_writes_1 row). \<forall>w\<in>set (init_writes_1 row). fst x = R_UDP_TX \<longrightarrow>
      w = x \<or> apart w (fst x) (fst (snd (snd x))) (fst (snd x))"
    by (simp add: init_writes_1_def hdr_regs)
  with assms show "\<forall>w\<in>set (init_writes_1 row). w = (R_UDP_TX, n, off, v) \<or> apart w R_UDP_TX off n" by fastforce
qed

lemma ring_regs_apart:
  assumes "row < 64" and "x \<in> set (init_writes_2 ioc (int row))"
  shows "\<forall>w\<in>set (init_writes_2 ioc (int row)). w = x \<or> apart w (fst x) (fst (snd (snd x))) (fst (snd x))"
proof -
  have "\<forall>x\<in>set (init_writes_2 ioc (int row)). \<forall>w\<in>set (init_writes_2 ioc (int row)).
      w = x \<or> apart w (fst x) (fst (snd (snd x))) (fst (snd x))"
    by (simp add: init_writes_2_def unat_row_regs [OF assms(1)])
  with assms(2) show ?thesis by blast
qed

lemma init_writes_reg:
  assumes "storage_device D S peek" and "row < 64" and "init_storage ioc (int row) S"
    and "(r, n, off, v) \<in> set (init_writes_2 ioc (int row)) \<or> (r, n, off, v) \<in> set (init_writes_1 (int row)) \<and> r = R_UDP_TX"
  shows "span r off n \<subseteq> S"
    and "reg_val peek (fold (do_write D) (init_writes_1 (int row) @ init_writes_2 ioc (int row)) h) r off n = take_bit (8 * n) v"
proof -
  note u = unat_row_regs [OF assms(2)]
  have in_S: "wr_in S w" if "w \<in> set (init_writes_1 (int row) @ init_writes_2 ioc (int row))" for w
    using init_storage_span [OF assms(3)] that by (cases w) simp
  show S: "span r off n \<subseteq> S"
    by (rule init_storage_span [OF assms(3)]) (use assms(4) in auto)
  show "reg_val peek (fold (do_write D) (init_writes_1 (int row) @ init_writes_2 ioc (int row)) h) r off n = take_bit (8 * n) v"
  proof (cases "(r, n, off, v) \<in> set (init_writes_2 ioc (int row))")
    case True
    show ?thesis
      using storage_device.reg_val_writes [OF assms(1) S True] ring_regs_apart [OF assms(2) True] in_S by simp
  next
    case False
    with assms(4) have w: "(r, n, off, v) \<in> set (init_writes_1 (int row))" "r = R_UDP_TX" by blast+
    from header_regs_apart [OF w(1) [unfolded w(2)]] have hdr: "0x400 \<le> unat off"
        "\<forall>w\<in>set (init_writes_1 (int row)). w = (r, n, off, v) \<or> apart w r off n"
      unfolding w(2) .
    have "\<forall>w\<in>set (init_writes_2 ioc (int row)). apart w r off n"
      using assms(2) hdr(1) by (simp add: init_writes_2_def u w(2))
    with hdr(2) have "\<forall>w\<in>set (init_writes_1 (int row) @ init_writes_2 ioc (int row)). w = (r, n, off, v) \<or> apart w r off n"
      by auto
    then show ?thesis
      using storage_device.reg_val_writes [OF assms(1) S, of v "init_writes_1 (int row) @ init_writes_2 ioc (int row)"]
        in_S w(1) by simp
  qed
qed

lemma init_regs_some:
  assumes "storage_device D S peek" and "row < 64" and "init_storage ioc (int row) S"
  shows "\<exists>h'. init_regs D ioc (int row) h = Some h' \<and> (\<forall>r off n. span r off n \<subseteq> S \<longrightarrow> reg_val peek h' r off n =
    reg_val peek (fold (do_write D) (init_writes_1 (int row) @ init_writes_2 ioc (int row)) h) r off n)"
proof -
  let ?h = "fold (do_write D) (init_writes_1 (int row) @ init_writes_2 ioc (int row)) h"
  let ?tx = "ACCNET_UDP_TX_RING_TAIL (int row)" and ?rx = "ACCNET_UDP_RX_RING_TAIL (int row)"
  note reg = init_writes_reg [OF assms]
  have S: "span R_UDP_TX ?tx 4 \<subseteq> S" "span R_UDP_RX ?rx 4 \<subseteq> S"
    and v: "reg_val peek ?h R_UDP_TX ?tx 4 = 0" "reg_val peek ?h R_UDP_RX ?rx 4 = 0"
    using reg [of R_UDP_TX 4 ?tx 0] reg [of R_UDP_RX 4 ?rx 0] by (simp_all add: init_writes_2_def)
  define g where "g = snd (dev_read D R_UDP_TX 4 ?tx ?h)"
  have g: "span r off n \<subseteq> S \<Longrightarrow> reg_val peek g r off n = reg_val peek ?h r off n" for r off n
    unfolding g_def by (rule storage_device.reg_val_read [OF assms(1)])
  have "init_regs D ioc (int row) h = Some (snd (dev_read D R_UDP_RX 4 ?rx g))"
    unfolding init_regs_writes [OF assms(2)]
    using v g [OF S(2)] storage_device.read_val [OF assms(1) S(1)] storage_device.read_val [OF assms(1) S(2)]
    by (simp add: Let_def split_beta ioread32_def g_def)
  moreover have "reg_val peek (snd (dev_read D R_UDP_RX 4 ?rx g)) r off n = reg_val peek ?h r off n"
    if "span r off n \<subseteq> S" for r off n
    using g [OF that] storage_device.reg_val_read [OF assms(1) that] by simp
  ultimately show ?thesis by blast
qed

text \<open>
  Initialising the UDP engines for a row ends, and never takes the \<open>exit\<close> of its
  two checks, on a device whose ring registers hold what is written to them. Afterwards both
  rings of the row are empty (head and tail 0), the ring sizes of the IOCache row are those of
  the buffers the library mapped, and the header registers are set: an MTU of 1472, the two MAC
  addresses, a TTL of 64.
\<close>

lemma init_regs_ready:
  assumes "storage_device D S peek" and "row < 64" and "init_storage ioc (int row) S"
  shows "\<exists>h'. init_regs D ioc (int row) h = Some h'
    \<and> reg_val peek h' R_UDP_TX (ACCNET_UDP_TX_RING_HEAD (int row)) 4 = 0
    \<and> reg_val peek h' R_UDP_TX (ACCNET_UDP_TX_RING_TAIL (int row)) 4 = 0
    \<and> reg_val peek h' R_UDP_RX (ACCNET_UDP_RX_RING_HEAD (int row)) 4 = 0
    \<and> reg_val peek h' R_UDP_RX (ACCNET_UDP_RX_RING_TAIL (int row)) 4 = 0
    \<and> reg_val peek h' R_IOCACHE (IOCACHE_REG_RX_RING_SIZE (int row)) 4 = take_bit 32 (ii_udp_rx_size ioc)
    \<and> reg_val peek h' R_IOCACHE (IOCACHE_REG_TX_RING_SIZE (int row)) 4 = take_bit 32 (ii_udp_tx_size ioc)
    \<and> reg_val peek h' R_UDP_TX ACCNET_UDP_TX_MTU 2 = 1472
    \<and> reg_val peek h' R_UDP_TX ACCNET_UDP_TX_HDR_MAC_SRC 8 = 0x112233445566
    \<and> reg_val peek h' R_UDP_TX ACCNET_UDP_TX_HDR_MAC_DST 8 = 0x0c42a1a82de6
    \<and> reg_val peek h' R_UDP_TX ACCNET_UDP_TX_HDR_IP_TTL 1 = 64"
proof -
  from init_regs_some [OF assms, of h] obtain h' where h': "init_regs D ioc (int row) h = Some h'"
    and eq: "\<And>r off n. span r off n \<subseteq> S \<Longrightarrow> reg_val peek h' r off n =
      reg_val peek (fold (do_write D) (init_writes_1 (int row) @ init_writes_2 ioc (int row)) h) r off n"
    by blast
  have "list_all (\<lambda>(r, n, off, v). reg_val peek h' r off n = take_bit (8 * n) v)
      (init_writes_2 ioc (int row) @ take 6 (init_writes_1 (int row)))"
    unfolding list_all_iff
  proof safe
    fix r n off v assume "(r, n, off, v) \<in> set (init_writes_2 ioc (int row) @ take 6 (init_writes_1 (int row)))"
    then have "(r, n, off, v) \<in> set (init_writes_2 ioc (int row)) \<or> (r, n, off, v) \<in> set (init_writes_1 (int row)) \<and> r = R_UDP_TX"
      by (auto simp: init_writes_1_def)
    from init_writes_reg [OF assms this] eq show "reg_val peek h' r off n = take_bit (8 * n) v" by simp
  qed
  moreover
  have cut: "take_bit 32 (ucast (ucast x :: u32)) = (take_bit 32 x :: u64)" for x :: u64
    by (rule bit_word_eqI) (auto simp: bit_simps)
  ultimately show ?thesis
    using h' by (simp add: init_writes_1_def init_writes_2_def)
qed

lemma init_regs_ready_witness:
  "\<exists>h'. init_regs ram_device (zero_info\<lparr>ii_udp_rx_size := 8192\<rparr>) (int 3) (\<lambda>r a. 0xff) = Some h'
     \<and> reg_val (\<lambda>m (r, a). m r a) h' R_UDP_RX (ACCNET_UDP_RX_RING_TAIL (int 3)) 4 = 0
     \<and> reg_val (\<lambda>m (r, a). m r a) h' R_IOCACHE (IOCACHE_REG_RX_RING_SIZE (int 3)) 4 = 8192"
proof -
  have "init_storage (zero_info\<lparr>ii_udp_rx_size := 8192\<rparr>) (int 3) UNIV"
    by (auto simp: init_storage_def list_all_iff)
  from init_regs_ready [OF ram_storage _ this, of "\<lambda>r a. 0xff"] show ?thesis by fastforce
qed

section \<open>Sending\<close>



section \<open>Timestamps\<close>

lemma sint_ucast_small:
  assumes "x < (2 ^ 31 :: u64)"
  shows "sint (ucast x :: u32) = uint x"
proof -
  from assms have "uint x < 2 ^ 31" by (simp add: word_less_def)
  then have "signed_take_bit 31 (uint x) = uint x"
    by (intro signed_take_bit_int_eq_self) (auto intro: order_trans [of _ 0])
  with \<open>uint x < 2 ^ 31\<close> show ?thesis by (simp add: sint_uint unsigned_ucast_eq take_bit_int_eq_self)
qed

lemma sint_word_of_int_small:
  assumes "0 \<le> k" and "k < 2 ^ 31"
  shows "sint (word_of_int k :: u32) = k"
  using assms signed_take_bit_int_eq_self [of 31 k]
  by (simp add: sint_uint uint_word_of_int_eq take_bit_int_eq_self)

lemma sint_diff_small:
  assumes "uint x \<le> uint y" and "y < (2 ^ 31 :: u64)"
  shows "sint (word_of_int (uint y - uint x) :: u32) = uint y - uint x"
proof (rule sint_word_of_int_small)
  have "uint y < 2 ^ 31" using assms(2) by (simp add: word_less_def)
  then show "0 \<le> uint y - uint x" "uint y - uint x < 2 ^ 31"
    using assms(1) uint_ge_0 [of x] by linarith+
qed



section \<open>Opening and closing\<close>

text \<open>The windows of the NIC can be mapped whole: they are not empty and end on a page.\<close>

definition nic_mappable :: "lib_env \<Rightarrow> 'd nic \<Rightarrow> bool" where
  "nic_mappable E s \<longleftrightarrow> (\<forall>i<3. 0 < snd (accnet_windows s ! i)
     \<and> page_align (snd (accnet_windows s ! i)) = snd (accnet_windows s ! i)
     \<and> unat (lv_mmap_addr E (MAP_INDEX (of_nat i))) + unat (snd (accnet_windows s ! i)) < 2 ^ 64)"

definition win_mapping :: "lib_env \<Rightarrow> 'd nic \<Rightarrow> nat \<Rightarrow> sys_call" where
  "win_mapping E s i = S_mmap (lv_mmap_addr E (MAP_INDEX (of_nat i))) (snd (accnet_windows s ! i))
     (Remap_pfn (lv_mmap_addr E (MAP_INDEX (of_nat i))) (drop_bit PAGE_SHIFT (fst (accnet_windows s ! i)))
       (snd (accnet_windows s ! i)))"

lemma accnet_mmap_whole:
  assumes "nic_mappable E (al_nic al)" and "i < 3"
  shows "accnet_mmap E (snd (accnet_windows (al_nic al) ! i)) (MAP_INDEX (of_nat i)) al =
    (Some (lv_mmap_addr E (MAP_INDEX (of_nat i))), asys (win_mapping E (al_nic al) i) al)"
proof -
  let ?w = "accnet_windows (al_nic al) ! i" and ?a = "lv_mmap_addr E (MAP_INDEX (of_nat i))"
  from assms have w: "0 < snd ?w" "page_align (snd ?w) = snd ?w" "unat ?a + unat (snd ?w) < 2 ^ 64"
    by (auto simp: nic_mappable_def)
  note at = vma_at_index [of i ?a "snd ?w", OF _ w(3)]
  have "accnet_misc_mmap (al_nic al) (vma_at ?a (push_bit 40 (of_nat i)) (snd ?w)) =
      remap_window (vma_at ?a (push_bit 40 (of_nat i)) (snd ?w)) (fst ?w) (snd ?w)"
    using assms(2) at by (auto simp: accnet_misc_mmap_def accnet_windows_def less_Suc_eq numeral_3_eq_3)
  also have "\<dots> = Inr (Remap_pfn ?a (drop_bit PAGE_SHIFT (fst ?w)) (snd ?w))"
    using assms(2) at by (simp add: remap_window_def vma_at_def)
  finally show ?thesis using w by (simp add: accnet_mmap_def win_mapping_def MAP_INDEX_def)
qed

lemma accnet_region_ioctl_window:
  "accnet_region_ioctl 0 al = Some (MAP_INDEX 0, snd (accnet_windows (al_nic al) ! 0))"
  "accnet_region_ioctl 1 al = Some (MAP_INDEX 1, snd (accnet_windows (al_nic al) ! 1))"
  "accnet_region_ioctl 2 al = Some (MAP_INDEX 2, snd (accnet_windows (al_nic al) ! 2))"
  by (simp_all add: accnet_region_ioctl_def accnet_misc_ioctl_def arg_region_def arg_none_def region_info_minsz_def
      accnet_region_def clear_region_info_def copy_out_def accnet_windows_def MAP_INDEX_def reg_offsets IOC_def)


definition zero_accnet :: accnet_info where
  "zero_accnet = \<lparr>ai_fd = 0, ai_ALIGN = 0, ai_regs_offset = 0, ai_udp_tx_offset = 0, ai_udp_rx_offset = 0, ai_regs_size = 0,
     ai_udp_tx_regs_size = 0, ai_udp_rx_regs_size = 0, ai_regs = 0, ai_udp_tx_regs = 0, ai_udp_rx_regs = 0,
     ai_ring = \<lparr>rg_rx_head = 0, rg_rx_tail = 0, rg_rx_size = 0, rg_tx_head = 0, rg_tx_tail = 0, rg_tx_size = 0\<rparr>\<rparr>"


end
