(* ===== verification/Udp_Ring.thy ===== *)
theory Udp_Ring
  imports Accnet_Lib "HOL-Library.State_Monad" "HOL-Library.While_Combinator"
begin

text \<open>
  The byte rings of the UDP engines as the experiment program udp_exp.c uses them: registers read
  and written one after the other, so the functions are in the state monad over the library's
  state. This theory has the accessors and their laws, the ring arithmetic, \<open>try_fill_tx\<close> and
  \<open>drain_rx\<close>.
\<close>

section \<open>Register accesses in sequence\<close>

definition rd32 :: "'d ctx \<Rightarrow> region \<Rightarrow> u64 \<Rightarrow> ('d lib, u32) state" where
  "rd32 X r off = State (\<lambda>lb. case reg_read32 (cx_dev X) r off (io_hw (lb_drv lb)) of (v, h) \<Rightarrow> (v, on_regs (\<lambda>_. h) lb))"

definition rd64 :: "'d ctx \<Rightarrow> region \<Rightarrow> u64 \<Rightarrow> ('d lib, u64) state" where
  "rd64 X r off = State (\<lambda>lb. case reg_read64 (cx_dev X) r off (io_hw (lb_drv lb)) of (v, h) \<Rightarrow> (v, on_regs (\<lambda>_. h) lb))"

definition wr32 :: "'d ctx \<Rightarrow> region \<Rightarrow> u64 \<Rightarrow> u32 \<Rightarrow> ('d lib, unit) state" where
  "wr32 X r off v = State (\<lambda>lb. ((), on_regs (reg_write32 (cx_dev X) r off v) lb))"

definition wait_rx :: "'d ctx \<Rightarrow> iocache_info \<Rightarrow> ('d lib, int) state" where
  "wait_rx X info = State (iocache_wait_on_rx X info)"

section \<open>Ring arithmetic\<close>

definition is_power_of_two_u32 :: "u32 \<Rightarrow> bool" where
  "is_power_of_two_u32 x \<longleftrightarrow> x \<noteq> 0 \<and> x AND (x - 1) = 0"

definition ring_free_bytes :: "u32 \<Rightarrow> u32 \<Rightarrow> u32 \<Rightarrow> u32" where
  "ring_free_bytes rhead rtail rsize =
     (if rtail \<ge> rhead then rsize - (rtail - rhead) - 1 else rhead - rtail - 1)"

text \<open>The bytes to read; in two places of the program the comparison is strict.\<close>

definition ring_avail :: "u32 \<Rightarrow> u32 \<Rightarrow> u32 \<Rightarrow> u32" where
  "ring_avail rhead rtail rsize = (if rtail \<ge> rhead then rtail - rhead else rsize - (rhead - rtail))"

definition ring_avail_strict :: "u32 \<Rightarrow> u32 \<Rightarrow> u32 \<Rightarrow> u32" where
  "ring_avail_strict rhead rtail rsize = (if rtail > rhead then rtail - rhead else rsize - (rhead - rtail))"

text \<open>The copy into the ring is commented out in the source.\<close>

definition ring_memcpy_wrap :: "u8 list \<Rightarrow> u32 \<Rightarrow> u32 \<Rightarrow> u8 list \<Rightarrow> u32 \<Rightarrow> u8 list" where
  "ring_memcpy_wrap base rsize rtail src len = base"

section \<open>Filling and draining\<close>

definition fill_quota :: "u32 \<Rightarrow> u32 \<Rightarrow> u32 \<Rightarrow> u32 \<Rightarrow> u64 \<Rightarrow> u32" where
  "fill_quota tx_head tx_tail tx_size chunk_bytes need_bytes =
     (let freeb = ring_free_bytes tx_head tx_tail tx_size;
          quota = tx_size div 2;
          quota = (if quota > freeb then freeb else quota);
          quota = (if (ucast quota :: u64) > need_bytes then ucast need_bytes else quota)
      in quota - quota mod chunk_bytes)"

definition fill_loop :: "u32 \<Rightarrow> u32 \<Rightarrow> u32 \<Rightarrow> u32 \<Rightarrow> (u32 \<times> u32) option" where
  "fill_loop chunk_bytes tx_size quota tx_tail =
     while_option (\<lambda>(sent, t). sent < quota)
       (\<lambda>(sent, t). (sent + chunk_bytes, (t + chunk_bytes) mod tx_size)) (0, tx_tail)"

text \<open>None: the loop does not end.\<close>

definition try_fill_tx :: "'d ctx \<Rightarrow> iocache_info \<Rightarrow> u32 \<Rightarrow> u64 \<Rightarrow> ('d lib, u32 option) state" where
  "try_fill_tx X info chunk_bytes need_bytes = do {
     let row = ii_row info;
     tx_head \<leftarrow> rd32 X R_UDP_TX (ACCNET_UDP_TX_RING_HEAD row);
     tx_tail \<leftarrow> rd32 X R_UDP_TX (ACCNET_UDP_TX_RING_TAIL row);
     tx_size \<leftarrow> rd32 X R_IOCACHE (IOCACHE_REG_TX_RING_SIZE row);
     let quota = fill_quota tx_head tx_tail tx_size chunk_bytes need_bytes;
     if quota = 0 then State_Monad.return (Some 0)
     else
       (case fill_loop chunk_bytes tx_size quota tx_tail of
          None \<Rightarrow> State_Monad.return None
        | Some (sent, tx_tail) \<Rightarrow> do {
            wr32 X R_UDP_TX (ACCNET_UDP_TX_RING_TAIL row) tx_tail;
            State_Monad.return (Some sent)
          })
   }"

definition drain_rx :: "'d ctx \<Rightarrow> iocache_info \<Rightarrow> ('d lib, u32) state" where
  "drain_rx X info = do {
     let row = ii_row info;
     rx_head \<leftarrow> rd32 X R_UDP_RX (ACCNET_UDP_RX_RING_HEAD row);
     rx_tail \<leftarrow> rd32 X R_UDP_RX (ACCNET_UDP_RX_RING_TAIL row);
     rx_size \<leftarrow> rd32 X R_IOCACHE (IOCACHE_REG_RX_RING_SIZE row);
     let avail = ring_avail rx_head rx_tail rx_size;
     if avail \<noteq> 0 then do {
       wr32 X R_UDP_RX (ACCNET_UDP_RX_RING_HEAD row) rx_tail;
       State_Monad.return avail
     } else State_Monad.return avail
   }"

section \<open>Laws of the accessors\<close>

text \<open>The value of a 32-bit register in the state of the library.\<close>

definition reg32 :: "('d \<Rightarrow> region \<times> nat \<Rightarrow> u8) \<Rightarrow> 'd lib \<Rightarrow> region \<Rightarrow> u64 \<Rightarrow> u32" where
  "reg32 peek lb r off = ucast (reg_val peek (io_hw (lb_drv lb)) r off 4)"

text \<open>A storage register of 32 bits, aligned.\<close>

definition reg_ok :: "(region \<times> nat) set \<Rightarrow> region \<Rightarrow> u64 \<Rightarrow> bool" where
  "reg_ok S r off \<longleftrightarrow> span r off 4 \<subseteq> S \<and> 4 dvd unat off"

lemma run_rd32:
  assumes "storage_device (cx_dev X) S peek" and "reg_ok S r off"
  shows "fst (run_state (rd32 X r off) lb) = reg32 peek lb r off"
  using assms storage_device.read_val [OF assms(1), of r off 4]
  by (simp add: rd32_def reg32_def reg_ok_def reg_read_aligned ioread32_def split_beta)

lemma rd32_keeps:
  assumes "storage_device (cx_dev X) S peek" and "reg_ok S r' off'"
  shows "reg32 peek (snd (run_state (rd32 X r off) lb)) r' off' = reg32 peek lb r' off'"
    and "reg32 peek (snd (run_state (rd64 X r off) lb)) r' off' = reg32 peek lb r' off'"
  using assms storage_device.reg_val_read [OF assms(1), of r' off' 4]
  by (simp_all add: rd32_def rd64_def reg32_def reg_ok_def on_regs_def on_hw_def reg_read32_def reg_read64_def
      ioread32_def ioread64_def split_beta)

lemma wr32_same:
  assumes "storage_device (cx_dev X) S peek" and "reg_ok S r off"
  shows "reg32 peek (snd (run_state (wr32 X r off v) lb)) r off = v"
proof -
  have "ucast (take_bit 32 (ucast v :: u64)) = v" by (rule bit_word_eqI) (auto simp: bit_simps)
  with assms storage_device.reg_val_write_same [OF assms(1), of r off 4 "ucast v"] show ?thesis
    by (simp add: wr32_def reg32_def reg_ok_def on_regs_def on_hw_def reg_write_aligned iowrite32_def)
qed

lemma wr32_other:
  assumes "storage_device (cx_dev X) S peek" and "reg_ok S r off" and "reg_ok S r' off'"
    and "r \<noteq> r' \<or> unat off + 4 \<le> unat off' \<or> unat off' + 4 \<le> unat off"
  shows "reg32 peek (snd (run_state (wr32 X r off v) lb)) r' off' = reg32 peek lb r' off'"
  using assms storage_device.reg_val_write_other [OF assms(1), of r' off' 4 r off 4]
  by (simp add: wr32_def reg32_def reg_ok_def on_regs_def on_hw_def reg_write_aligned iowrite32_def span_disjoint)

section \<open>Ring arithmetic against its specification\<close>

text \<open>The bytes in a ring and the room that is left, on numbers.\<close>

definition used_spec :: "nat \<Rightarrow> nat \<Rightarrow> nat \<Rightarrow> nat" where
  "used_spec rhead rtail rsize = (rtail + rsize - rhead) mod rsize"

lemma used_spec_cases:
  assumes "h < n" and "t < n"
  shows "used_spec h t n = (if h \<le> t then t - h else n - (h - t))"
proof (cases "h \<le> t")
  case True
  with assms have e: "t + n - h = (t - h) + n" and "t - h < n" by simp_all
  then have "(t + n - h) mod n = t - h" unfolding e mod_add_self2 by (rule_tac mod_less)
  with True show ?thesis by (simp only: used_spec_def if_True)
next
  case False
  with assms have e: "t + n - h = n - (h - t)" and "n - (h - t) < n" by simp_all
  then have "(t + n - h) mod n = n - (h - t)" unfolding e by (rule_tac mod_less)
  with False show ?thesis by (simp only: used_spec_def if_False)
qed

lemma used_spec_less: "0 < n \<Longrightarrow> used_spec h t n < n"
  by (simp add: used_spec_def)

lemma ring_avail_used:
  assumes "rhead < rsize" and "rtail < rsize"
  shows "unat (ring_avail rhead rtail rsize) = used_spec (unat rhead) (unat rtail) (unat rsize)"
proof -
  from assms have "unat rhead < unat rsize" "unat rtail < unat rsize" by (simp_all add: word_less_nat_alt)
  moreover have "unat (rtail - rhead) = unat rtail - unat rhead" if "rhead \<le> rtail"
    using that by (simp add: unat_sub)
  moreover have "unat (rsize - (rhead - rtail)) = unat rsize - (unat rhead - unat rtail)" if "\<not> rhead \<le> rtail"
  proof -
    from that have d: "unat (rhead - rtail) = unat rhead - unat rtail" by (simp add: unat_sub)
    with assms have "rhead - rtail \<le> rsize" by (simp add: word_le_nat_alt word_less_nat_alt)
    with d show ?thesis by (simp add: unat_sub)
  qed
  ultimately show ?thesis
    by (simp add: ring_avail_def used_spec_cases word_le_nat_alt)
qed

lemma ring_free_avail:
  assumes "rhead < rsize" and "rtail < rsize"
  shows "ring_free_bytes rhead rtail rsize = rsize - 1 - ring_avail rhead rtail rsize"
  by (simp add: ring_free_bytes_def ring_avail_def)

lemma ring_free_used:
  assumes "rhead < rsize" and "rtail < rsize"
  shows "unat (ring_free_bytes rhead rtail rsize) = unat rsize - 1 - used_spec (unat rhead) (unat rtail) (unat rsize)"
proof -
  from assms(1) have n: "0 < unat rsize" by (simp add: word_less_nat_alt)
  then have one: "unat (rsize - 1) = unat rsize - 1" by (simp add: unat_sub word_le_nat_alt)
  have "used_spec (unat rhead) (unat rtail) (unat rsize) \<le> unat rsize - 1"
    using used_spec_less [OF n, of "unat rhead" "unat rtail"] by linarith
  then have "ring_avail rhead rtail rsize \<le> rsize - 1"
    unfolding word_le_nat_alt ring_avail_used [OF assms] one .
  then show ?thesis
    unfolding ring_free_avail [OF assms] by (simp add: unat_sub ring_avail_used [OF assms] one)
qed

text \<open>Advancing the tail by no more than the room adds to what is used.\<close>

lemma used_spec_advance:
  assumes "h < n" and "t < n" and "used_spec h t n + k < n"
  shows "used_spec h ((t + k) mod n) n = used_spec h t n + k"
proof -
  have e: "a + n - h = a + (n - h)" for a using assms(1) by linarith
  have "used_spec h ((t + k) mod n) n = ((t + k) + (n - h)) mod n"
    unfolding used_spec_def e by (rule mod_add_left_eq)
  also have "(t + k) + (n - h) = (t + (n - h)) + k" by linarith
  also have "\<dots> mod n = (used_spec h t n + k) mod n"
    unfolding used_spec_def e by (rule mod_add_left_eq [symmetric])
  also have "\<dots> = used_spec h t n + k" using assms(3) by (rule mod_less)
  finally show ?thesis .
qed

lemma used_spec_reaches:
  assumes "h < n" and "t < n"
  shows "(h + used_spec h t n) mod n = t"
proof -
  have "(h + used_spec h t n) mod n = (h + (t + n - h)) mod n"
    unfolding used_spec_def by (rule mod_add_right_eq)
  also have "h + (t + n - h) = t + n" using assms(1) by linarith
  also have "(t + n) mod n = t" unfolding mod_add_self2 using assms(2) by (rule mod_less)
  finally show ?thesis .
qed

text \<open>
  Property C29. The ring arithmetic of the program is that of a ring of \<open>rsize\<close> bytes that leaves one
  byte free: for a head and a tail inside the ring, \<open>ring_free_bytes\<close> and the computation of the
  received bytes in \<open>drain_rx\<close> agree with counting modulo the size. The computation with the strict
  comparison, in the loopback and latency tests, agrees with them except on an empty ring, where
  it gives the whole size instead of 0.
\<close>

theorem ring_arithmetic:
  assumes "rhead < rsize" and "rtail < rsize"
    and "used = used_spec (unat rhead) (unat rtail) (unat rsize)"
  shows "unat (ring_avail rhead rtail rsize) = used
    \<and> unat (ring_free_bytes rhead rtail rsize) = unat rsize - 1 - used
    \<and> unat (ring_avail_strict rhead rtail rsize) = (if rhead = rtail then unat rsize else used)"
proof -
  have "ring_avail_strict rhead rtail rsize = (if rhead = rtail then rsize else ring_avail rhead rtail rsize)"
    by (auto simp: ring_avail_strict_def ring_avail_def)
  with assms show ?thesis by (simp add: ring_avail_used ring_free_used)
qed

theorem ring_arithmetic_witness:
  "unat (ring_avail 6000 1000 8192) = 3192 \<and> unat (ring_free_bytes 6000 1000 8192) = 4999
   \<and> unat (ring_avail_strict 6000 6000 8192) = 8192"
  using ring_arithmetic [of 6000 8192 1000] ring_arithmetic [of 6000 8192 6000]
  by (simp add: used_spec_def)

section \<open>Filling\<close>

text \<open>What may be sent in one call: the largest multiple of the chunk within half the ring, the room and the need.\<close>

definition quota_spec :: "nat \<Rightarrow> nat \<Rightarrow> nat \<Rightarrow> nat \<Rightarrow> nat" where
  "quota_spec rsize used chunk need =
     (let q = min (min (rsize div 2) (rsize - 1 - used)) need in q - q mod chunk)"

lemma unat_u32: "unat (x :: u32) < 2 ^ 32"
  using unsigned_less [of x, where 'a = nat] by simp

lemma unat_ucast_u64: "unat (ucast (x :: u32) :: u64) = unat x"
  using unat_u32 [of x] by (simp add: unsigned_ucast_eq take_bit_nat_eq_self)

lemma unat_ucast_u32: "unat (x :: u64) < 2 ^ 32 \<Longrightarrow> unat (ucast x :: u32) = unat x"
  by (simp add: unsigned_ucast_eq take_bit_nat_eq_self)

lemma fill_quota_spec:
  assumes "rhead < rsize" and "rtail < rsize"
  shows "unat (fill_quota rhead rtail rsize chunk need) =
    quota_spec (unat rsize) (used_spec (unat rhead) (unat rtail) (unat rsize)) (unat chunk) (unat need)"
proof -
  define q where "q = (if rsize div 2 > ring_free_bytes rhead rtail rsize then ring_free_bytes rhead rtail rsize else rsize div 2)"
  define p where "p = (if (ucast q :: u64) > need then ucast need else q)"
  have "unat q = min (unat rsize div 2) (unat rsize - 1 - used_spec (unat rhead) (unat rtail) (unat rsize))"
    by (simp add: q_def word_less_nat_alt unat_div ring_free_used [OF assms] min_def)
  moreover have "unat p = min (unat q) (unat need)"
  proof (cases "(ucast q :: u64) > need")
    case True
    then have lt: "unat need < unat q" by (simp add: word_less_nat_alt unat_ucast_u64)
    then have "unat need < 2 ^ 32" using unat_u32 [of q] by simp
    with True lt show ?thesis by (simp add: p_def unat_ucast_u32)
  next
    case False
    then have "unat q \<le> unat need" by (simp add: word_less_nat_alt unat_ucast_u64)
    with False show ?thesis by (simp add: p_def)
  qed
  moreover have "fill_quota rhead rtail rsize chunk need = p - p mod chunk"
    by (simp add: fill_quota_def Let_def p_def q_def)
  moreover have "p mod chunk \<le> p" by (simp add: word_le_nat_alt unat_mod)
  ultimately show ?thesis by (simp add: quota_spec_def unat_sub unat_mod Let_def)
qed

lemma fill_loop_steps:
  fixes chunk :: u32
  assumes "0 < chunk" and "unat rsize \<le> 2 ^ 31" and "unat chunk \<le> 2 ^ 31"
  shows "unat sent + k * unat chunk = unat quota \<Longrightarrow> t < rsize \<Longrightarrow>
    \<exists>t'. while_option (\<lambda>(sent, t). sent < quota) (\<lambda>(sent, t). (sent + chunk, (t + chunk) mod rsize)) (sent, t) = Some (quota, t')
      \<and> unat t' = (unat t + k * unat chunk) mod unat rsize"
proof (induction k arbitrary: sent t)
  case 0
  then have "sent = quota" by (simp add: word_unat_eq_iff)
  with 0 show ?case by (subst while_option_unfold) (simp add: word_less_nat_alt)
next
  case (Suc k)
  from assms(1) have c: "0 < unat chunk" by (simp add: word_less_nat_alt)
  with Suc.prems(1) have lt: "sent < quota" by (simp add: word_less_nat_alt)
  have "unat sent + unat chunk \<le> unat quota" using Suc.prems(1) by simp
  then have s: "unat (sent + chunk) = unat sent + unat chunk"
    using unat_u32 [of quota] by (simp add: unat_word_ariths)
  have "unat t + unat chunk < 2 ^ 32" using Suc.prems(2) assms(2,3) by (simp add: word_less_nat_alt)
  then have t: "unat ((t + chunk) mod rsize) = (unat t + unat chunk) mod unat rsize"
    by (simp add: unat_mod unat_word_ariths)
  from Suc.prems(2) have "(t + chunk) mod rsize < rsize" by (simp add: word_less_nat_alt unat_mod)
  moreover have "unat (sent + chunk) + k * unat chunk = unat quota" using Suc.prems(1) s by simp
  ultimately obtain t' where
    "while_option (\<lambda>(sent, t). sent < quota) (\<lambda>(sent, t). (sent + chunk, (t + chunk) mod rsize))
       (sent + chunk, (t + chunk) mod rsize) = Some (quota, t')"
    "unat t' = (unat ((t + chunk) mod rsize) + k * unat chunk) mod unat rsize"
    using Suc.IH by blast
  moreover have "((unat t + unat chunk) mod unat rsize + k * unat chunk) mod unat rsize
      = (unat t + Suc k * unat chunk) mod unat rsize"
    by (simp add: mod_add_left_eq add.assoc)
  ultimately show ?case using lt by (subst while_option_unfold) (simp add: t)
qed

lemma fill_loop_fills:
  assumes "0 < chunk" and "unat rsize \<le> 2 ^ 31" and "t < rsize" and "quota \<noteq> 0"
    and "unat chunk dvd unat quota" and "unat quota \<le> 2 ^ 31"
  shows "\<exists>t'. fill_loop chunk rsize quota t = Some (quota, t') \<and> unat t' = (unat t + unat quota) mod unat rsize"
proof -
  from assms(5) obtain k where k: "unat quota = unat chunk * k" by (elim dvdE)
  have "unat chunk \<le> unat quota" using assms(4,5) by (intro dvd_imp_le) (auto simp: unat_gt_0)
  with assms(6) have "unat chunk \<le> 2 ^ 31" by linarith
  from fill_loop_steps [OF assms(1,2) this, of 0 k quota t] assms(3) k show ?thesis
    by (simp add: fill_loop_def mult.commute)
qed

lemma quota_spec_props:
  assumes "used < rsize"
  shows "used + quota_spec rsize used chunk need < rsize" and "quota_spec rsize used chunk need \<le> rsize div 2"
    and "chunk dvd quota_spec rsize used chunk need"
  using assms by (auto simp: quota_spec_def Let_def min_def dvd_minus_mod)

text \<open>The registers of the rings of one row are storage.\<close>

definition row_storage :: "(region \<times> nat) set \<Rightarrow> nat \<Rightarrow> bool" where
  "row_storage S row \<longleftrightarrow>
     span R_UDP_TX (ACCNET_UDP_TX_RING_HEAD (int row)) 4 \<subseteq> S \<and> span R_UDP_TX (ACCNET_UDP_TX_RING_TAIL (int row)) 4 \<subseteq> S
     \<and> span R_UDP_RX (ACCNET_UDP_RX_RING_HEAD (int row)) 4 \<subseteq> S \<and> span R_UDP_RX (ACCNET_UDP_RX_RING_TAIL (int row)) 4 \<subseteq> S
     \<and> span R_IOCACHE (IOCACHE_REG_TX_RING_SIZE (int row)) 4 \<subseteq> S \<and> span R_IOCACHE (IOCACHE_REG_RX_RING_SIZE (int row)) 4 \<subseteq> S"

lemma row_storage_regs:
  assumes "row_storage S row" and "row < 64"
  shows "reg_ok S R_UDP_TX (ACCNET_UDP_TX_RING_HEAD (int row))" "reg_ok S R_UDP_TX (ACCNET_UDP_TX_RING_TAIL (int row))"
    "reg_ok S R_UDP_RX (ACCNET_UDP_RX_RING_HEAD (int row))" "reg_ok S R_UDP_RX (ACCNET_UDP_RX_RING_TAIL (int row))"
    "reg_ok S R_IOCACHE (IOCACHE_REG_TX_RING_SIZE (int row))" "reg_ok S R_IOCACHE (IOCACHE_REG_RX_RING_SIZE (int row))"
  using assms by (simp_all add: row_storage_def reg_ok_def unat_row_regs)

text \<open>
  Property C24. One call of \<open>try_fill_tx\<close> returns, and sends exactly the largest multiple of the
  chunk that fits into half of the ring, the room in the ring and what is still needed. The tail
  moves on by that amount around the ring, the head stays, and the ring then holds that many bytes
  more, always at least one byte less than its size: the tail never catches up with the head.
\<close>

theorem try_fill_tx_fills:
  assumes "storage_device (cx_dev X) S peek" and "row_storage S row" and "row < 64" and "ii_row info = int row"
    and "rhead = reg32 peek lb R_UDP_TX (ACCNET_UDP_TX_RING_HEAD (int row))"
    and "rtail = reg32 peek lb R_UDP_TX (ACCNET_UDP_TX_RING_TAIL (int row))"
    and "rsize = reg32 peek lb R_IOCACHE (IOCACHE_REG_TX_RING_SIZE (int row))"
    and "rhead < rsize" and "rtail < rsize" and "unat rsize \<le> 2 ^ 31" and "0 < chunk"
    and "used = used_spec (unat rhead) (unat rtail) (unat rsize)"
    and "run_state (try_fill_tx X info chunk need) lb = (r, lb')"
  shows "\<exists>sent. r = Some sent \<and> unat sent = quota_spec (unat rsize) used (unat chunk) (unat need)
    \<and> reg32 peek lb' R_UDP_TX (ACCNET_UDP_TX_RING_HEAD (int row)) = rhead
    \<and> unat (reg32 peek lb' R_UDP_TX (ACCNET_UDP_TX_RING_TAIL (int row))) = (unat rtail + unat sent) mod unat rsize
    \<and> used_spec (unat rhead) (unat (reg32 peek lb' R_UDP_TX (ACCNET_UDP_TX_RING_TAIL (int row)))) (unat rsize)
        = used + unat sent
    \<and> used + unat sent < unat rsize"
proof -
  note ok = row_storage_regs [OF assms(2,3)]
  note rd = run_rd32 [OF assms(1)] rd32_keeps [OF assms(1)] wr32_same [OF assms(1)]
  let ?T = "ACCNET_UDP_TX_RING_TAIL (int row)" and ?H = "ACCNET_UDP_TX_RING_HEAD (int row)"
  have lt: "unat rhead < unat rsize" "unat rtail < unat rsize" using assms(8,9) by (simp_all add: word_less_nat_alt)
  define q where "q = fill_quota rhead rtail rsize chunk need"
  have q: "unat q = quota_spec (unat rsize) used (unat chunk) (unat need)"
    unfolding q_def assms(12) by (rule fill_quota_spec [OF assms(8,9)])
  have "used < unat rsize" unfolding assms(12) using lt(1) by (intro used_spec_less) simp
  note spec = quota_spec_props [OF this, of "unat chunk" "unat need", folded q]
  have run: "r = Some q \<and> reg32 peek lb' R_UDP_TX ?H = rhead
      \<and> unat (reg32 peek lb' R_UDP_TX ?T) = (unat rtail + unat q) mod unat rsize"
  proof (cases "q = 0")
    case True
    then show ?thesis
      using assms(13) lt by (auto simp: try_fill_tx_def Let_def split_beta assms(4-7) ok rd q_def)
  next
    case False
    have "unat q \<le> 2 ^ 31" using spec(2) assms(10) by linarith
    from fill_loop_fills [OF assms(11,10,9) False spec(3) this] obtain t' where
      t': "fill_loop chunk rsize q rtail = Some (q, t')" "unat t' = (unat rtail + unat q) mod unat rsize" by blast
    have apart: "unat ?H + 4 \<le> unat ?T" using assms(3) by (simp add: unat_row_regs)
    show ?thesis
      using assms(13) False t' wr32_other [OF assms(1) ok(2,1)] apart
      by (auto simp: try_fill_tx_def Let_def split_beta assms(4-7) ok rd q_def)
  qed
  moreover have "used_spec (unat rhead) ((unat rtail + unat q) mod unat rsize) (unat rsize) = used + unat q"
    using used_spec_advance [OF lt] spec(1) unfolding assms(12) by blast
  ultimately show ?thesis using q spec(1) by auto
qed

text \<open>Row 0 of a device with rings of 8192 bytes; both rings hold bytes and wrap around.\<close>

definition ring_lib :: "(region \<Rightarrow> bytes_at) lib" where
  "ring_lib = on_regs (fold (do_write ram_device)
     [(R_UDP_TX, 4, ACCNET_UDP_TX_RING_HEAD (int 0), 6000), (R_UDP_TX, 4, ACCNET_UDP_TX_RING_TAIL (int 0), 1000),
      (R_UDP_RX, 4, ACCNET_UDP_RX_RING_HEAD (int 0), 8000), (R_UDP_RX, 4, ACCNET_UDP_RX_RING_TAIL (int 0), 64),
      (R_IOCACHE, 4, IOCACHE_REG_TX_RING_SIZE (int 0), 8192), (R_IOCACHE, 4, IOCACHE_REG_RX_RING_SIZE (int 0), 8192)]) demo_lib"

lemma ring_lib_regs:
  "reg32 (\<lambda>m (r, a). m r a) ring_lib R_UDP_TX (ACCNET_UDP_TX_RING_HEAD (int 0)) = 6000"
  "reg32 (\<lambda>m (r, a). m r a) ring_lib R_UDP_TX (ACCNET_UDP_TX_RING_TAIL (int 0)) = 1000"
  "reg32 (\<lambda>m (r, a). m r a) ring_lib R_UDP_RX (ACCNET_UDP_RX_RING_HEAD (int 0)) = 8000"
  "reg32 (\<lambda>m (r, a). m r a) ring_lib R_UDP_RX (ACCNET_UDP_RX_RING_TAIL (int 0)) = 64"
  "reg32 (\<lambda>m (r, a). m r a) ring_lib R_IOCACHE (IOCACHE_REG_TX_RING_SIZE (int 0)) = 8192"
  "reg32 (\<lambda>m (r, a). m r a) ring_lib R_IOCACHE (IOCACHE_REG_RX_RING_SIZE (int 0)) = 8192"
  by (simp_all add: reg32_def ring_lib_def on_regs_def on_hw_def ram.reg_val_write_same ram.reg_val_write_other
      span_disjoint unat_row_regs [of 0, simplified] del: of_nat_0)

lemma ring_lib_storage: "storage_device (cx_dev demo_ctx) UNIV (\<lambda>m (r, a). m r a)" "row_storage UNIV 0"
  by (simp_all add: demo_ctx_def ram_storage row_storage_def)

theorem try_fill_tx_fills_witness:
  "\<exists>sent lb'. run_state (try_fill_tx demo_ctx zero_info 1000 1000000) ring_lib = (Some sent, lb')
     \<and> unat sent = 4000
     \<and> unat (reg32 (\<lambda>m (r, a). m r a) lb' R_UDP_TX (ACCNET_UDP_TX_RING_TAIL (int 0))) = 5000"
proof -
  obtain r lb' where run: "run_state (try_fill_tx demo_ctx zero_info 1000 1000000) ring_lib = (r, lb')"
    by (metis surj_pair)
  from try_fill_tx_fills [OF ring_lib_storage _ _ _ _ _ _ _ _ _ refl run, of _ _ _, OF _ _ refl refl refl]
  have "\<exists>sent. r = Some sent \<and> unat sent = 4000
     \<and> unat (reg32 (\<lambda>m (r, a). m r a) lb' R_UDP_TX (ACCNET_UDP_TX_RING_TAIL (int 0))) = 5000"
    unfolding ring_lib_regs by (auto simp: zero_info_def used_spec_def quota_spec_def)
  with run show ?thesis by blast
qed

text \<open>
  \<open>drain_rx\<close> returns the number of bytes that were in the receive ring and leaves the
  ring empty: the head is then at the tail, which has not moved.
\<close>

lemma drain_rx_empties:
  assumes "storage_device (cx_dev X) S peek" and "row_storage S row" and "row < 64" and "ii_row info = int row"
    and "rhead = reg32 peek lb R_UDP_RX (ACCNET_UDP_RX_RING_HEAD (int row))"
    and "rtail = reg32 peek lb R_UDP_RX (ACCNET_UDP_RX_RING_TAIL (int row))"
    and "rsize = reg32 peek lb R_IOCACHE (IOCACHE_REG_RX_RING_SIZE (int row))"
    and "rhead < rsize" and "rtail < rsize" and "run_state (drain_rx X info) lb = (r, lb')"
  shows "unat r = used_spec (unat rhead) (unat rtail) (unat rsize)
    \<and> reg32 peek lb' R_UDP_RX (ACCNET_UDP_RX_RING_HEAD (int row)) = rtail
    \<and> reg32 peek lb' R_UDP_RX (ACCNET_UDP_RX_RING_TAIL (int row)) = rtail"
proof -
  note ok = row_storage_regs [OF assms(2,3)]
  note rd = run_rd32 [OF assms(1)] rd32_keeps [OF assms(1)] wr32_same [OF assms(1)]
  have apart: "unat (ACCNET_UDP_RX_RING_HEAD (int row)) + 4 \<le> unat (ACCNET_UDP_RX_RING_TAIL (int row))"
    using assms(3) by (simp add: unat_row_regs)
  have empty: "rtail = rhead" if "ring_avail rhead rtail rsize = 0"
    using that ring_avail_used [OF assms(8,9)] used_spec_cases [of "unat rhead" "unat rsize" "unat rtail"] assms(8,9)
    by (auto simp: word_less_nat_alt word_unat_eq_iff split: if_splits)
  have eq: "r = ring_avail rhead rtail rsize" "reg32 peek lb' R_UDP_RX (ACCNET_UDP_RX_RING_TAIL (int row)) = rtail"
      "reg32 peek lb' R_UDP_RX (ACCNET_UDP_RX_RING_HEAD (int row)) = (if ring_avail rhead rtail rsize = 0 then rhead else rtail)"
    using assms(10) wr32_other [OF assms(1) ok(3,4)] apart
    by (auto simp: drain_rx_def Let_def split_beta assms(4-7) ok rd split: if_splits)
  from empty eq(3) have "reg32 peek lb' R_UDP_RX (ACCNET_UDP_RX_RING_HEAD (int row)) = rtail" by (auto split: if_splits)
  with eq show ?thesis by (simp add: ring_avail_used [OF assms(8,9)])
qed

lemma drain_rx_empties_witness:
  "unat (fst (run_state (drain_rx demo_ctx zero_info) ring_lib)) = 256
   \<and> reg32 (\<lambda>m (r, a). m r a) (snd (run_state (drain_rx demo_ctx zero_info) ring_lib))
       R_UDP_RX (ACCNET_UDP_RX_RING_HEAD (int 0)) = 64"
proof -
  obtain r lb' where run: "run_state (drain_rx demo_ctx zero_info) ring_lib = (r, lb')" by (metis surj_pair)
  from drain_rx_empties [OF ring_lib_storage _ _ _ _ _ _ _ run, OF _ _ refl refl refl]
  show ?thesis unfolding ring_lib_regs run by (simp add: zero_info_def used_spec_def)
qed

end
