(* ===== verification/Udp_Exp.thy ===== *)
theory Udp_Exp
  imports Udp_Ring
begin

text \<open>
  The experiment program boards/default/lib/udp_exp.c: its tests over the two libraries.

  A signal handler sets \<open>g_got_sigint\<close> at some moment, and the loops test it. The number \<open>n\<close> that
  the loops take is the number of tests that still find it clear; after those it is set. A loop
  that tests nothing but a register may never end, and then the result is None. The device works
  on its own between two register accesses; that is the business of the device parameter, whose
  every access may change its state. Barriers, \<open>usleep\<close> and the printed statistics in floating
  point have no counterpart.
\<close>

section \<open>Loopback over both rings\<close>

primrec loopback_loop ::
    "nat \<Rightarrow> 'd ctx \<Rightarrow> iocache_info \<Rightarrow> u32 \<Rightarrow> u64 \<Rightarrow> u64 \<Rightarrow> u64 \<Rightarrow> ('d lib, (u64 \<times> u64) option) state" where
  "loopback_loop 0 X info payload_size target_bytes total_tx total_rx = State_Monad.return (Some (total_tx, total_rx))"
| "loopback_loop (Suc n) X info payload_size target_bytes total_tx total_rx =
     (if total_rx < target_bytes then do {
        just_tx \<leftarrow> (if total_tx < target_bytes then try_fill_tx X info payload_size (target_bytes - total_tx)
                    else State_Monad.return (Some 0));
        case just_tx of
          None \<Rightarrow> State_Monad.return None
        | Some just_tx \<Rightarrow> do {
            let total_tx = total_tx + ucast just_tx;
            just_rx \<leftarrow> drain_rx X info;
            let total_rx = total_rx + ucast just_rx;
            if just_rx = 0 \<and> total_tx \<ge> target_bytes then do {
              ret \<leftarrow> wait_rx X info;
              loopback_loop n X info payload_size target_bytes total_tx total_rx
            } else loopback_loop n X info payload_size target_bytes total_tx total_rx
          }
      } else State_Monad.return (Some (total_tx, total_rx)))"

definition test_loopback_throughput ::
    "nat \<Rightarrow> 'd ctx \<Rightarrow> iocache_info \<Rightarrow> u32 \<Rightarrow> u64 \<Rightarrow> ('d lib, (u64 \<times> u64 \<times> u64) option) state" where
  "test_loopback_throughput n X info payload_size target_bytes = do {
     t_start \<leftarrow> rd64 X R_CTRL ACCNET_CTRL_TIMESTAMP;
     totals \<leftarrow> loopback_loop n X info payload_size target_bytes 0 0;
     case totals of
       None \<Rightarrow> State_Monad.return None
     | Some (total_tx, total_rx) \<Rightarrow> do {
         t_end \<leftarrow> rd64 X R_CTRL ACCNET_CTRL_TIMESTAMP;
         State_Monad.return (Some (t_end - t_start, total_tx, total_rx))
       }
   }"

section \<open>The sending thread\<close>

definition worker_body :: "'d ctx \<Rightarrow> iocache_info \<Rightarrow> u32 \<Rightarrow> u32 \<Rightarrow> u32 \<Rightarrow> ('d lib, u32) state" where
  "worker_body X info payload_size tx_size tx_tail = do {
     tx_head \<leftarrow> rd32 X R_UDP_TX (ACCNET_UDP_TX_RING_HEAD (ii_row info));
     let avail = (if tx_tail \<ge> tx_head then tx_size - (tx_tail - tx_head) - 1 else tx_head - tx_tail - 1);
     if payload_size \<le> avail then do {
       let new_tx_tail = ucast ((ucast (tx_tail + payload_size) :: u64) mod ii_udp_tx_size info);
       wr32 X R_UDP_TX (ACCNET_UDP_TX_RING_TAIL (ii_row info)) new_tx_tail;
       State_Monad.return new_tx_tail
     } else State_Monad.return tx_tail
   }"

text \<open>The body runs first; then the counter is compared, and only then the flag.\<close>

primrec worker_loop :: "nat \<Rightarrow> 'd ctx \<Rightarrow> iocache_info \<Rightarrow> u32 \<Rightarrow> u32 \<Rightarrow> u32 \<Rightarrow> u32 \<Rightarrow> u32 \<Rightarrow> ('d lib, u32) state" where
  "worker_loop 0 X info payload_size ntest tx_size counter tx_tail = worker_body X info payload_size tx_size tx_tail"
| "worker_loop (Suc n) X info payload_size ntest tx_size counter tx_tail = do {
     tx_tail \<leftarrow> worker_body X info payload_size tx_size tx_tail;
     if counter < ntest then worker_loop n X info payload_size ntest tx_size (counter + 1) tx_tail
     else State_Monad.return tx_tail
   }"

definition tx_worker_fn :: "nat \<Rightarrow> 'd ctx \<Rightarrow> iocache_info \<Rightarrow> u32 \<Rightarrow> u32 \<Rightarrow> ('d lib, unit) state" where
  "tx_worker_fn n X info payload_size ntest = do {
     tx_head \<leftarrow> rd32 X R_UDP_TX (ACCNET_UDP_TX_RING_HEAD (ii_row info));
     tx_tail \<leftarrow> rd32 X R_UDP_TX (ACCNET_UDP_TX_RING_TAIL (ii_row info));
     tx_size \<leftarrow> rd32 X R_IOCACHE (IOCACHE_REG_TX_RING_SIZE (ii_row info));
     tx_tail \<leftarrow> worker_loop n X info payload_size ntest tx_size 0 tx_tail;
     State_Monad.return ()
   }"

section \<open>The receiving server\<close>

record rx_stats =
  rs_total_rx :: u64
  rs_first_tick :: u64
  rs_last_tick :: u64

primrec sink_loop :: "nat \<Rightarrow> 'd ctx \<Rightarrow> iocache_info \<Rightarrow> u32 \<Rightarrow> u32 \<Rightarrow> rx_stats \<Rightarrow> ('d lib, rx_stats) state" where
  "sink_loop 0 X info rx_size rx_head st = State_Monad.return st"
| "sink_loop (Suc n) X info rx_size rx_head st = do {
     ret \<leftarrow> wait_rx X info;
     if ret \<noteq> 0 then sink_loop n X info rx_size rx_head st
     else do {
       rx_tail \<leftarrow> rd32 X R_UDP_RX (ACCNET_UDP_RX_RING_TAIL (ii_row info));
       let got = ring_avail rx_head rx_tail rx_size;
       if got \<noteq> 0 then do {
         wr32 X R_UDP_RX (ACCNET_UDP_RX_RING_HEAD (ii_row info)) rx_tail;
         now \<leftarrow> rd64 X R_CTRL ACCNET_CTRL_TIMESTAMP;
         sink_loop n X info rx_size rx_tail
           \<lparr>rs_total_rx = rs_total_rx st + ucast got,
            rs_first_tick = (if rs_first_tick st = 0 then now else rs_first_tick st), rs_last_tick = now\<rparr>
       } else sink_loop n X info rx_size rx_head st
     }
   }"

definition test_udp_server_throughput :: "nat \<Rightarrow> 'd ctx \<Rightarrow> iocache_info \<Rightarrow> ('d lib, rx_stats) state" where
  "test_udp_server_throughput n X info = do {
     rx_head \<leftarrow> rd32 X R_UDP_RX (ACCNET_UDP_RX_RING_HEAD (ii_row info));
     rx_tail \<leftarrow> rd32 X R_UDP_RX (ACCNET_UDP_RX_RING_TAIL (ii_row info));
     rx_size \<leftarrow> rd32 X R_IOCACHE (IOCACHE_REG_RX_RING_SIZE (ii_row info));
     sink_loop n X info rx_size rx_head \<lparr>rs_total_rx = 0, rs_first_tick = 0, rs_last_tick = 0\<rparr>
   }"

section \<open>The ring memory\<close>

text \<open>
  The transmit buffer is memory of the program; the receive buffer is written by the device, so
  its bytes are a function \<open>rxm\<close> of the hardware state. Both are lists of the bytes that are
  mapped, and an access beyond them is None.
\<close>

record 'd exp =
  ex_lb :: "'d lib"
  ex_tx :: "u8 list"

definition on_lib :: "('d lib, 'a) state \<Rightarrow> ('d exp, 'a) state" where
  "on_lib m = State (\<lambda>e. case run_state m (ex_lb e) of (v, lb) \<Rightarrow> (v, e\<lparr>ex_lb := lb\<rparr>))"

definition mem_read :: "u8 list \<Rightarrow> nat \<Rightarrow> nat \<Rightarrow> u8 list option" where
  "mem_read mem at n = (if at + n > length mem then None else Some (take n (drop at mem)))"

definition mem_write :: "u8 list \<Rightarrow> nat \<Rightarrow> u8 list \<Rightarrow> u8 list option" where
  "mem_write mem at src =
     (if at + length src > length mem then None else Some (take at mem @ src @ drop (at + length src) mem))"

text \<open>\<open>memcpy\<close> into the transmit buffer; False is the fault.\<close>

definition copy_tx :: "u32 \<Rightarrow> u8 list \<Rightarrow> ('d exp, bool) state" where
  "copy_tx tx_tail src = State (\<lambda>e.
     case mem_write (ex_tx e) (unat tx_tail) src of None \<Rightarrow> (False, e) | Some mem \<Rightarrow> (True, e\<lparr>ex_tx := mem\<rparr>))"

definition copy_rx_tx :: "('d \<Rightarrow> u8 list) \<Rightarrow> u32 \<Rightarrow> u32 \<Rightarrow> u32 \<Rightarrow> ('d exp, bool) state" where
  "copy_rx_tx rxm rx_head tx_tail n = State (\<lambda>e.
     case mem_read (rxm (io_hw (lb_drv (ex_lb e)))) (unat rx_head) (unat n) of
       None \<Rightarrow> (False, e)
     | Some src \<Rightarrow> run_state (copy_tx tx_tail src) e)"

section \<open>The echo server\<close>

record echo =
  ec_rx_head :: u32
  ec_tx_tail :: u32
  ec_nPackets :: u32
  ec_ticks :: int
  ec_ticks_2 :: int

text \<open>Arithmetic of \<open>int\<close>; the tail that follows \<open>n\<close> more bytes.\<close>

definition int32 :: "int \<Rightarrow> int" where
  "int32 i = sint (word_of_int i :: u32)"

definition next_tail :: "u32 \<Rightarrow> u32 \<Rightarrow> u64 \<Rightarrow> u32" where
  "next_tail tx_tail n rsize = ucast ((ucast (tx_tail + n) :: u64) mod rsize)"

text \<open>The part after the copy: release, send, and account for the time.\<close>

definition echo_publish :: "'d ctx \<Rightarrow> iocache_info \<Rightarrow> u32 \<Rightarrow> u32 \<Rightarrow> echo \<Rightarrow> ('d lib, echo) state" where
  "echo_publish X info rx_tail n ec = do {
     let row = ii_row info;
     wr32 X R_UDP_RX (ACCNET_UDP_RX_RING_HEAD row) rx_tail;
     let new_tx_tail = next_tail (ec_tx_tail ec) n (ii_udp_tx_size info);
     wr32 X R_UDP_TX (ACCNET_UDP_TX_RING_TAIL row) new_tx_tail;
     after \<leftarrow> rd64 X R_CTRL ACCNET_CTRL_TIMESTAMP;
     rx_ts \<leftarrow> rd64 X R_UDP_RX (ACCNET_UDP_RX_RING_LAST_TIMESTAMP row);
     tx_ts \<leftarrow> rd64 X R_UDP_TX (ACCNET_UDP_TX_RING_LAST_TIMESTAMP row);
     let rx_timestamp = sint (ucast rx_ts :: u32);
     let tx_timestamp = sint (ucast tx_ts :: u32);
     State_Monad.return \<lparr>ec_rx_head = rx_tail, ec_tx_tail = new_tx_tail, ec_nPackets = ec_nPackets ec + 1,
       ec_ticks = int32 (ec_ticks ec + int32 (tx_timestamp - rx_timestamp)),
       ec_ticks_2 = int32 (uint (word_of_int (ec_ticks_2 ec) + (after - word_of_int rx_timestamp) :: u64))\<rparr>
   }"

definition server_body :: "'d ctx \<Rightarrow> iocache_info \<Rightarrow> ('d \<Rightarrow> u8 list) \<Rightarrow> u32 \<Rightarrow> echo \<Rightarrow> ('d exp, echo option) state" where
  "server_body X info rxm rx_size ec = do {
     let row = ii_row info;
     ret \<leftarrow> on_lib (wait_rx X info);
     if ret = 0 then do {
       rx_tail \<leftarrow> on_lib (rd32 X R_UDP_RX (ACCNET_UDP_RX_RING_TAIL row));
       if rx_tail = ec_rx_head ec then State_Monad.return (Some ec)
       else do {
         let n = ring_avail_strict (ec_rx_head ec) rx_tail rx_size;
         copied \<leftarrow> copy_rx_tx rxm (ec_rx_head ec) (ec_tx_tail ec) n;
         if \<not> copied then State_Monad.return None
         else do {
           ec \<leftarrow> on_lib (echo_publish X info rx_tail n ec);
           State_Monad.return (Some ec)
         }
       }
     } else State_Monad.return (Some ec)
   }"

primrec server_loop :: "nat \<Rightarrow> 'd ctx \<Rightarrow> iocache_info \<Rightarrow> ('d \<Rightarrow> u8 list) \<Rightarrow> u32 \<Rightarrow> echo \<Rightarrow> ('d exp, echo option) state" where
  "server_loop 0 X info rxm rx_size ec = server_body X info rxm rx_size ec"
| "server_loop (Suc n) X info rxm rx_size ec = do {
     res \<leftarrow> server_body X info rxm rx_size ec;
     case res of None \<Rightarrow> State_Monad.return None | Some ec \<Rightarrow> server_loop n X info rxm rx_size ec
   }"

datatype server_result = Tx_weird | Rx_weird | Server_fault | Served echo

definition test_udp_server_block :: "nat \<Rightarrow> 'd ctx \<Rightarrow> iocache_info \<Rightarrow> ('d \<Rightarrow> u8 list) \<Rightarrow> ('d exp, server_result) state" where
  "test_udp_server_block n X info rxm = do {
     let row = ii_row info;
     tx_head \<leftarrow> on_lib (rd32 X R_UDP_TX (ACCNET_UDP_TX_RING_HEAD row));
     tx_tail \<leftarrow> on_lib (rd32 X R_UDP_TX (ACCNET_UDP_TX_RING_TAIL row));
     tx_size \<leftarrow> on_lib (rd32 X R_IOCACHE (IOCACHE_REG_TX_RING_SIZE row));
     rx_head \<leftarrow> on_lib (rd32 X R_UDP_RX (ACCNET_UDP_RX_RING_HEAD row));
     rx_tail \<leftarrow> on_lib (rd32 X R_UDP_RX (ACCNET_UDP_RX_RING_TAIL row));
     rx_size \<leftarrow> on_lib (rd32 X R_IOCACHE (IOCACHE_REG_RX_RING_SIZE row));
     if tx_head \<noteq> tx_tail then State_Monad.return Tx_weird
     else if rx_head \<noteq> rx_tail then State_Monad.return Rx_weird
     else do {
       res \<leftarrow> server_loop n X info rxm rx_size
         \<lparr>ec_rx_head = rx_head, ec_tx_tail = tx_tail, ec_nPackets = 0, ec_ticks = 0, ec_ticks_2 = 0\<rparr>;
       State_Monad.return (case res of None \<Rightarrow> Server_fault | Some ec \<Rightarrow> Served ec)
     }
   }"

section \<open>Loopback one packet at a time\<close>

text \<open>Waiting for the transmit engine tests only the head register.\<close>

partial_function (option) spin_tx :: "'d ctx \<Rightarrow> int \<Rightarrow> u32 \<Rightarrow> 'd lib \<Rightarrow> 'd lib option" where
  "spin_tx X row tx_tail lb =
     (case run_state (rd32 X R_UDP_TX (ACCNET_UDP_TX_RING_HEAD row)) lb of (tx_head, lb) \<Rightarrow>
        if tx_head \<noteq> tx_tail then spin_tx X row tx_tail lb else Some lb)"

definition local_receive :: "'d ctx \<Rightarrow> iocache_info \<Rightarrow> ('d lib, u32) state" where
  "local_receive X info = do {
     ret \<leftarrow> wait_rx X info;
     rx_tail \<leftarrow> rd32 X R_UDP_RX (ACCNET_UDP_RX_RING_TAIL (ii_row info));
     wr32 X R_UDP_RX (ACCNET_UDP_RX_RING_HEAD (ii_row info)) rx_tail;
     State_Monad.return rx_tail
   }"

primrec local_loop ::
    "nat \<Rightarrow> 'd ctx \<Rightarrow> iocache_info \<Rightarrow> u32 \<Rightarrow> u64 \<Rightarrow> u32 \<Rightarrow> u32 \<Rightarrow> u32 \<Rightarrow> u64 \<Rightarrow> 'd lib \<Rightarrow> (u64 \<times> 'd lib) option" where
  "local_loop 0 X info payload_size target_bytes rx_size tx_tail rx_head total_rx lb = Some (total_rx, lb)"
| "local_loop (Suc n) X info payload_size target_bytes rx_size tx_tail rx_head total_rx lb =
     (if total_rx < target_bytes then
        (let new_tx_tail = next_tail tx_tail payload_size (ii_udp_tx_size info);
             lb = snd (run_state (wr32 X R_UDP_TX (ACCNET_UDP_TX_RING_TAIL (ii_row info)) new_tx_tail) lb)
         in case spin_tx X (ii_row info) new_tx_tail lb of
           None \<Rightarrow> None
         | Some lb \<Rightarrow>
             (case run_state (local_receive X info) lb of (rx_tail, lb) \<Rightarrow>
                local_loop n X info payload_size target_bytes rx_size new_tx_tail rx_tail
                  (total_rx + scast (ring_avail_strict rx_head rx_tail rx_size)) lb))
      else Some (total_rx, lb))"

definition test_loopback_throughput_local ::
    "nat \<Rightarrow> 'd ctx \<Rightarrow> iocache_info \<Rightarrow> u32 \<Rightarrow> u64 \<Rightarrow> 'd lib \<Rightarrow> (u64 \<times> u64 \<times> 'd lib) option" where
  "test_loopback_throughput_local n X info payload_size target_bytes lb =
     (case run_state (do {
        let row = ii_row info;
        tx_head \<leftarrow> rd32 X R_UDP_TX (ACCNET_UDP_TX_RING_HEAD row);
        tx_tail \<leftarrow> rd32 X R_UDP_TX (ACCNET_UDP_TX_RING_TAIL row);
        tx_size \<leftarrow> rd32 X R_IOCACHE (IOCACHE_REG_TX_RING_SIZE row);
        rx_head \<leftarrow> rd32 X R_UDP_RX (ACCNET_UDP_RX_RING_HEAD row);
        rx_tail \<leftarrow> rd32 X R_UDP_RX (ACCNET_UDP_RX_RING_TAIL row);
        rx_size \<leftarrow> rd32 X R_IOCACHE (IOCACHE_REG_RX_RING_SIZE row);
        before \<leftarrow> rd64 X R_CTRL ACCNET_CTRL_TIMESTAMP;
        State_Monad.return (tx_tail, rx_head, rx_size, before)
      }) lb of ((tx_tail, rx_head, rx_size, before), lb) \<Rightarrow>
        (case local_loop n X info payload_size target_bytes rx_size tx_tail rx_head 0 lb of
           None \<Rightarrow> None
         | Some (total_rx, lb) \<Rightarrow>
             (case run_state (rd64 X R_CTRL ACCNET_CTRL_TIMESTAMP) lb of (after, lb) \<Rightarrow>
                Some (after - before, total_rx, lb))))"

section \<open>Latency of one packet\<close>

text \<open>The ticks between sending and receiving, 0 on a timeout; None is a fault of the copy.\<close>

definition test_udp_latency_block :: "'d ctx \<Rightarrow> iocache_info \<Rightarrow> u8 list \<Rightarrow> u32 \<Rightarrow> ('d exp, u64 option) state" where
  "test_udp_latency_block X info payload payload_size = do {
     let row = ii_row info;
     tx_head \<leftarrow> on_lib (rd32 X R_UDP_TX (ACCNET_UDP_TX_RING_HEAD row));
     tx_tail \<leftarrow> on_lib (rd32 X R_UDP_TX (ACCNET_UDP_TX_RING_TAIL row));
     tx_size \<leftarrow> on_lib (rd32 X R_IOCACHE (IOCACHE_REG_TX_RING_SIZE row));
     rx_head \<leftarrow> on_lib (rd32 X R_UDP_RX (ACCNET_UDP_RX_RING_HEAD row));
     rx_size \<leftarrow> on_lib (rd32 X R_IOCACHE (IOCACHE_REG_RX_RING_SIZE row));
     copied \<leftarrow> copy_tx tx_tail (take (unat payload_size) payload);
     if \<not> copied then State_Monad.return None
     else do {
       let new_tx_tail = next_tail tx_tail payload_size (ii_udp_tx_size info);
       before \<leftarrow> on_lib (rd64 X R_CTRL ACCNET_CTRL_TIMESTAMP);
       on_lib (wr32 X R_UDP_TX (ACCNET_UDP_TX_RING_TAIL row) new_tx_tail);
       ret \<leftarrow> on_lib (wait_rx X info);
       after \<leftarrow> on_lib (rd64 X R_CTRL ACCNET_CTRL_TIMESTAMP);
       rx_tail \<leftarrow> on_lib (rd32 X R_UDP_RX (ACCNET_UDP_RX_RING_TAIL row));
       on_lib (wr32 X R_UDP_RX (ACCNET_UDP_RX_RING_HEAD row) rx_tail);
       State_Monad.return (Some (if ret = - 1 then 0 else after - before))
     }
   }"

text \<open>The polling loop gives back the number of tests of the flag that are left.\<close>

primrec poll_loop :: "nat \<Rightarrow> 'd ctx \<Rightarrow> int \<Rightarrow> u64 \<Rightarrow> ('d lib, nat \<times> u32) state" where
  "poll_loop 0 X row expected = do {
     rx_tail \<leftarrow> rd32 X R_UDP_RX (ACCNET_UDP_RX_RING_TAIL row);
     State_Monad.return (0, rx_tail)
   }"
| "poll_loop (Suc n) X row expected = do {
     rx_tail \<leftarrow> rd32 X R_UDP_RX (ACCNET_UDP_RX_RING_TAIL row);
     if ucast rx_tail \<noteq> expected then poll_loop n X row expected
     else State_Monad.return (Suc n, rx_tail)
   }"

definition test_udp_latency_poll ::
    "nat \<Rightarrow> 'd ctx \<Rightarrow> iocache_info \<Rightarrow> u8 list \<Rightarrow> u32 \<Rightarrow> ('d exp, nat \<times> u64 option) state" where
  "test_udp_latency_poll n X info payload payload_size = do {
     let row = ii_row info;
     rx_head \<leftarrow> on_lib (rd32 X R_UDP_RX (ACCNET_UDP_RX_RING_HEAD row));
     rx_tail \<leftarrow> on_lib (rd32 X R_UDP_RX (ACCNET_UDP_RX_RING_TAIL row));
     rx_size \<leftarrow> on_lib (rd32 X R_IOCACHE (IOCACHE_REG_RX_RING_SIZE row));
     tx_head \<leftarrow> on_lib (rd32 X R_UDP_TX (ACCNET_UDP_TX_RING_HEAD row));
     tx_tail \<leftarrow> on_lib (rd32 X R_UDP_TX (ACCNET_UDP_TX_RING_TAIL row));
     tx_size \<leftarrow> on_lib (rd32 X R_IOCACHE (IOCACHE_REG_TX_RING_SIZE row));
     copied \<leftarrow> copy_tx tx_tail (take (unat payload_size) payload);
     if \<not> copied then State_Monad.return (n, None)
     else do {
       let val = next_tail tx_tail payload_size (ii_udp_tx_size info);
       before \<leftarrow> on_lib (rd64 X R_CTRL ACCNET_CTRL_TIMESTAMP);
       on_lib (wr32 X R_UDP_TX (ACCNET_UDP_TX_RING_TAIL row) val);
       (n, rx_tail) \<leftarrow> on_lib (poll_loop n X row ((ucast (rx_head + payload_size) :: u64) mod ii_udp_rx_size info));
       after \<leftarrow> on_lib (rd64 X R_CTRL ACCNET_CTRL_TIMESTAMP);
       rx_head \<leftarrow> on_lib (rd32 X R_UDP_RX (ACCNET_UDP_RX_RING_HEAD row));
       rx_size \<leftarrow> on_lib (rd32 X R_IOCACHE (IOCACHE_REG_RX_RING_SIZE row));
       tx_head \<leftarrow> on_lib (rd32 X R_UDP_TX (ACCNET_UDP_TX_RING_HEAD row));
       tx_tail \<leftarrow> on_lib (rd32 X R_UDP_TX (ACCNET_UDP_TX_RING_TAIL row));
       tx_size \<leftarrow> on_lib (rd32 X R_IOCACHE (IOCACHE_REG_TX_RING_SIZE row));
       on_lib (wr32 X R_UDP_RX (ACCNET_UDP_RX_RING_HEAD row) rx_tail);
       State_Monad.return (n, Some (after - before))
     }
   }"

section \<open>Times\<close>

record timespec =
  tv_sec :: int
  tv_nsec :: int

definition timespec_diff :: "timespec \<Rightarrow> timespec \<Rightarrow> timespec" where
  "timespec_diff start stop =
     (let sec = tv_sec stop - tv_sec start; nsec = tv_nsec stop - tv_nsec start
      in if nsec < 0 then \<lparr>tv_sec = sec - 1, tv_nsec = nsec + 1000000000\<rparr>
         else \<lparr>tv_sec = sec, tv_nsec = nsec\<rparr>)"

definition timespec_from_tick :: "u64 \<Rightarrow> timespec" where
  "timespec_from_tick ns = \<lparr>tv_sec = uint (ns div 1000000000), tv_nsec = uint (ns mod 1000000000)\<rparr>"

section \<open>Laws\<close>

lemma run_on_lib [simp]:
  "run_state (on_lib m) e = (fst (run_state m (ex_lb e)), e\<lparr>ex_lb := snd (run_state m (ex_lb e))\<rparr>)"
  by (simp add: on_lib_def split_beta)

lemma mem_write_read:
  assumes "mem_write mem at src = Some mem'"
  shows "take (length src) (drop at mem') = src" and "length mem' = length mem"
  using assms by (auto simp: mem_write_def split: if_splits)

lemma mem_write_None: "mem_write mem at src = None \<longleftrightarrow> length mem < at + length src"
  by (simp add: mem_write_def)

lemma strict_wrap:
  assumes "rhead < rsize" and "rtail < rhead"
  shows "unat rhead + unat (ring_avail_strict rhead rtail rsize) = unat rsize + unat rtail"
proof -
  from assms have "rtail < rsize" "\<not> rhead < rtail" "unat rtail < unat rhead" "unat rhead < unat rsize"
    by (auto simp: word_less_nat_alt)
  then show ?thesis
    using ring_avail_used [OF assms(1) \<open>rtail < rsize\<close>] used_spec_cases [of "unat rhead" "unat rsize" "unat rtail"] assms(2)
    by (simp add: ring_avail_strict_def ring_avail_def not_le [symmetric])
qed

section \<open>The echo server copies in one piece\<close>

lemma echo_publish_regs:
  assumes "storage_device (cx_dev X) S peek" and "row_storage S row" and "row < 64" and "ii_row info = int row"
    and "run_state (echo_publish X info rtail n ec) lb = (ec', lb')"
  shows "ec_rx_head ec' = rtail" and "ec_nPackets ec' = ec_nPackets ec + 1"
    and "ec_tx_tail ec' = next_tail (ec_tx_tail ec) n (ii_udp_tx_size info)"
    and "reg32 peek lb' R_UDP_RX (ACCNET_UDP_RX_RING_HEAD (int row)) = rtail"
    and "reg32 peek lb' R_UDP_TX (ACCNET_UDP_TX_RING_TAIL (int row)) = ec_tx_tail ec'"
proof -
  note ok = row_storage_regs [OF assms(2,3)]
  note rd = rd32_keeps [OF assms(1)] wr32_same [OF assms(1)] wr32_other [OF assms(1) ok(2,3)]
  show "ec_rx_head ec' = rtail" "ec_nPackets ec' = ec_nPackets ec + 1"
    "ec_tx_tail ec' = next_tail (ec_tx_tail ec) n (ii_udp_tx_size info)"
    "reg32 peek lb' R_UDP_RX (ACCNET_UDP_RX_RING_HEAD (int row)) = rtail"
    "reg32 peek lb' R_UDP_TX (ACCNET_UDP_TX_RING_TAIL (int row)) = ec_tx_tail ec'"
    using assms(5) by (auto simp: echo_publish_def Let_def split_beta assms(4) ok rd)
qed

text \<open>
  Property C25. What the echo server does with a packet. The \<open>n\<close> bytes from the receive head on are
  copied, in one piece, to the transmit tail; then the packet is released by moving the receive
  head to the tail, and sent by moving the transmit tail on by \<open>n\<close> bytes. If either piece does not
  lie inside the mapped memory the copy faults. A packet that wraps around the end of the receive
  ring is read past the end of the ring, by as many bytes as lie at its beginning.
\<close>

theorem echo_packet:
  assumes "storage_device (cx_dev X) S peek" and "row_storage S row" and "row < 64" and "ii_row info = int row"
    and "run_state (wait_rx X info) (ex_lb e) = (0, lb)"
    and "rtail = reg32 peek lb R_UDP_RX (ACCNET_UDP_RX_RING_TAIL (int row))"
    and "mem = rxm (io_hw (lb_drv (snd (run_state (rd32 X R_UDP_RX (ACCNET_UDP_RX_RING_TAIL (int row))) lb))))"
    and "rtail \<noteq> ec_rx_head ec" and "n = ring_avail_strict (ec_rx_head ec) rtail rsize"
    and "run_state (server_body X info rxm rsize ec) e = (res, e')"
  shows "(res = None \<longleftrightarrow> length mem < unat (ec_rx_head ec) + unat n \<or> length (ex_tx e) < unat (ec_tx_tail ec) + unat n)
    \<and> (\<forall>ec'. res = Some ec' \<longrightarrow> ec_rx_head ec' = rtail \<and> ec_nPackets ec' = ec_nPackets ec + 1
         \<and> ec_tx_tail ec' = next_tail (ec_tx_tail ec) n (ii_udp_tx_size info)
         \<and> take (unat n) (drop (unat (ec_tx_tail ec)) (ex_tx e')) = take (unat n) (drop (unat (ec_rx_head ec)) mem)
         \<and> reg32 peek (ex_lb e') R_UDP_RX (ACCNET_UDP_RX_RING_HEAD (int row)) = rtail
         \<and> reg32 peek (ex_lb e') R_UDP_TX (ACCNET_UDP_TX_RING_TAIL (int row)) = ec_tx_tail ec')
    \<and> (ec_rx_head ec < rsize \<and> rtail < ec_rx_head ec \<longrightarrow> unat (ec_rx_head ec) + unat n = unat rsize + unat rtail)"
proof -
  note ok = row_storage_regs [OF assms(2,3)]
  note rd = run_rd32 [OF assms(1)] rd32_keeps [OF assms(1)] wr32_same [OF assms(1)]
  have lb: "snd (run_state (wait_rx X info) (ex_lb e)) = lb" "fst (run_state (wait_rx X info) (ex_lb e)) = 0"
    by (simp_all add: assms(5))
  let ?src = "take (unat n) (drop (unat (ec_rx_head ec)) mem)" and ?h = "unat (ec_rx_head ec)" and ?t = "unat (ec_tx_tail ec)"
  define e1 where "e1 = e\<lparr>ex_lb := snd (run_state (rd32 X R_UDP_RX (ACCNET_UDP_RX_RING_TAIL (int row))) lb)\<rparr>"
  define cp where "cp = run_state (copy_rx_tx rxm (ec_rx_head ec) (ec_tx_tail ec) n) e1"
  have body: "run_state (server_body X info rxm rsize ec) e = (if \<not> fst cp then (None, snd cp)
      else map_prod Some (\<lambda>lb. (snd cp)\<lparr>ex_lb := lb\<rparr>) (run_state (echo_publish X info rtail n ec) (ex_lb (snd cp))))"
    using assms(8) by (simp add: server_body_def Let_def split_beta lb assms(4,6,9) run_rd32 [OF assms(1)] ok e1_def cp_def map_prod_def)
  have cp: "cp = (if length mem < ?h + unat n \<or> length (ex_tx e) < ?t + unat n then (False, e1)
      else (True, e1\<lparr>ex_tx := the (mem_write (ex_tx e) ?t ?src)\<rparr>))"
    by (auto simp: cp_def copy_rx_tx_def copy_tx_def e1_def assms(7) mem_read_def mem_write_def)
  have src: "take (unat n) (drop ?t (the (mem_write (ex_tx e) ?t ?src))) = ?src"
    if "\<not> (length mem < ?h + unat n \<or> length (ex_tx e) < ?t + unat n)"
    using that by (auto simp: mem_write_def)
  obtain ec' lb' where pub: "run_state (echo_publish X info rtail n ec) (ex_lb (snd cp)) = (ec', lb')" by (metis surj_pair)
  note regs = echo_publish_regs [OF assms(1-4) pub]
  show ?thesis
    using assms(10) src regs strict_wrap [of "ec_rx_head ec" rsize rtail] assms(9)
    unfolding body pub by (auto simp: cp split: if_splits)
qed

text \<open>A packet of three bytes has arrived for row 0.\<close>

definition echo_lib :: "(region \<Rightarrow> bytes_at) lib" where
  "echo_lib = on_regs (fold (do_write ram_device)
     [(R_UDP_RX, 4, ACCNET_UDP_RX_RING_TAIL (int 0), 3), (R_IOCACHE, 1, IOCACHE_REG_RX_AVAILABLE (int 0), 1)]) demo_lib"

lemma echo_lib_wait: "run_state (wait_rx demo_ctx zero_info) echo_lib = (0, echo_lib)"
proof -
  let ?h = "io_hw (lb_drv echo_lib)"
  have "reg_val (\<lambda>m (r, a). m r a) ?h R_IOCACHE (IOCACHE_REG_RX_AVAILABLE 0) 1 = 1"
    by (simp add: echo_lib_def on_regs_def on_hw_def ram.reg_val_write_same [of _ _ 1, simplified])
  moreover have "reg_read8 ram_device R_IOCACHE (IOCACHE_REG_RX_AVAILABLE 0) ?h =
      (ucast (reg_val (\<lambda>m (r, a). m r a) ?h R_IOCACHE (IOCACHE_REG_RX_AVAILABLE 0) 1), ?h)"
    by (simp add: reg_read_aligned ioread8_def ram_device_def reg_val_def)
  ultimately show ?thesis
    by (simp add: wait_rx_def iocache_wait_on_rx_def iocache_is_rx_available_def demo_ctx_def zero_info_def on_regs_def on_hw_def)
qed

theorem echo_packet_witness:
  "\<exists>ec' e'. run_state (server_body demo_ctx zero_info (\<lambda>_. [1, 2, 3, 4]) 8192
       \<lparr>ec_rx_head = 0, ec_tx_tail = 4, ec_nPackets = 0, ec_ticks = 0, ec_ticks_2 = 0\<rparr>)
       \<lparr>ex_lb = echo_lib, ex_tx = replicate 16 0\<rparr> = (Some ec', e')
     \<and> take 3 (drop 4 (ex_tx e')) = [1, 2, 3] \<and> ec_nPackets ec' = 1"
proof -
  let ?ec = "\<lparr>ec_rx_head = 0, ec_tx_tail = 4, ec_nPackets = 0, ec_ticks = 0, ec_ticks_2 = 0\<rparr>"
  let ?e = "\<lparr>ex_lb = echo_lib, ex_tx = replicate 16 0\<rparr>"
  obtain res e' where run: "run_state (server_body demo_ctx zero_info (\<lambda>_. [1, 2, 3, 4]) 8192 ?ec) ?e = (res, e')"
    by (metis surj_pair)
  have tail: "reg32 (\<lambda>m (r, a). m r a) echo_lib R_UDP_RX (ACCNET_UDP_RX_RING_TAIL (int 0)) = 3"
    by (simp add: echo_lib_def reg32_def on_regs_def on_hw_def ram.reg_val_write_same ram.reg_val_write_other span_disjoint)
  have n: "ring_avail_strict 0 3 8192 = 3" by (simp add: ring_avail_strict_def)
  have w: "run_state (wait_rx demo_ctx zero_info) (ex_lb ?e) = (0, echo_lib)" by (simp add: echo_lib_wait)
  have "ii_row zero_info = int 0" by (simp add: zero_info_def)
  from echo_packet [OF ring_lib_storage _ this w refl refl _ refl run, unfolded tail]
  have "res \<noteq> None" "res = Some ec' \<longrightarrow> take 3 (drop 4 (ex_tx e')) = [1, 2, 3] \<and> ec_nPackets ec' = 1" for ec'
    by (simp_all add: n)
  with run show ?thesis by auto
qed

section \<open>Loops on a register\<close>

text \<open>The state after \<open>k\<close> reads of a register, and the value that the next read gives.\<close>

definition after_reads :: "'d ctx \<Rightarrow> region \<Rightarrow> u64 \<Rightarrow> nat \<Rightarrow> 'd lib \<Rightarrow> 'd lib" where
  "after_reads X r off k = ((\<lambda>lb. snd (run_state (rd32 X r off) lb)) ^^ k)"

definition nth_read :: "'d ctx \<Rightarrow> region \<Rightarrow> u64 \<Rightarrow> nat \<Rightarrow> 'd lib \<Rightarrow> u32" where
  "nth_read X r off k lb = fst (run_state (rd32 X r off) (after_reads X r off k lb))"

lemma nth_read_Suc: "nth_read X r off (Suc k) lb = nth_read X r off k (snd (run_state (rd32 X r off) lb))"
  "after_reads X r off (Suc k) lb = after_reads X r off k (snd (run_state (rd32 X r off) lb))"
  "nth_read X r off 0 lb = fst (run_state (rd32 X r off) lb)" "after_reads X r off 0 lb = lb"
  by (simp_all add: nth_read_def after_reads_def funpow_Suc_right del: funpow.simps(2))

lemma spin_tx_found:
  "nth_read X R_UDP_TX (ACCNET_UDP_TX_RING_HEAD row) k lb = t \<Longrightarrow> \<exists>lb'. spin_tx X row t lb = Some lb'"
proof (induction k arbitrary: lb)
  case 0
  then show ?case by (subst spin_tx.simps) (simp add: nth_read_Suc split_beta)
next
  case (Suc k)
  then show ?case by (subst spin_tx.simps) (auto simp: nth_read_Suc split_beta)
qed

lemma spin_tx_value:
  assumes "spin_tx X row t lb = Some lb'"
  shows "\<exists>k. nth_read X R_UDP_TX (ACCNET_UDP_TX_RING_HEAD row) k lb = t
    \<and> lb' = after_reads X R_UDP_TX (ACCNET_UDP_TX_RING_HEAD row) (Suc k) lb"
proof (rule spin_tx.raw_induct [where P = "\<lambda>X row t lb lb'. \<exists>k. nth_read X R_UDP_TX (ACCNET_UDP_TX_RING_HEAD row) k lb = t
    \<and> lb' = after_reads X R_UDP_TX (ACCNET_UDP_TX_RING_HEAD row) (Suc k) lb", OF _ assms])
  fix f and X :: "'a ctx" and row t lb lb'
  let ?r = "run_state (rd32 X R_UDP_TX (ACCNET_UDP_TX_RING_HEAD row)) lb"
  assume IH: "\<And>X row t lb lb'. f X row t lb = Some lb' \<Longrightarrow> \<exists>k. nth_read X R_UDP_TX (ACCNET_UDP_TX_RING_HEAD row) k lb = t
      \<and> lb' = after_reads X R_UDP_TX (ACCNET_UDP_TX_RING_HEAD row) (Suc k) lb"
    and eq: "(case ?r of (tx_head, lb) \<Rightarrow> if tx_head \<noteq> t then f X row t lb else Some lb) = Some lb'"
  show "\<exists>k. nth_read X R_UDP_TX (ACCNET_UDP_TX_RING_HEAD row) k lb = t
      \<and> lb' = after_reads X R_UDP_TX (ACCNET_UDP_TX_RING_HEAD row) (Suc k) lb"
  proof (cases "fst ?r = t")
    case True
    with eq show ?thesis by (intro exI [of _ 0]) (simp add: nth_read_Suc split_beta)
  next
    case False
    with eq have "f X row t (snd ?r) = Some lb'" by (simp add: split_beta)
    from IH [OF this] show ?thesis by (metis nth_read_Suc(1,2))
  qed
qed

text \<open>
  Property C27. The wait for the transmit engine in the loopback test ends exactly if the head
  register, read again and again, at some time equals the tail that was published; it does not
  look at the signal flag, so on a stalled engine the program cannot be stopped by it.
\<close>

theorem spin_tx_returns:
  "(\<exists>lb'. spin_tx X row t lb = Some lb') = (\<exists>k. nth_read X R_UDP_TX (ACCNET_UDP_TX_RING_HEAD row) k lb = t)"
  using spin_tx_found spin_tx_value by metis

lemma find_map_eq: "find P (map f xs) = map_option f (find (\<lambda>x. P (f x)) xs)"
  by (induction xs) auto

lemma find_upt_Suc:
  "find P [0..<Suc n] = (if P 0 then Some 0 else map_option Suc (find (\<lambda>k. P (Suc k)) [0..<n]))"
proof -
  have "[0..<Suc n] = 0 # map Suc [0..<n]" by (simp add: map_Suc_upt upt_conv_Cons del: upt_Suc)
  then show ?thesis by (simp add: find_map_eq)
qed


section \<open>Accounting of the receiving server\<close>

text \<open>
  Property C26. The receiving server counts what it consumes. However often it waits and whatever
  arrives, as long as the engine keeps its tail inside the ring and nothing else moves the head,
  the bytes it adds to its total are exactly the distance, around the ring, by which it has
  moved the receive head; it never counts more than the ring can hold in one pass.
\<close>

theorem sink_accounts:
  assumes "storage_device (cx_dev X) S peek" and "reg_ok S R_UDP_RX (ACCNET_UDP_RX_RING_HEAD (ii_row info))"
    and "\<forall>lb. fst (run_state (rd32 X R_UDP_RX (ACCNET_UDP_RX_RING_TAIL (ii_row info))) lb) < rsize"
    and "\<forall>lb. reg32 peek (snd (run_state (wait_rx X info) lb)) R_UDP_RX (ACCNET_UDP_RX_RING_HEAD (ii_row info)) =
      reg32 peek lb R_UDP_RX (ACCNET_UDP_RX_RING_HEAD (ii_row info))"
    and "rhead < rsize" and "reg32 peek lb R_UDP_RX (ACCNET_UDP_RX_RING_HEAD (ii_row info)) = rhead"
    and "run_state (sink_loop n X info rsize rhead st) lb = (st', lb')"
  shows "\<exists>k. rs_total_rx st' = rs_total_rx st + of_nat k
    \<and> unat (reg32 peek lb' R_UDP_RX (ACCNET_UDP_RX_RING_HEAD (ii_row info))) = (unat rhead + k) mod unat rsize
    \<and> k \<le> n * (unat rsize - 1)"
  using assms(5-7)
proof (induction n arbitrary: rhead st lb)
  case 0
  then show ?case by (intro exI [of _ 0]) (auto simp: word_less_nat_alt)
next
  case (Suc n)
  let ?H = "ACCNET_UDP_RX_RING_HEAD (ii_row info)" and ?T = "ACCNET_UDP_RX_RING_TAIL (ii_row info)"
  define w where "w = run_state (wait_rx X info) lb"
  define t where "t = run_state (rd32 X R_UDP_RX ?T) (snd w)"
  have w: "reg32 peek (snd w) R_UDP_RX ?H = rhead" using assms(4) Suc.prems(2) by (simp add: w_def)
  have t: "reg32 peek (snd t) R_UDP_RX ?H = rhead" "fst t < rsize"
    using rd32_keeps [OF assms(1,2)] w assms(3) by (simp_all add: t_def)
  define g where "g = ring_avail rhead (fst t) rsize"
  consider (timeout) "fst w \<noteq> 0" | (none) "fst w = 0" "g = 0" | (got) "fst w = 0" "g \<noteq> 0" by blast
  then show ?case
  proof cases
    case timeout
    then have "run_state (sink_loop n X info rsize rhead st) (snd w) = (st', lb')"
      using Suc.prems(3) by (simp add: split_beta w_def)
    from Suc.IH [OF Suc.prems(1) w this] show ?thesis by (auto intro: trans_le_add2)
  next
    case none
    then have "run_state (sink_loop n X info rsize rhead st) (snd t) = (st', lb')"
      using Suc.prems(3) by (simp add: split_beta w_def t_def g_def Let_def)
    from Suc.IH [OF Suc.prems(1) t(1) this] show ?thesis by (auto intro: trans_le_add2)
  next
    case got
    define p where "p = run_state (wr32 X R_UDP_RX ?H (fst t)) (snd t)"
    define c where "c = run_state (rd64 X R_CTRL ACCNET_CTRL_TIMESTAMP) (snd p)"
    have "reg32 peek (snd c) R_UDP_RX ?H = fst t"
      using wr32_same [OF assms(1,2)] rd32_keeps [OF assms(1,2)] by (simp add: c_def p_def)
    moreover have "run_state (sink_loop n X info rsize (fst t) \<lparr>rs_total_rx = rs_total_rx st + ucast g,
        rs_first_tick = (if rs_first_tick st = 0 then fst c else rs_first_tick st), rs_last_tick = fst c\<rparr>) (snd c) = (st', lb')"
      using Suc.prems(3) got by (simp add: split_beta w_def t_def p_def c_def g_def Let_def cong: if_cong)
    ultimately obtain k where k: "rs_total_rx st' = rs_total_rx st + ucast g + of_nat k"
        "unat (reg32 peek lb' R_UDP_RX ?H) = (unat (fst t) + k) mod unat rsize" "k \<le> n * (unat rsize - 1)"
      using Suc.IH [OF t(2)] by fastforce
    have u: "unat g = used_spec (unat rhead) (unat (fst t)) (unat rsize)"
      unfolding g_def by (rule ring_avail_used [OF Suc.prems(1) t(2)])
    have "unat g < unat rsize"
      unfolding u used_spec_def using t(2) by (intro mod_less_divisor) (simp add: word_less_nat_alt)
    with k(3) have bound: "unat g + k \<le> Suc n * (unat rsize - 1)" by simp
    from u have "(unat rhead + unat g) mod unat rsize = unat (fst t)"
      using used_spec_reaches Suc.prems(1) t(2) by (simp add: word_less_nat_alt)
    then have "(unat (fst t) + k) mod unat rsize = (unat rhead + (unat g + k)) mod unat rsize"
      by (metis add.assoc mod_add_left_eq)
    moreover have "ucast g = (of_nat (unat g) :: u64)" by simp
    ultimately show ?thesis using k(1,2) bound by (intro exI [of _ "unat g + k"]) (simp add: add.assoc)
  qed
qed

text \<open>A device on which a packet of 64 bytes is there: every register but the receive head of row 0 reads 64.\<close>

definition busy_device :: "(region \<Rightarrow> bytes_at) device" where
  "busy_device = ram_device\<lparr>dev_read := (\<lambda>r n off h.
     if n = 0 \<or> r = R_UDP_RX \<and> unat off + n \<le> 4 then dev_read ram_device r n off h else (64, h))\<rparr>"

definition busy_ctx :: "(region \<Rightarrow> bytes_at) ctx" where
  "busy_ctx = demo_ctx\<lparr>cx_dev := busy_device\<rparr>"

lemma busy_regs: "ACCNET_UDP_RX_RING_HEAD 0 = 0" "ACCNET_UDP_RX_RING_TAIL 0 = 4" "ii_row zero_info = 0"
  by (simp_all add: ACCNET_UDP_RX_RING_HEAD_def ACCNET_UDP_RX_RING_TAIL_def ACCNET_UDP_RX_RING_REG_def zero_info_def)

lemma busy_storage: "storage_device busy_device (span R_UDP_RX 0 4) (\<lambda>m (r, a). m r a)"
proof (unfold_locales, goal_cases)
  case (1 r off n h)
  then have "n = 0 \<or> r = R_UDP_RX \<and> unat off + n \<le> 4"
    by (auto simp: span_def Times_subset_cancel2 times_subset_iff)
  then show ?case by (auto simp: busy_device_def ram_device_def reg_val_def)
next
  case (2 x r n off h)
  then show ?case by (auto simp: busy_device_def ram_device_def)
next
  case (3 r off n x v h)
  then show ?case by (cases x) (auto simp: busy_device_def ram_device_def le_put_def)
qed

theorem sink_accounts_witness:
  "\<exists>k. rs_total_rx (fst (run_state (sink_loop 5 busy_ctx zero_info 8192 0 \<lparr>rs_total_rx = 7, rs_first_tick = 0, rs_last_tick = 0\<rparr>)
       demo_lib)) = 7 + of_nat k
     \<and> unat (reg32 (\<lambda>m (r, a). m r a) (snd (run_state (sink_loop 5 busy_ctx zero_info 8192 0
         \<lparr>rs_total_rx = 7, rs_first_tick = 0, rs_last_tick = 0\<rparr>) demo_lib)) R_UDP_RX 0) = k mod 8192 \<and> k \<le> 40955"
proof -
  have st: "storage_device (cx_dev busy_ctx) (span R_UDP_RX 0 4) (\<lambda>m (r, a). m r a)"
    using busy_storage by (simp add: busy_ctx_def)
  have tail: "\<forall>lb. fst (run_state (rd32 busy_ctx R_UDP_RX 4) lb) < 8192"
    by (simp add: rd32_def busy_ctx_def busy_device_def reg_read32_def ioread32_def split_beta)
  have keep: "\<forall>lb. reg32 (\<lambda>m (r, a). m r a) (snd (run_state (wait_rx busy_ctx zero_info) lb)) R_UDP_RX 0 =
      reg32 (\<lambda>m (r, a). m r a) lb R_UDP_RX 0"
    by (simp add: wait_rx_def iocache_wait_on_rx_def iocache_is_rx_available_def busy_ctx_def busy_device_def reg_read8_def
        ioread8_def on_regs_def on_hw_def reg32_def)
  have zero: "reg32 (\<lambda>m (r, a). m r a) demo_lib R_UDP_RX 0 = 0"
    by (simp add: reg32_def demo_lib_def reg_val_def le_get_numeral rings_done_def zero_iocache_def)
  obtain st' lb' where run: "run_state (sink_loop 5 busy_ctx zero_info 8192 0
      \<lparr>rs_total_rx = 7, rs_first_tick = 0, rs_last_tick = 0\<rparr>) demo_lib = (st', lb')" by (metis surj_pair)
  have ok: "reg_ok (span R_UDP_RX 0 4) R_UDP_RX 0" by (simp add: reg_ok_def)
  show ?thesis
    using sink_accounts [OF st, of zero_info, unfolded busy_regs, OF ok tail keep _ zero run] run by simp
qed

section \<open>Times\<close>

lemma div_mod_diff:
  fixes c A B :: int
  assumes "0 < c"
  shows "(B - A) div c = B div c - A div c - (if B mod c < A mod c then 1 else 0)"
    and "(B - A) mod c = B mod c - A mod c + (if B mod c < A mod c then c else 0)"
proof -
  let ?k = "if B mod c < A mod c then 1 else 0 :: int"
  have "B - A = (B div c * c + B mod c) - (A div c * c + A mod c)" by simp
  also have "\<dots> = c * (B div c - A div c - ?k) + (B mod c - A mod c + ?k * c)" by (simp add: algebra_simps)
  finally have e: "B - A = c * (B div c - A div c - ?k) + (B mod c - A mod c + ?k * c)" .
  have b: "B mod c < c" "0 \<le> B mod c" "A mod c < c" "0 \<le> A mod c" using assms by simp_all
  have r: "0 \<le> B mod c - A mod c + ?k * c" "B mod c - A mod c + ?k * c < c"
    using b by (cases "B mod c < A mod c"; simp only: if_True if_False mult_1_left mult_zero_left add_0_right; linarith)+
  show "(B - A) div c = B div c - A div c - ?k" by (rule int_div_pos_eq [OF e r])
  have "(B - A) mod c = B mod c - A mod c + ?k * c" by (rule int_mod_pos_eq [OF e r])
  then show "(B - A) mod c = B mod c - A mod c + (if B mod c < A mod c then c else 0)" by simp
qed

text \<open>
  Differences of times are exact: for two tick counts in order, subtracting them as
  seconds and nanoseconds gives what the difference of the counts gives, with the nanoseconds below
  one second.
\<close>

lemma timespec_diff_from_tick:
  assumes "a \<le> b"
  shows "timespec_diff (timespec_from_tick a) (timespec_from_tick b) = timespec_from_tick (b - a)
    \<and> tv_nsec (timespec_from_tick (b - a)) < 1000000000"
proof -
  let ?c = "1000000000 :: int"
  have "uint (b - a) = uint b - uint a" using assms by (simp add: word_le_def uint_sub_lem)
  then have "timespec_diff (timespec_from_tick a) (timespec_from_tick b) = timespec_from_tick (b - a)"
    by (simp add: timespec_diff_def timespec_from_tick_def Let_def uint_div uint_mod div_mod_diff [of ?c "uint b" "uint a"])
  moreover have "tv_nsec (timespec_from_tick (b - a)) < 1000000000"
    by (simp add: timespec_from_tick_def uint_mod)
  ultimately show ?thesis ..
qed

lemma timespec_diff_from_tick_witness:
  "timespec_diff (timespec_from_tick 1900000000) (timespec_from_tick 3000000000) = \<lparr>tv_sec = 1, tv_nsec = 100000000\<rparr>"
  using timespec_diff_from_tick [of 1900000000 3000000000] by (simp add: timespec_from_tick_def)

end
