(* ===== verification/Udp_Main.thy ===== *)
theory Udp_Main
  imports Udp_Exp
begin

text \<open>
  The main program of udp_exp.c: the command line, the reset of the table, the statistics of the
  client, and the run from opening the two libraries to closing them.
\<close>

section \<open>Numbers on the command line\<close>

text \<open>\<open>atoll\<close> stops at the first character that is not a digit and saturates; \<open>atoi\<close> cuts the result to \<open>int\<close>.\<close>

definition is_digit :: "char \<Rightarrow> bool" where
  "is_digit c \<longleftrightarrow> (let n = of_char c :: nat in 48 \<le> n \<and> n \<le> 57)"

definition dec_value :: "string \<Rightarrow> int" where
  "dec_value s = foldl (\<lambda>a c. 10 * a + (of_char c - 48)) 0 (takeWhile is_digit s)"

definition atoll :: "string \<Rightarrow> int" where
  "atoll s =
     (let v = (case dropWhile is_space s of
                 [] \<Rightarrow> 0
               | c # r \<Rightarrow> if c = CHR ''-'' then - dec_value r else if c = CHR ''+'' then dec_value r else dec_value (c # r))
      in max (- (2 ^ 63)) (min (2 ^ 63 - 1) v))"

definition atoi :: "string \<Rightarrow> int" where
  "atoi s = int32 (atoll s)"

section \<open>Options\<close>

record opts =
  op_cpu :: int
  op_n_tests :: int
  op_debug :: bool
  op_skip_first :: bool
  op_skip_file :: bool
  op_reset :: bool
  op_print_all :: bool
  op_payload_size :: u32
  op_src_ip :: string
  op_src_mac :: string
  op_src_port :: u16
  op_dst_ip :: string
  op_dst_mac :: string
  op_dst_port :: u16
  op_client_id :: u16
  op_mode :: string
  op_ring :: int
  op_target_bytes :: u64

definition default_opts :: opts where
  "default_opts = \<lparr>op_cpu = 0, op_n_tests = 64, op_debug = False, op_skip_first = False, op_skip_file = False,
     op_reset = False, op_print_all = False, op_payload_size = 1 * 1024, op_src_ip = ''10.0.0.2'',
     op_src_mac = ''0c:42:a1:a8:2d:e6'', op_src_port = 1111, op_dst_ip = ''10.0.0.1'',
     op_dst_mac = ''00:0a:35:06:4d:e2'', op_dst_port = 1234, op_client_id = 0, op_mode = ''poll'', op_ring = 0,
     op_target_bytes = 1 * 1024 * 1024\<rparr>"

definition modes :: "string list" where
  "modes = [''poll'', ''block'', ''server'', ''loop'', ''sink'']"

text \<open>The loop over the arguments; \<open>Inl\<close> is the value that \<open>main\<close> returns at once.\<close>

fun parse_args :: "opts \<Rightarrow> string list \<Rightarrow> int + opts" where
  "parse_args p [] = Inr p"
| "parse_args p (a # rest) =
     (if a = ''--help'' then Inl 0
      else if a = ''--bytes'' \<and> rest \<noteq> [] then
        (let v = atoll (hd rest)
         in if v \<le> 0 then Inl (- 1) else parse_args (p\<lparr>op_target_bytes := word_of_int v\<rparr>) (tl rest))
      else if a = ''--cpu'' \<and> rest \<noteq> [] then parse_args (p\<lparr>op_cpu := atoi (hd rest)\<rparr>) (tl rest)
      else if a = ''--client-id'' \<and> rest \<noteq> [] then
        parse_args (p\<lparr>op_client_id := word_of_int (atoi (hd rest))\<rparr>) (tl rest)
      else if a = ''--ring'' \<and> rest \<noteq> [] then parse_args (p\<lparr>op_ring := atoi (hd rest)\<rparr>) (tl rest)
      else if a = ''--ntest'' \<and> rest \<noteq> [] then parse_args (p\<lparr>op_n_tests := atoi (hd rest)\<rparr>) (tl rest)
      else if a = ''--mode'' \<and> rest \<noteq> [] then
        (if hd rest \<in> set modes then parse_args (p\<lparr>op_mode := hd rest\<rparr>) (tl rest) else Inl (- 1))
      else if a = ''--payload-size'' \<and> rest \<noteq> [] then
        (let val = atoi (hd rest)
         in if val \<le> 0 \<or> val mod 64 \<noteq> 0 then Inl (- 1)
            else parse_args (p\<lparr>op_payload_size := word_of_int val\<rparr>) (tl rest))
      else if a = ''--src-mac'' \<and> rest \<noteq> [] then parse_args (p\<lparr>op_src_mac := hd rest\<rparr>) (tl rest)
      else if a = ''--src-ip'' \<and> rest \<noteq> [] then parse_args (p\<lparr>op_src_ip := hd rest\<rparr>) (tl rest)
      else if a = ''--src-port'' \<and> rest \<noteq> [] then
        parse_args (p\<lparr>op_src_port := word_of_int (atoi (hd rest))\<rparr>) (tl rest)
      else if a = ''--dst-mac'' \<and> rest \<noteq> [] then parse_args (p\<lparr>op_dst_mac := hd rest\<rparr>) (tl rest)
      else if a = ''--dst-ip'' \<and> rest \<noteq> [] then parse_args (p\<lparr>op_dst_ip := hd rest\<rparr>) (tl rest)
      else if a = ''--dst-port'' \<and> rest \<noteq> [] then
        parse_args (p\<lparr>op_dst_port := word_of_int (atoi (hd rest))\<rparr>) (tl rest)
      else if a = ''--debug'' then parse_args (p\<lparr>op_debug := True\<rparr>) rest
      else if a = ''--skip-first'' then parse_args (p\<lparr>op_skip_first := True\<rparr>) rest
      else if a = ''--skip-file'' then parse_args (p\<lparr>op_skip_file := True\<rparr>) rest
      else if a = ''--reset'' then parse_args (p\<lparr>op_reset := True\<rparr>) rest
      else if a = ''--print-all'' then parse_args (p\<lparr>op_print_all := True\<rparr>) rest
      else Inl 1)"

declare parse_args.simps(2) [simp del]

text \<open>False is the \<open>exit(1)\<close>; the number of processors is a parameter.\<close>

definition pin_to_cpu :: "int \<Rightarrow> int \<Rightarrow> bool" where
  "pin_to_cpu ncpu cpu \<longleftrightarrow> \<not> (cpu < 0 \<or> cpu \<ge> ncpu)"

section \<open>Reset of the table\<close>

definition reset_row :: "'d device \<Rightarrow> nat \<Rightarrow> 'd \<Rightarrow> 'd" where
  "reset_row D i h =
     (let h = reg_write32 D R_IOCACHE (IOCACHE_REG_PROC_PTR (int i)) 0 h;
          h = reg_write32 D R_IOCACHE (IOCACHE_REG_ENABLED (int i)) 0 h;
          h = reg_write32 D R_IOCACHE (IOCACHE_REG_RX_SUSPENDED (int i)) 0 h;
          h = reg_write32 D R_IOCACHE (IOCACHE_REG_RX_RING_SIZE (int i)) 0 h;
          h = reg_write32 D R_IOCACHE (IOCACHE_REG_TX_RING_SIZE (int i)) 0 h;
          h = reg_write32 D R_IOCACHE (IOCACHE_REG_RX_RING_ADDR (int i)) 0 h
      in reg_write32 D R_IOCACHE (IOCACHE_REG_TX_RING_ADDR (int i)) 0 h)"

definition reset_rows :: "'d device \<Rightarrow> 'd \<Rightarrow> 'd" where
  "reset_rows D h = fold (reset_row D) [0..<IOCACHE_CACHE_ENTRY_COUNT] h"

section \<open>Statistics of the client\<close>

record stats =
  st_sum_ticks :: int
  st_min_ticks :: int
  st_max_ticks :: int
  st_rtts :: "int list"
  st_sum_network :: u64
  st_network :: "int list"
  st_received_ok :: int
  st_received_total :: int

definition zero_stats :: "nat \<Rightarrow> stats" where
  "zero_stats n = \<lparr>st_sum_ticks = 0, st_min_ticks = 0, st_max_ticks = 0, st_rtts = replicate n 0, st_sum_network = 0,
     st_network = replicate n 0, st_received_ok = 0, st_received_total = 0\<rparr>"

text \<open>The ticks are unsigned and the sums \<open>long long\<close>; the comparisons are unsigned.\<close>

definition record_diff :: "nat \<Rightarrow> u64 \<Rightarrow> u64 \<Rightarrow> stats \<Rightarrow> stats" where
  "record_diff i diff netdelay st =
     (let st = (if i = 0 \<or> st_min_ticks st = 0 then st\<lparr>st_min_ticks := sint diff, st_max_ticks := sint diff\<rparr>
                else
                  (let st = (if diff < word_of_int (st_min_ticks st) then st\<lparr>st_min_ticks := sint diff\<rparr> else st)
                   in if diff > word_of_int (st_max_ticks st) then st\<lparr>st_max_ticks := sint diff\<rparr> else st))
      in st\<lparr>st_sum_ticks := sint (word_of_int (st_sum_ticks st) + diff), st_rtts := (st_rtts st)[i := sint diff],
            st_sum_network := st_sum_network st + netdelay, st_network := (st_network st)[i := sint netdelay],
            st_received_ok := st_received_ok st + 1\<rparr>)"

text \<open>One measurement in the mode of the client; the flag tests that are left, and None for a fault.\<close>

definition measure_once :: "nat \<Rightarrow> 'd ctx \<Rightarrow> iocache_info \<Rightarrow> opts \<Rightarrow> u8 list \<Rightarrow> ('d exp, nat \<times> u64 option) state" where
  "measure_once n X info p payload =
     (if op_mode p = ''poll'' then test_udp_latency_poll n X info payload (op_payload_size p)
      else if op_mode p = ''block'' then do {
        diff \<leftarrow> test_udp_latency_block X info payload (op_payload_size p);
        State_Monad.return (n, diff)
      } else State_Monad.return (n, Some 0))"

primrec client_loop ::
    "nat list \<Rightarrow> nat \<Rightarrow> 'd ctx \<Rightarrow> iocache_info \<Rightarrow> opts \<Rightarrow> u8 list \<Rightarrow> stats \<Rightarrow> ('d exp, stats option) state" where
  "client_loop [] n X info p payload st = State_Monad.return (Some st)"
| "client_loop (i # is) n X info p payload st =
     (case n of
        0 \<Rightarrow> State_Monad.return (Some st)
      | Suc n \<Rightarrow> do {
          (n, res) \<leftarrow> measure_once n X info p payload;
          case res of
            None \<Rightarrow> State_Monad.return None
          | Some diff \<Rightarrow>
              if diff = 0 then client_loop is n X info p payload st
              else do {
                let st = st\<lparr>st_received_total := st_received_total st + 1\<rparr>;
                if i = 0 \<and> op_skip_first p then client_loop is n X info p payload st
                else do {
                  netdelay \<leftarrow> on_lib (State (\<lambda>lb. case accnet_get_outside_ticks (cx_dev X) (ii_row info) (io_hw (lb_drv lb)) of
                      (v, h) \<Rightarrow> (v, on_regs (\<lambda>_. h) lb)));
                  client_loop is n X info p payload (record_diff i diff netdelay st)
                }
              }
        })"

section \<open>The run\<close>

text \<open>Both libraries work on one machine: the hardware is that of the IOCache state, and the NIC sees the same.\<close>

record 'd world =
  wo_ex :: "'d exp"
  wo_al :: "'d alib"

definition on_accnet :: "('d alib \<Rightarrow> 'a \<times> 'd alib) \<Rightarrow> 'd world \<Rightarrow> 'a \<times> 'd world" where
  "on_accnet f w =
     (case f (on_nic (\<lambda>_. io_hw (lb_drv (ex_lb (wo_ex w)))) (wo_al w)) of (v, al) \<Rightarrow>
        (v, w\<lparr>wo_al := al, wo_ex := (wo_ex w)\<lparr>ex_lb := on_regs (\<lambda>_. hw (al_nic al)) (ex_lb (wo_ex w))\<rparr>\<rparr>))"

definition on_iocache :: "('d lib \<Rightarrow> 'a \<times> 'd lib) \<Rightarrow> 'd world \<Rightarrow> 'a \<times> 'd world" where
  "on_iocache f w =
     (case f (ex_lb (wo_ex w)) of (v, lb) \<Rightarrow> (v, w\<lparr>wo_ex := (wo_ex w)\<lparr>ex_lb := lb\<rparr>\<rparr>))"

text \<open>What the operating system and the C library answer.\<close>

record main_env =
  me_ncpu :: int
  me_calloc :: "int \<Rightarrow> bool"
  me_io :: lib_env
  me_acc :: lib_env
  me_pton :: "string \<Rightarrow> u32 option"
  me_conn :: connection_info       \<comment> \<open>what \<open>malloc\<close> left in the structure\<close>

datatype exit_status = Exit int | Crashed | Stuck

definition make_payload :: "u32 \<Rightarrow> u8 list" where
  "make_payload payload_size = map of_nat [0..<unat payload_size]"

definition run_mode :: "nat \<Rightarrow> 'd ctx \<Rightarrow> iocache_info \<Rightarrow> ('d \<Rightarrow> u8 list) \<Rightarrow> opts \<Rightarrow> 'd exp \<Rightarrow> exit_status + 'd exp" where
  "run_mode n X info rxm p e =
     (if op_mode p = ''loop'' then
        (case test_loopback_throughput_local n X info (op_payload_size p) (op_target_bytes p) (ex_lb e) of
           None \<Rightarrow> Inl Stuck
         | Some (ticks, bytes, lb) \<Rightarrow> Inr (e\<lparr>ex_lb := lb\<rparr>))
      else if op_mode p = ''server'' then
        (case run_state (test_udp_server_block n X info rxm) e of
           (Server_fault, e) \<Rightarrow> Inl Crashed
         | (_, e) \<Rightarrow> Inr e)
      else if op_mode p = ''sink'' then Inr (snd (run_state (on_lib (test_udp_server_throughput n X info)) e))
      else
        (case run_state (client_loop [0..<nat (op_n_tests p)] n X info p (make_payload (op_payload_size p))
                 (zero_stats (nat (op_n_tests p)))) e of
           (None, e) \<Rightarrow> Inl Crashed
         | (Some st, e) \<Rightarrow> Inr e))"

definition close_all :: "'d ctx \<Rightarrow> iocache_info \<Rightarrow> accnet_info \<Rightarrow> 'd world \<Rightarrow> 'd world" where
  "close_all X info ainfo w =
     (let w = snd (on_accnet (\<lambda>al. accnet_close al ainfo) w)
      in snd (on_iocache (\<lambda>lb. iocache_close X lb (Some info)) w))"

definition udp_main ::
    "nat \<Rightarrow> main_env \<Rightarrow> 'd ctx \<Rightarrow> ('d \<Rightarrow> u8 list) \<Rightarrow> string list \<Rightarrow> iocache_info \<Rightarrow> accnet_info \<Rightarrow> 'd world
      \<Rightarrow> exit_status \<times> 'd world" where
  "udp_main n ME X rxm argv info0 ainfo0 w =
     (case parse_args default_opts argv of
        Inl r \<Rightarrow> (Exit r, w)
      | Inr p \<Rightarrow>
        if \<not> pin_to_cpu (me_ncpu ME) (op_cpu p) then (Exit 1, w)
        else if \<not> me_calloc ME (op_n_tests p) then (Exit 1, w)
        else
        (case on_iocache (\<lambda>lb. case iocache_open X (me_io ME) ''/dev/iocache-misc'' (op_ring p) lb info0 of
                (r, lb, info) \<Rightarrow> ((r, info), lb)) w of
           ((r, info), w) \<Rightarrow>
           if r < 0 then (Exit 1, w)
           else
           (case on_accnet (\<lambda>al. case accnet_open (cx_dev X) (me_acc ME) ''/dev/accnet-misc'' (Some info) True al ainfo0 of
                   (r, al, ainfo) \<Rightarrow> ((r, ainfo), al)) w of
              ((None, ainfo), w) \<Rightarrow> (Exit 0, w)
            | ((Some r, ainfo), w) \<Rightarrow>
              if r < 0 then (Exit 1, w)
              else if op_reset p then
                (Exit 0, close_all X info ainfo (snd (on_iocache (\<lambda>lb. ((), on_regs (reset_rows (cx_dev X)) lb)) w)))
              else
              (case conn_from_strings_mac (me_pton ME) (Some (me_conn ME)) 0x11 (Some (op_src_mac p)) (Some (op_src_ip p))
                      (op_src_port p) (Some (op_dst_mac p)) (Some (op_dst_ip p)) (op_dst_port p) of
                 (r, None) \<Rightarrow> (Exit 1, w)
               | (r, Some conn) \<Rightarrow>
                 if r \<noteq> 0 then (Exit 1, w)
                 else
                 (let w = snd (on_accnet (\<lambda>al. ((), the (snd (accnet_setup_connection (cx_dev X) conn (Some al))))) w);
                      w = snd (on_iocache (\<lambda>lb. ((), iocache_setup_connection X info conn lb)) w)
                  in case run_mode n X info rxm p (wo_ex w) of
                    Inl s \<Rightarrow> (s, w)
                  | Inr e \<Rightarrow>
                      (let w = w\<lparr>wo_ex := e\<rparr>;
                           w = snd (on_iocache (\<lambda>lb. ((), iocache_clear_connection X info lb)) w)
                       in (Exit 0, close_all X info ainfo w)))))))"

section \<open>Properties of the command line\<close>

text \<open>What a valid set of options satisfies.\<close>

definition opts_ok :: "opts \<Rightarrow> bool" where
  "opts_ok p \<longleftrightarrow> op_mode p \<in> set modes \<and> 0 < unat (op_payload_size p) \<and> unat (op_payload_size p) < 2 ^ 31
     \<and> 64 dvd unat (op_payload_size p) \<and> 0 < uint (op_target_bytes p) \<and> uint (op_target_bytes p) < 2 ^ 63"

lemma int32_range: "- (2 ^ 31) \<le> int32 i" "int32 i < 2 ^ 31"
  using sint_ge [of "word_of_int i :: u32"] sint_lt [of "word_of_int i :: u32"] by (simp_all add: int32_def)

lemma payload_ok:
  assumes "0 < v" and "v mod 64 = 0" and "v < 2 ^ 31"
  shows "0 < unat (word_of_int v :: u32)" and "unat (word_of_int v :: u32) < 2 ^ 31"
    and "64 dvd unat (word_of_int v :: u32)"
proof -
  have u: "unat (word_of_int v :: u32) = nat v"
    using assms by (simp add: unat_eq_nat_uint uint_word_of_int_eq take_bit_int_eq_self)
  show "0 < unat (word_of_int v :: u32)" "unat (word_of_int v :: u32) < 2 ^ 31"
    unfolding u using assms by simp_all
  have "64 dvd v" using assms(2) by (rule mod_0_imp_dvd)
  then show "64 dvd unat (word_of_int v :: u32)"
    unfolding u using assms(1) by (elim dvdE) (simp add: nat_mult_distrib)
qed

lemma bytes_ok:
  assumes "0 < atoll a"
  shows "uint (word_of_int (atoll a) :: u64) = atoll a" and "atoll a < 2 ^ 63"
proof -
  have "atoll a < 2 ^ 63" by (simp add: atoll_def Let_def)
  then show "uint (word_of_int (atoll a) :: u64) = atoll a" "atoll a < 2 ^ 63"
    using assms by (simp_all add: uint_word_of_int_eq take_bit_int_eq_self)
qed

definition parsed_ok :: "int + opts \<Rightarrow> bool" where
  "parsed_ok r \<longleftrightarrow> (case r of Inl v \<Rightarrow> v = 0 \<or> v = 1 \<or> v = - 1 | Inr p \<Rightarrow> opts_ok p)"

lemma opts_ok_update [simp]:
  "opts_ok (p\<lparr>op_cpu := c\<rparr>) = opts_ok p" "opts_ok (p\<lparr>op_n_tests := c\<rparr>) = opts_ok p"
  "opts_ok (p\<lparr>op_debug := b\<rparr>) = opts_ok p" "opts_ok (p\<lparr>op_skip_first := b\<rparr>) = opts_ok p"
  "opts_ok (p\<lparr>op_skip_file := b\<rparr>) = opts_ok p" "opts_ok (p\<lparr>op_reset := b\<rparr>) = opts_ok p"
  "opts_ok (p\<lparr>op_print_all := b\<rparr>) = opts_ok p" "opts_ok (p\<lparr>op_src_ip := s\<rparr>) = opts_ok p"
  "opts_ok (p\<lparr>op_src_mac := s\<rparr>) = opts_ok p" "opts_ok (p\<lparr>op_src_port := w\<rparr>) = opts_ok p"
  "opts_ok (p\<lparr>op_dst_ip := s\<rparr>) = opts_ok p" "opts_ok (p\<lparr>op_dst_mac := s\<rparr>) = opts_ok p"
  "opts_ok (p\<lparr>op_dst_port := w\<rparr>) = opts_ok p" "opts_ok (p\<lparr>op_client_id := w\<rparr>) = opts_ok p"
  "opts_ok (p\<lparr>op_ring := c\<rparr>) = opts_ok p"
  by (simp_all add: opts_ok_def)

lemma opts_ok_checked:
  "opts_ok p \<Longrightarrow> \<not> atoll a \<le> 0 \<Longrightarrow> opts_ok (p\<lparr>op_target_bytes := word_of_int (atoll a)\<rparr>)"
  "opts_ok p \<Longrightarrow> a \<in> set modes \<Longrightarrow> opts_ok (p\<lparr>op_mode := a\<rparr>)"
  "opts_ok p \<Longrightarrow> \<not> (atoi a \<le> 0 \<or> atoi a mod 64 \<noteq> 0) \<Longrightarrow> opts_ok (p\<lparr>op_payload_size := word_of_int (atoi a)\<rparr>)"
  using bytes_ok [of a] payload_ok [of "atoi a"] int32_range(2) [of "atoll a"]
  by (auto simp: opts_ok_def atoi_def)

lemma parse_args_ok: "opts_ok p \<Longrightarrow> parsed_ok (parse_args p argv)"
proof (induction argv arbitrary: p rule: length_induct)
  case (1 argv)
  show ?case
  proof (cases argv)
    case Nil
    with 1 show ?thesis by (simp add: parsed_ok_def)
  next
    case (Cons a rest)
    have stop: "parsed_ok (Inl 0)" "parsed_ok (Inl 1)" "parsed_ok (Inl (- 1))" by (simp_all add: parsed_ok_def)
    have go: "parsed_ok (parse_args q rest)" "parsed_ok (parse_args q (tl rest))" if "opts_ok q" for q
      using 1 that Cons by simp_all
    show ?thesis
      using 1(2) unfolding Cons parse_args.simps(2) Let_def
      by (simp add: stop go opts_ok_checked del: One_nat_def)
  qed
qed

text \<open>
  Property C30. The command line is checked. Whatever the arguments, either the program returns at
  once, with 0 for the help text, 1 for an unknown argument or one without its value, or -1 for a
  bad value; or the options satisfy what the tests rely on: a known mode, a payload that is a
  positive multiple of 64 bytes, a positive number of bytes to transfer.
\<close>

theorem parse_args_checked:
  "(case parse_args default_opts argv of Inl r \<Rightarrow> r = 0 \<or> r = 1 \<or> r = - 1 | Inr p \<Rightarrow> opts_ok p)"
proof -
  have "opts_ok default_opts" by (simp add: opts_ok_def default_opts_def modes_def)
  then show ?thesis using parse_args_ok by (simp add: parsed_ok_def)
qed

section \<open>Properties of the reset\<close>

definition reset_fields :: "(u64 \<times> nat \<times> u64) list" where
  "reset_fields = [(0x60, 4, 0), (0x00, 4, 0), (0x38, 4, 0), (0x78, 4, 0), (0x88, 4, 0), (0x70, 4, 0), (0x80, 4, 0)]"

lemma reset_row_writes:
  assumes "i < 64"
  shows "reset_row D i h = fold (do_write D) (row_writes i reset_fields) h"
proof -
  have al: "4 dvd unat (IOCACHE_REG (int i) 0x60)" "4 dvd unat (IOCACHE_REG (int i) 0)" "4 dvd unat (IOCACHE_REG (int i) 0x38)"
      "4 dvd unat (IOCACHE_REG (int i) 0x78)" "4 dvd unat (IOCACHE_REG (int i) 0x88)" "4 dvd unat (IOCACHE_REG (int i) 0x70)"
      "4 dvd unat (IOCACHE_REG (int i) 0x80)"
    by (rule row_reg_aligned [OF assms]; simp)+
  show ?thesis
    using al by (simp add: reset_row_def Let_def reg_offsets reg_write_aligned iowrite32_def row_writes_def reset_fields_def)
qed

lemma reset_others:
  assumes "storage_device D iocache_storage peek" and "i < 64" and "0 < k"
    and "unat b + k \<le> 0x30 \<or> 0x60 \<le> unat b \<and> unat b + k \<le> 0x90"
  shows "\<forall>q\<in>set qs. q < 64 \<and> q \<noteq> i \<Longrightarrow> reg_val peek (fold (reset_row D) qs h) R_IOCACHE (IOCACHE_REG (int i) b) k =
    reg_val peek h R_IOCACHE (IOCACHE_REG (int i) b) k"
proof (induction qs arbitrary: h)
  case (Cons q qs)
  then have q: "q < 64" "i \<noteq> q" by auto
  have "list_all (\<lambda>(off, n, v). field_ok off n) reset_fields" by (simp add: reset_fields_def field_ok_def)
  from row_writes_other [OF assms(1) q(1) assms(2) q(2) this assms(3,4)] Cons show ?case
    by (simp add: reset_row_writes [OF q(1)])
qed simp

lemma reset_upper_halves:
  assumes "storage_device D iocache_storage peek" and "i < 64" and "b = 0x64 \<or> b = 0x74"
  shows "reg_val peek (fold (do_write D) (row_writes i reset_fields) g) R_IOCACHE (IOCACHE_REG (int i) b) 4 =
    reg_val peek g R_IOCACHE (IOCACHE_REG (int i) b) 4"
proof (rule storage_device.reg_val_writes_other [OF assms(1)])
  show "span R_IOCACHE (IOCACHE_REG (int i) b) 4 \<subseteq> iocache_storage"
    using assms(2,3) by (intro span_row_storage) auto
  have "wr_in iocache_storage (R_IOCACHE, n, IOCACHE_REG (int i) off, v)
      \<and> apart (R_IOCACHE, n, IOCACHE_REG (int i) off, v) R_IOCACHE (IOCACHE_REG (int i) b) 4"
    if "(off, n, v) \<in> set reset_fields" for off n v
  proof
    show "wr_in iocache_storage (R_IOCACHE, n, IOCACHE_REG (int i) off, v)"
      using that assms(2) by (intro field_wr_in) (auto simp: reset_fields_def field_ok_def)
    show "apart (R_IOCACHE, n, IOCACHE_REG (int i) off, v) R_IOCACHE (IOCACHE_REG (int i) b) 4"
      using that assms(2,3) by (intro rows_apart) (auto simp: reset_fields_def)
  qed
  then show "\<forall>w\<in>set (row_writes i reset_fields). wr_in iocache_storage w \<and> apart w R_IOCACHE (IOCACHE_REG (int i) b) 4"
    by (auto simp: row_writes_def)
qed



end
