(* ===== verification/Udp_Stats.thy ===== *)
theory Udp_Stats
  imports Udp_Main
begin

text \<open>
  The statistics of the client of udp_exp.c, against the array of round trips that it records: sum,
  minimum, maximum and number are those of the entries that are not 0.
\<close>

section \<open>Summaries of an array\<close>

definition measured :: "int list \<Rightarrow> int list" where
  "measured rs = filter (\<lambda>r. r \<noteq> 0) rs"

definition summary :: "stats \<Rightarrow> bool" where
  "summary st \<longleftrightarrow> (let ms = measured (st_rtts st) in
     st_sum_ticks st = sum_list ms \<and> st_received_ok st = int (length ms)
     \<and> st_min_ticks st = (if ms = [] then 0 else Min (set ms))
     \<and> st_max_ticks st = (if ms = [] then 0 else Max (set ms)))"

text \<open>No time is negative as a \<open>long long\<close>, and neither is their sum.\<close>

definition in_range :: "int list \<Rightarrow> bool" where
  "in_range rs \<longleftrightarrow> (\<forall>r \<in> set rs. 0 \<le> r) \<and> sum_list rs < 2 ^ 63"

lemma sum_list_measured: "sum_list (measured rs) = sum_list rs"
  unfolding measured_def by (induction rs) auto

lemma measured_update:
  assumes "i < length rs" and "rs ! i = 0" and "v \<noteq> 0"
  shows "sum_list (rs[i := v]) = sum_list rs + v"
    and "length (measured (rs[i := v])) = Suc (length (measured rs))"
    and "set (measured (rs[i := v])) = insert v (set (measured rs))"
proof -
  have rs: "rs = take i rs @ 0 # drop (Suc i) rs" using assms(1,2) by (metis id_take_nth_drop)
  have up: "rs[i := v] = take i rs @ v # drop (Suc i) rs" using assms(1) by (rule upd_conv_take_nth_drop)
  have "sum_list rs = sum_list (take i rs @ 0 # drop (Suc i) rs)" using rs by simp
  then show "sum_list (rs[i := v]) = sum_list rs + v" unfolding up by simp
  have m: "measured rs = measured (take i rs) @ measured (drop (Suc i) rs)"
    by (subst rs) (simp add: measured_def)
  have mu: "measured (rs[i := v]) = measured (take i rs) @ v # measured (drop (Suc i) rs)"
    unfolding up using assms(3) by (simp add: measured_def)
  show "length (measured (rs[i := v])) = Suc (length (measured rs))" unfolding m mu by simp
  show "set (measured (rs[i := v])) = insert v (set (measured rs))" unfolding m mu by simp
qed

lemma sint_small:
  assumes "0 \<le> k" and "k < 2 ^ 63"
  shows "sint (word_of_int k :: u64) = k" and "uint (word_of_int k :: u64) = k"
  using assms signed_take_bit_int_eq_self [of 63 k]
  by (simp_all add: sint_uint uint_word_of_int_eq take_bit_int_eq_self)

lemma sint_nonneg:
  assumes "0 \<le> sint (d :: u64)"
  shows "sint d = uint d"
proof -
  have "uint (word_of_int (sint d) :: u64) = sint d" using assms sint_lt [of d] by (intro sint_small) simp_all
  then show ?thesis by simp
qed

lemma sint_nonzero:
  assumes "(d :: u64) \<noteq> 0"
  shows "sint d \<noteq> 0"
proof
  assume "sint d = 0"
  then have "(word_of_int (sint d) :: u64) = 0" by (simp only: word_of_int_0)
  with assms show False by simp
qed

lemma in_range_bounds:
  assumes "in_range rs" and "m \<in> set (measured rs)"
  shows "0 < m" and "m < 2 ^ 63"
proof -
  from assms have "m \<in> set rs" "m \<noteq> 0" "0 \<le> m" by (auto simp: measured_def in_range_def)
  then show "0 < m" by simp
  have "m \<le> sum_list rs" using \<open>m \<in> set rs\<close> assms(1) by (intro member_le_sum_list) (auto simp: in_range_def)
  with assms(1) show "m < 2 ^ 63" by (simp add: in_range_def)
qed

lemma in_range_update:
  assumes "in_range (rs[i := v])" and "i < length rs" and "rs ! i = 0"
  shows "in_range rs" and "0 \<le> v"
proof -
  from assms(1,2) show v: "0 \<le> v" by (auto simp: in_range_def set_update_memI)
  have "0 \<le> r" if r: "r \<in> set rs" for r
  proof -
    obtain j where j: "j < length rs" "r = rs ! j" using r by (auto simp: in_set_conv_nth)
    show ?thesis
    proof (cases "j = i")
      case True
      then show ?thesis using j assms(3) by simp
    next
      case False
      then have "r = rs[i := v] ! j" using j by simp
      then have "r \<in> set (rs[i := v])" using j by (metis length_list_update nth_mem)
      then show ?thesis using assms(1) by (simp add: in_range_def)
    qed
  qed
  moreover have "sum_list rs < 2 ^ 63"
  proof (cases "v = 0")
    case True
    then show ?thesis using assms by (metis in_range_def list_update_id)
  next
    case False
    then show ?thesis using measured_update(1) [OF assms(2,3) False] assms(1) v by (simp add: in_range_def)
  qed
  ultimately show "in_range rs" by (simp add: in_range_def)
qed

section \<open>The client loop\<close>

lemma record_diff_sel:
  "st_sum_ticks (record_diff i d nd st) = sint (word_of_int (st_sum_ticks st) + d)"
  "st_rtts (record_diff i d nd st) = (st_rtts st)[i := sint d]"
  "st_received_ok (record_diff i d nd st) = st_received_ok st + 1"
  "st_received_total (record_diff i d nd st) = st_received_total st"
  "st_min_ticks (record_diff i d nd st) =
     (if i = 0 \<or> st_min_ticks st = 0 \<or> d < word_of_int (st_min_ticks st) then sint d else st_min_ticks st)"
  "st_max_ticks (record_diff i d nd st) =
     (if i = 0 \<or> st_min_ticks st = 0 \<or> word_of_int (st_max_ticks st) < d then sint d else st_max_ticks st)"
  by (simp_all add: record_diff_def Let_def)

lemma record_diff_sum:
  assumes "st_sum_ticks st = sum_list (st_rtts st)" and "i < length (st_rtts st)" and "st_rtts st ! i = 0" and "d \<noteq> 0"
    and "in_range (st_rtts (record_diff i d nd st))"
  shows "st_sum_ticks (record_diff i d nd st) = sum_list (st_rtts (record_diff i d nd st))"
proof -
  note r = record_diff_sel(2) [of i d nd st]
  note ok = in_range_update [OF assms(5) [unfolded r] assms(2,3)]
  have "sint d \<noteq> 0" using assms(4) by (rule sint_nonzero)
  note up = measured_update [OF assms(2,3) this]
  have "0 \<le> sum_list (st_rtts st)" using ok(1) by (intro sum_list_nonneg) (simp add: in_range_def)
  moreover have "sum_list (st_rtts st) + sint d < 2 ^ 63" using assms(5) r up(1) by (simp add: in_range_def)
  ultimately have fits: "sint (word_of_int (sum_list (st_rtts st) + sint d) :: u64) = sum_list (st_rtts st) + sint d"
    using ok(2) by (intro sint_small) simp_all
  have "word_of_int (sum_list (st_rtts st)) + d = (word_of_int (sum_list (st_rtts st) + sint d) :: u64)" by simp
  then show ?thesis unfolding record_diff_sel assms(1) up(1) using fits by (simp only:)
qed

lemma record_diff_summary:
  assumes "summary st" and "i < length (st_rtts st)" and "st_rtts st ! i = 0" and "d \<noteq> 0"
    and "i = 0 \<Longrightarrow> measured (st_rtts st) = []" and "in_range (st_rtts (record_diff i d nd st))"
  shows "summary (record_diff i d nd st)"
proof -
  let ?ms = "measured (st_rtts st)"
  note r = record_diff_sel(2) [of i d nd st]
  note ok = in_range_update [OF assms(6) [unfolded r] assms(2,3)]
  have "sint d \<noteq> 0" using assms(4) by (rule sint_nonzero)
  note up = measured_update [OF assms(2,3) this]
  have sum: "st_sum_ticks (record_diff i d nd st) = sum_list (measured (st_rtts (record_diff i d nd st)))"
    using record_diff_sum [OF _ assms(2-4,6)] assms(1) by (simp add: summary_def Let_def sum_list_measured)
  have du: "sint d = uint d" by (rule sint_nonneg [OF ok(2)])
  have ne: "measured ((st_rtts st)[i := sint d]) \<noteq> []" using up(2) by auto
  show ?thesis
  proof (cases "?ms = []")
    case True
    then have "set (measured ((st_rtts st)[i := sint d])) = {sint d}" using up(3) by simp
    with True assms(1) sum ne up(2) show ?thesis by (simp add: summary_def Let_def r) (simp add: record_diff_def Let_def)
  next
    case False
    then have "Min (set ?ms) \<in> set ?ms" "Max (set ?ms) \<in> set ?ms" by (simp_all add: Min_in Max_in)
    note b = this [THEN in_range_bounds(1) [OF ok(1)]] this [THEN in_range_bounds(2) [OF ok(1)]]
    have lt: "d < word_of_int (Min (set ?ms)) \<longleftrightarrow> sint d < Min (set ?ms)"
      "word_of_int (Max (set ?ms)) < d \<longleftrightarrow> Max (set ?ms) < sint d"
      using b by (simp_all add: word_less_def sint_small du)
    have mt: "st_min_ticks st = Min (set ?ms)" "st_max_ticks st = Max (set ?ms)"
      using assms(1) False by (simp_all add: summary_def Let_def)
    have nz: "i \<noteq> 0" "Min (set ?ms) \<noteq> 0" using assms(5) False not_sym [OF less_imp_neq [OF b(1)]] by blast+
    have "st_min_ticks (record_diff i d nd st) = min (sint d) (Min (set ?ms))"
      "st_max_ticks (record_diff i d nd st) = max (sint d) (Max (set ?ms))"
      unfolding record_diff_sel mt lt using nz by (simp_all only: min_def max_def) (simp_all split: if_splits)
    moreover have "Min (set (measured ((st_rtts st)[i := sint d]))) = min (sint d) (Min (set ?ms))"
      "Max (set (measured ((st_rtts st)[i := sint d]))) = max (sint d) (Max (set ?ms))"
      using False up(3) by simp_all
    moreover have "st_received_ok (record_diff i d nd st) = int (length (measured ((st_rtts st)[i := sint d])))"
      using assms(1) up(2) by (simp add: summary_def record_diff_sel Let_def)
    ultimately show ?thesis using sum ne by (simp add: summary_def Let_def r)
  qed
qed

text \<open>What holds before the test with the indices \<open>is\<close> still to come.\<close>

definition client_inv :: "opts \<Rightarrow> nat list \<Rightarrow> stats \<Rightarrow> bool" where
  "client_inv p is st \<longleftrightarrow> sorted_wrt (<) is \<and> (\<forall>i \<in> set is. i < length (st_rtts st) \<and> st_rtts st ! i = 0)
     \<and> (0 \<in> set is \<longrightarrow> measured (st_rtts st) = [] \<and> st_received_total st = 0 \<and> st_received_ok st = 0)
     \<and> (in_range (st_rtts st) \<longrightarrow> summary st)
     \<and> (st_received_total st = st_received_ok st \<or> op_skip_first p \<and> st_received_total st = st_received_ok st + 1)"

lemma client_inv_skip: "client_inv p (i # is) st \<Longrightarrow> client_inv p is st"
  by (auto simp: client_inv_def)

lemma client_inv_first:
  assumes "client_inv p (0 # is) st" and "op_skip_first p"
  shows "client_inv p is (st\<lparr>st_received_total := st_received_total st + 1\<rparr>)"
  using assms by (auto simp: client_inv_def summary_def)

lemma client_inv_record:
  assumes "client_inv p (i # is) st" and "d \<noteq> 0"
  shows "client_inv p is (record_diff i d nd (st\<lparr>st_received_total := st_received_total st + 1\<rparr>))"
proof -
  let ?st = "st\<lparr>st_received_total := st_received_total st + 1\<rparr>"
  have r: "st_rtts (record_diff i d nd ?st) = (st_rtts st)[i := sint d]" by (simp add: record_diff_sel)
  have i: "i < length (st_rtts st)" "st_rtts st ! i = 0" using assms(1) by (simp_all add: client_inv_def)
  have later: "i < j" if "j \<in> set is" for j using assms(1) that by (simp add: client_inv_def)
  have "summary (record_diff i d nd ?st)" if rng: "in_range (st_rtts (record_diff i d nd ?st))"
  proof -
    have "in_range (st_rtts st)" using in_range_update(1) [OF rng [unfolded r] i] .
    then have "summary ?st" using assms(1) by (simp add: client_inv_def summary_def)
    moreover have "measured (st_rtts ?st) = []" if "i = 0" using assms(1) that by (simp add: client_inv_def)
    ultimately show ?thesis using rng i assms(2) by (intro record_diff_summary) simp_all
  qed
  moreover have "st_received_ok (record_diff i d nd ?st) = st_received_ok st + 1"
    "st_received_total (record_diff i d nd ?st) = st_received_total st + 1"
    by (simp_all add: record_diff_sel)
  moreover have "0 \<notin> set is" using later by auto
  moreover have "(st_rtts st)[i := sint d] ! j = st_rtts st ! j" if "j \<in> set is" for j
    using later [OF that] by simp
  ultimately show ?thesis using assms(1) unfolding client_inv_def r by (simp add: add.commute)
qed

lemma client_loop_inv:
  assumes "client_inv p is st" and "run_state (client_loop is n X info p payload st) e = (Some st', e')"
  shows "client_inv p [] st' \<and> length (st_rtts st') = length (st_rtts st)"
  using assms
proof (induction "is" arbitrary: n st e)
  case Nil
  then show ?case by simp
next
  case (Cons i "is")
  show ?case
  proof (cases n)
    case 0
    then show ?thesis using Cons.prems by (auto simp: client_inv_def)
  next
    case (Suc k)
    obtain n' res e1 where m: "run_state (measure_once k X info p payload) e = ((n', res), e1)" by (metis surj_pair)
    show ?thesis
    proof (cases res)
      case None
      then show ?thesis using Cons.prems Suc m by simp
    next
      case (Some d)
      consider (zero) "d = 0" | (skip) "d \<noteq> 0" "i = 0" "op_skip_first p" | (rec) "d \<noteq> 0" "\<not> (i = 0 \<and> op_skip_first p)" by blast
      then show ?thesis
      proof cases
        case zero
        then show ?thesis using Cons.IH [OF client_inv_skip [OF Cons.prems(1)]] Cons.prems(2) Suc m Some by simp
      next
        case skip
        then show ?thesis
          using Cons.IH [OF client_inv_first [of p "is" st]] Cons.prems Suc m Some by simp
      next
        case rec
        then obtain nd e2 where "run_state (client_loop is n' X info p payload
            (record_diff i d nd (st\<lparr>st_received_total := st_received_total st + 1\<rparr>))) e2 = (Some st', e')"
          using Cons.prems(2) Suc m Some by (auto simp: split_beta intro: that)
        from Cons.IH [OF client_inv_record [OF Cons.prems(1) rec(1)] this] show ?thesis
          by (simp add: record_diff_sel)
      qed
    qed
  qed
qed

lemma client_inv_zero: "client_inv p [0..<m] (zero_stats m)"
  by (auto simp: client_inv_def zero_stats_def measured_def summary_def Let_def)

text \<open>
  Property C31. The statistics that the client reports are those of the round trips that it
  records. Whatever was measured, as long as the times and their sum are below \<open>2 ^ 63\<close> ticks, the
  sum, the minimum, the maximum and the number of measurements are those of the entries of the
  array that are not 0. Replies without a measurement are at most one, and only with
  \<open>--skip-first\<close>.
\<close>

theorem client_stats:
  assumes "run_state (client_loop [0..<m] n X info p payload (zero_stats m)) e = (Some st, e')"
    and "in_range (st_rtts st)"
  shows "summary st \<and> length (st_rtts st) = m
    \<and> (st_received_total st = st_received_ok st \<or> op_skip_first p \<and> st_received_total st = st_received_ok st + 1)"
  using client_loop_inv [OF client_inv_zero assms(1)] assms(2) by (auto simp: client_inv_def zero_stats_def)

text \<open>A device whose registers all read as a clock that ticks with every read.\<close>

definition clock_ctx :: "nat ctx" where
  "clock_ctx = \<lparr>cx_dev = \<lparr>dev_read = (\<lambda>r n off h. (of_nat h, h + 1)), dev_write = (\<lambda>r n off v h. h)\<rparr>,
     cx_fdget = (\<lambda>_. Inr 1), cx_sched = id, cx_cur = 11, cx_cpu = 1\<rparr>"

definition clock_exp :: "nat \<Rightarrow> u8 list \<Rightarrow> nat exp" where
  "clock_exp h mem = \<lparr>ex_lb = \<lparr>lb_drv = zero_iocache h, lb_sys = []\<rparr>, ex_tx = mem\<rparr>"

lemma clock_steps:
  "run_state (on_lib (rd32 clock_ctx r off)) (clock_exp h mem) = (ucast (of_nat h :: u64), clock_exp (h + 1) mem)"
  "run_state (on_lib (rd64 clock_ctx r off)) (clock_exp h mem) = (of_nat h, clock_exp (h + 1) mem)"
  "run_state (on_lib (wr32 clock_ctx r off v)) (clock_exp h mem) = ((), clock_exp h mem)"
  "run_state (on_lib (State (\<lambda>lb. case accnet_get_outside_ticks (cx_dev clock_ctx) row (io_hw (lb_drv lb)) of
     (v, h) \<Rightarrow> (v, on_regs (\<lambda>_. h) lb)))) (clock_exp h mem) =
     (fst (accnet_get_outside_ticks (cx_dev clock_ctx) row h), clock_exp (h + 2) mem)"
  by (simp_all add: on_lib_def rd32_def rd64_def wr32_def clock_exp_def clock_ctx_def reg_read32_def reg_read64_def
      ioread32_def ioread64_def reg_write32_def iowrite32_def on_regs_def on_hw_def zero_iocache_def
      accnet_get_outside_ticks_def Let_def split_beta)

lemma clock_wait:
  assumes "ucast (of_nat h :: u64) \<noteq> (0 :: u8)"
  shows "run_state (on_lib (wait_rx clock_ctx zero_info)) (clock_exp h mem) = (0, clock_exp (h + 1) mem)"
  using assms
  by (simp add: on_lib_def wait_rx_def clock_exp_def clock_ctx_def iocache_wait_on_rx_def iocache_is_rx_available_def
      reg_read8_def ioread8_def on_regs_def on_hw_def zero_iocache_def)

lemma clock_copy:
  assumes "unat tx_tail + length src \<le> length mem"
  shows "run_state (copy_tx tx_tail src) (clock_exp h mem) =
    (True, clock_exp h (take (unat tx_tail) mem @ src @ drop (unat tx_tail + length src) mem))"
  using assms by (simp add: copy_tx_def mem_write_def clock_exp_def)

lemma clock_block:
  "run_state (test_udp_latency_block clock_ctx zero_info (replicate 64 0) 64) (clock_exp 5 (replicate 128 0)) =
     (Some 2, clock_exp 14 (replicate 128 0))"
  by (simp add: test_udp_latency_block_def Let_def clock_steps clock_wait clock_copy replicate_add [symmetric]
      del: run_on_lib)

theorem client_stats_witness:
  "\<exists>st e'. run_state (client_loop [0..<1] (Suc 7) clock_ctx zero_info (default_opts\<lparr>op_mode := ''block'', op_payload_size := 64\<rparr>)
       (replicate 64 0) (zero_stats 1)) (clock_exp 5 (replicate 128 0)) = (Some st, e')
     \<and> st_rtts st = [2] \<and> summary st"
proof -
  let ?p = "default_opts\<lparr>op_mode := ''block'', op_payload_size := 64\<rparr>"
  have "\<exists>st e'. run_state (client_loop [0..<1] (Suc 7) clock_ctx zero_info ?p (replicate 64 0) (zero_stats 1))
      (clock_exp 5 (replicate 128 0)) = (Some st, e') \<and> st_rtts st = [2]"
    by (simp add: measure_once_def clock_block clock_steps record_diff_sel zero_stats_def default_opts_def
        del: run_on_lib)
  then obtain st e' where run: "run_state (client_loop [0..<1] (Suc 7) clock_ctx zero_info ?p (replicate 64 0) (zero_stats 1))
      (clock_exp 5 (replicate 128 0)) = (Some st, e')" and r: "st_rtts st = [2]" by blast
  have "in_range (st_rtts st)" by (simp add: r in_range_def)
  from client_stats [OF run this] run r show ?thesis by blast
qed

end
