(* ===== verification/C_Memory.thy ===== *)
theory C_Memory
  imports FM_Prelude
begin

text \<open>
  Blocks of memory for the programs that work on arrays. A block is the list of its elements, an
  access outside of it is a fault, and a computation that can stop early has a sum type as its
  result, with the reason on the left.
\<close>

text \<open>How the program stops early: \<open>die\<close>, an allocation that fails, an access outside a block.\<close>

datatype stop = Exit1 | Exit2 | Fault

definition and_then :: "'e + 'a \<Rightarrow> ('a \<Rightarrow> 'e + 'b) \<Rightarrow> 'e + 'b" where
  "and_then r f = (case r of Inl e \<Rightarrow> Inl e | Inr x \<Rightarrow> f x)"

lemma and_then_simps [simp]: "and_then (Inl e) f = Inl e" "and_then (Inr x) f = f x"
  by (simp_all add: and_then_def)

lemma and_then_Inr: "and_then r f = Inr y \<longleftrightarrow> (\<exists>x. r = Inr x \<and> f x = Inr y)"
  by (cases r) simp_all

definition load :: "'a list \<Rightarrow> nat \<Rightarrow> stop + 'a" where
  "load mem i = (if i < length mem then Inr (mem ! i) else Inl Fault)"

definition store :: "'a list \<Rightarrow> nat \<Rightarrow> 'a \<Rightarrow> stop + 'a list" where
  "store mem i v = (if i < length mem then Inr (mem[i := v]) else Inl Fault)"

primrec for_each :: "('i \<Rightarrow> 's \<Rightarrow> 'e + 's) \<Rightarrow> 'i list \<Rightarrow> 's \<Rightarrow> 'e + 's" where
  "for_each f [] s = Inr s"
| "for_each f (i # is) s = and_then (f i s) (for_each f is)"

lemma for_each_append: "for_each f (xs @ ys) s = and_then (for_each f xs s) (for_each f ys)"
  by (induction xs arbitrary: s) (auto simp: and_then_def split: sum.split)

text \<open>Exchange of two elements, as \<open>SWAP\<close> does it: through a temporary.\<close>

definition swap_at :: "'a list \<Rightarrow> nat \<Rightarrow> nat \<Rightarrow> stop + 'a list" where
  "swap_at mem i j =
     and_then (load mem i) (\<lambda>temp. and_then (load mem j) (\<lambda>y.
       and_then (store mem i y) (\<lambda>mem. store mem j temp)))"

lemma load_Inr [simp]: "i < length mem \<Longrightarrow> load mem i = Inr (mem ! i)"
  by (simp add: load_def)

lemma store_Inr [simp]: "i < length mem \<Longrightarrow> store mem i v = Inr (mem[i := v])"
  by (simp add: store_def)

lemma swap_at_Inr: "i < length mem \<Longrightarrow> j < length mem \<Longrightarrow> swap_at mem i j = Inr (mem[i := mem ! j, j := mem ! i])"
  by (simp add: swap_at_def)

end
