(* ===== verification/Rdma_Server.thy ===== *)
theory Rdma_Server
  imports Fifo C_Memory
begin

text \<open>
  The RDMA echo server boards/default/app/rdma/server_ts.c: the queue of receive timestamps, the
  array of rows for the results file, and the polling loop that pairs the completion of a send with
  the oldest receive time. The verbs library is seen through the results of its calls: a list of
  what \<open>ibv_poll_cq\<close> returns, with the time that is read and whether the work request that follows
  is accepted. \<open>malloc\<close> and \<open>realloc\<close> are parameters: the block they give, or None.

  Sizes are \<open>nat\<close>: a block of \<open>n\<close> words fits into the address space, so their doubling stays far
  below \<open>2 ^ 64\<close>.
\<close>

section \<open>The queue of receive times\<close>

record rxq =
  rxq_mem :: "u64 list"
  rxq_cap :: nat
  rxq_head :: nat
  rxq_size :: nat

definition empty_rxq :: rxq where
  "empty_rxq = \<lparr>rxq_mem = [], rxq_cap = 0, rxq_head = 0, rxq_size = 0\<rparr>"

primrec copy_window :: "u64 list \<Rightarrow> nat \<Rightarrow> nat \<Rightarrow> u64 list \<Rightarrow> stop + u64 list" where
  "copy_window old from 0 new = Inr new"
| "copy_window old from (Suc i) new =
     and_then (copy_window old from i new) (\<lambda>new. and_then (load old (from + i)) (store new i))"

definition rxq_grow_and_compact :: "(nat \<Rightarrow> u64 list option) \<Rightarrow> rxq \<Rightarrow> stop + rxq" where
  "rxq_grow_and_compact malloc q =
     (let newcap = (if rxq_cap q \<noteq> 0 then rxq_cap q * 2 else 4096)
      in case malloc newcap of
           None \<Rightarrow> Inl Exit2
         | Some n \<Rightarrow> and_then (copy_window (rxq_mem q) (rxq_head q) (rxq_size q) n)
             (\<lambda>n. Inr (q\<lparr>rxq_mem := n, rxq_cap := newcap, rxq_head := 0\<rparr>)))"

definition rxq_push :: "(nat \<Rightarrow> u64 list option) \<Rightarrow> u64 \<Rightarrow> rxq \<Rightarrow> stop + rxq" where
  "rxq_push malloc ts q =
     and_then (if rxq_cap q = 0 \<or> rxq_head q + rxq_size q \<ge> rxq_cap q then rxq_grow_and_compact malloc q else Inr q)
       (\<lambda>q. and_then (store (rxq_mem q) (rxq_head q + rxq_size q) ts)
         (\<lambda>mem. Inr (q\<lparr>rxq_mem := mem, rxq_size := rxq_size q + 1\<rparr>)))"

definition rxq_pop :: "(nat \<Rightarrow> u64 list option) \<Rightarrow> rxq \<Rightarrow> stop + u64 option \<times> rxq" where
  "rxq_pop malloc q =
     (if rxq_size q = 0 then Inr (None, q)
      else and_then (load (rxq_mem q) (rxq_head q)) (\<lambda>out.
        let q = q\<lparr>rxq_head := rxq_head q + 1, rxq_size := rxq_size q - 1\<rparr>
        in and_then (if rxq_head q > 65536 \<and> rxq_size q < rxq_cap q div 4 then rxq_grow_and_compact malloc q else Inr q)
             (\<lambda>q. Inr (Some out, q))))"

section \<open>The rows of the results\<close>

record row_t =
  row_idx :: u64
  row_size :: u32
  row_rx_ns :: u64
  row_tx_ns :: u64

record rows =
  g_rows :: "row_t list"
  g_rows_sz :: nat
  g_rows_cap :: nat

definition empty_rows :: rows where
  "empty_rows = \<lparr>g_rows = [], g_rows_sz = 0, g_rows_cap = 0\<rparr>"

partial_function (option) double_until :: "nat \<Rightarrow> nat \<Rightarrow> nat option" where
  "double_until need ncap = (if ncap < need then double_until need (ncap * 2) else Some ncap)"

text \<open>\<open>None\<close> at the top is a loop that does not end.\<close>

definition rows_reserve :: "(row_t list \<Rightarrow> nat \<Rightarrow> row_t list option) \<Rightarrow> nat \<Rightarrow> rows \<Rightarrow> (stop + rows) option" where
  "rows_reserve realloc need r =
     (if need \<le> g_rows_cap r then Some (Inr r)
      else case double_until need (if g_rows_cap r \<noteq> 0 then g_rows_cap r * 2 else 16384) of
             None \<Rightarrow> None
           | Some ncap \<Rightarrow> Some (case realloc (g_rows r) ncap of
               None \<Rightarrow> Inl Exit2
             | Some n \<Rightarrow> Inr (r\<lparr>g_rows := n, g_rows_cap := ncap\<rparr>)))"

definition rows_push :: "(row_t list \<Rightarrow> nat \<Rightarrow> row_t list option) \<Rightarrow> row_t \<Rightarrow> rows \<Rightarrow> (stop + rows) option" where
  "rows_push realloc x r =
     map_option (\<lambda>res. and_then res (\<lambda>r. and_then (store (g_rows r) (g_rows_sz r) x)
         (\<lambda>mem. Inr (r\<lparr>g_rows := mem, g_rows_sz := g_rows_sz r + 1\<rparr>))))
       (if g_rows_sz r + 1 > g_rows_cap r then rows_reserve realloc (g_rows_sz r + 1) r else Some (Inr r))"

text \<open>The last column of the results file.\<close>

definition delta_ns :: "row_t \<Rightarrow> u64" where
  "delta_ns r = (if row_tx_ns r \<ge> row_rx_ns r then row_tx_ns r - row_rx_ns r else 0)"

section \<open>The polling loop\<close>

text \<open>
  What one turn of the loop sees: no completion, a failed poll, a completion with an error, a
  received message or a finished send with the time that is read then and whether the request
  that is posted next is accepted, or a completion of another kind.
\<close>

datatype poll = Poll_failed | Poll_none | Poll_error | Poll_recv u64 bool | Poll_send u64 bool | Poll_other

record server =
  sv_rxq :: rxq
  sv_rows :: rows
  sv_pkt_idx :: u64

definition server_start :: server where
  "server_start = \<lparr>sv_rxq = empty_rxq, sv_rows = empty_rows, sv_pkt_idx = 0\<rparr>"

definition on_recv :: "(nat \<Rightarrow> u64 list option) \<Rightarrow> u64 \<Rightarrow> bool \<Rightarrow> server \<Rightarrow> stop + server" where
  "on_recv malloc rx_ns posted s =
     and_then (rxq_push malloc rx_ns (sv_rxq s)) (\<lambda>q. if posted then Inr (s\<lparr>sv_rxq := q\<rparr>) else Inl Exit1)"

definition on_send ::
    "(nat \<Rightarrow> u64 list option) \<Rightarrow> (row_t list \<Rightarrow> nat \<Rightarrow> row_t list option) \<Rightarrow> u32 \<Rightarrow> u64 \<Rightarrow> bool \<Rightarrow> server \<Rightarrow> (stop + server) option" where
  "on_send malloc realloc msg_size tx_ns posted s =
     (case rxq_pop malloc (sv_rxq s) of
        Inl e \<Rightarrow> Some (Inl e)
      | Inr (out, q) \<Rightarrow>
          map_option (\<lambda>res. and_then res (\<lambda>rs.
              if posted then Inr \<lparr>sv_rxq = q, sv_rows = rs, sv_pkt_idx = sv_pkt_idx s + 1\<rparr> else Inl Exit1))
            (rows_push realloc
               \<lparr>row_idx = sv_pkt_idx s, row_size = msg_size,
                row_rx_ns = (case out of None \<Rightarrow> tx_ns | Some rx_ns \<Rightarrow> rx_ns), row_tx_ns = tx_ns\<rparr> (sv_rows s)))"

text \<open>The loop runs over what the polls return until the signal: the end of the list.\<close>

fun serve ::
    "(nat \<Rightarrow> u64 list option) \<Rightarrow> (row_t list \<Rightarrow> nat \<Rightarrow> row_t list option) \<Rightarrow> u32 \<Rightarrow> poll list \<Rightarrow> server \<Rightarrow> (stop + server) option" where
  "serve malloc realloc msg_size [] s = Some (Inr s)"
| "serve malloc realloc msg_size (Poll_failed # ps) s = Some (Inl Exit1)"
| "serve malloc realloc msg_size (Poll_none # ps) s = serve malloc realloc msg_size ps s"
| "serve malloc realloc msg_size (Poll_error # ps) s = Some (Inr s)"
| "serve malloc realloc msg_size (Poll_recv rx_ns posted # ps) s =
     (case on_recv malloc rx_ns posted s of Inl e \<Rightarrow> Some (Inl e) | Inr s \<Rightarrow> serve malloc realloc msg_size ps s)"
| "serve malloc realloc msg_size (Poll_send tx_ns posted # ps) s =
     (case on_send malloc realloc msg_size tx_ns posted s of
        None \<Rightarrow> None
      | Some (Inl e) \<Rightarrow> Some (Inl e)
      | Some (Inr s) \<Rightarrow> serve malloc realloc msg_size ps s)"
| "serve malloc realloc msg_size (Poll_other # ps) s = serve malloc realloc msg_size ps s"

section \<open>The queue is a FIFO\<close>

text \<open>What is relied on of the allocator: a block has the length that was asked for, and \<open>realloc\<close> keeps the old part.\<close>

definition malloc_ok :: "(nat \<Rightarrow> u64 list option) \<Rightarrow> bool" where
  "malloc_ok malloc \<longleftrightarrow> (\<forall>n ws. malloc n = Some ws \<longrightarrow> length ws = n)"

definition realloc_ok :: "(row_t list \<Rightarrow> nat \<Rightarrow> row_t list option) \<Rightarrow> bool" where
  "realloc_ok realloc \<longleftrightarrow> (\<forall>old n ws. length old \<le> n \<longrightarrow> realloc old n = Some ws \<longrightarrow>
     length ws = n \<and> take (length old) ws = old)"

definition rxq_wf :: "rxq \<Rightarrow> bool" where
  "rxq_wf q \<longleftrightarrow> length (rxq_mem q) = rxq_cap q \<and> rxq_head q + rxq_size q \<le> rxq_cap q"

definition rxq_list :: "rxq \<Rightarrow> u64 list" where
  "rxq_list q = take (rxq_size q) (drop (rxq_head q) (rxq_mem q))"

definition newcap :: "rxq \<Rightarrow> nat" where
  "newcap q = (if rxq_cap q \<noteq> 0 then rxq_cap q * 2 else 4096)"

lemma newcap_less: "rxq_wf q \<Longrightarrow> rxq_size q < newcap q"
  by (auto simp: rxq_wf_def newcap_def)

lemma length_rxq_list: "rxq_wf q \<Longrightarrow> length (rxq_list q) = rxq_size q"
  by (auto simp: rxq_list_def rxq_wf_def)

lemma copy_window_val:
  assumes "from + n \<le> length old" and "n \<le> length new"
  shows "copy_window old from n new = Inr (take n (drop from old) @ drop n new)"
  using assms
proof (induction n)
  case 0
  then show ?case by simp
next
  case (Suc n)
  then have "take (Suc n) (drop from old) = take n (drop from old) @ [old ! (from + n)]"
    by (simp add: take_Suc_conv_app_nth)
  moreover have "drop n new = new ! n # drop (Suc n) new" using Suc.prems by (simp add: Cons_nth_drop_Suc)
  ultimately show ?case using Suc by (simp add: load_def store_def list_update_append)
qed

lemma grow_cases:
  assumes "rxq_wf q" and "malloc_ok malloc"
  obtains (fails) "malloc (newcap q) = None" "rxq_grow_and_compact malloc q = Inl Exit2"
  | (grown) q' where "rxq_grow_and_compact malloc q = Inr q'" "rxq_wf q'" "rxq_list q' = rxq_list q"
      "rxq_cap q' = newcap q" "rxq_head q' = 0" "rxq_size q' = rxq_size q"
proof (cases "malloc (newcap q)")
  case None
  then show ?thesis by (intro fails) (simp_all add: rxq_grow_and_compact_def newcap_def Let_def)
next
  case (Some ws)
  let ?n = "take (rxq_size q) (drop (rxq_head q) (rxq_mem q)) @ drop (rxq_size q) ws"
  have len: "length ws = newcap q" using assms(2) Some by (simp add: malloc_ok_def)
  have "copy_window (rxq_mem q) (rxq_head q) (rxq_size q) ws = Inr ?n"
    using assms(1) newcap_less [OF assms(1)] len by (intro copy_window_val) (simp_all add: rxq_wf_def)
  then have "rxq_grow_and_compact malloc q = Inr (q\<lparr>rxq_mem := ?n, rxq_cap := newcap q, rxq_head := 0\<rparr>)"
    using Some by (simp add: rxq_grow_and_compact_def newcap_def Let_def)
  then show ?thesis
    using assms(1) newcap_less [OF assms(1)] len by (intro grown [of "q\<lparr>rxq_mem := ?n, rxq_cap := newcap q, rxq_head := 0\<rparr>"]) (auto simp: rxq_wf_def rxq_list_def)
qed

lemma store_back:
  fixes ts :: u64
  assumes "rxq_wf q" and "rxq_head q + rxq_size q < rxq_cap q"
  defines "q' \<equiv> q\<lparr>rxq_mem := (rxq_mem q)[rxq_head q + rxq_size q := ts], rxq_size := rxq_size q + 1\<rparr>"
  shows "and_then (store (rxq_mem q) (rxq_head q + rxq_size q) ts)
      (\<lambda>mem. Inr (q\<lparr>rxq_mem := mem, rxq_size := rxq_size q + 1\<rparr>)) = Inr q'"
    and "rxq_wf q'" and "rxq_list q' = rxq_list q @ [ts]"
proof -
  show "and_then (store (rxq_mem q) (rxq_head q + rxq_size q) ts)
      (\<lambda>mem. Inr (q\<lparr>rxq_mem := mem, rxq_size := rxq_size q + 1\<rparr>)) = Inr q'"
    using assms(1,2) by (simp add: store_def rxq_wf_def q'_def)
  show "rxq_wf q'" using assms(1,2) by (simp add: rxq_wf_def q'_def)
  show "rxq_list q' = rxq_list q @ [ts]"
    using assms(1,2) by (simp add: rxq_list_def q'_def rxq_wf_def take_Suc_conv_app_nth drop_update_swap)
qed

lemma rxq_push_cases:
  assumes "rxq_wf q" and "malloc_ok malloc"
  obtains (fails) "malloc (newcap q) = None" "rxq_push malloc ts q = Inl Exit2"
  | (pushed) q' where "rxq_push malloc ts q = Inr q'" "rxq_wf q'" "rxq_list q' = rxq_list q @ [ts]"
proof (cases "rxq_cap q = 0 \<or> rxq_head q + rxq_size q \<ge> rxq_cap q")
  case True
  from assms show ?thesis
  proof (cases rule: grow_cases)
    case fails
    with True show ?thesis by (intro that(1)) (simp_all add: rxq_push_def)
  next
    case (grown q')
    then have "rxq_head q' + rxq_size q' < rxq_cap q'" using newcap_less [OF assms(1)] by simp
    note b = store_back [OF grown(2) this, of ts]
    with True grown show ?thesis by (intro that(2)) (simp_all add: rxq_push_def)
  qed
next
  case False
  then have "rxq_head q + rxq_size q < rxq_cap q" by simp
  note b = store_back [OF assms(1) this, of ts]
  with False show ?thesis by (intro that(2)) (simp_all add: rxq_push_def)
qed

lemma rxq_pop_cases:
  assumes "rxq_wf q" and "malloc_ok malloc"
  obtains (none) "rxq_list q = []" "rxq_pop malloc q = Inr (None, q)"
  | (fails) "rxq_list q \<noteq> []" "malloc (newcap q) = None" "rxq_pop malloc q = Inl Exit2"
  | (popped) q' where "rxq_list q = hd (rxq_list q) # rxq_list q'" "rxq_pop malloc q = Inr (Some (hd (rxq_list q)), q')" "rxq_wf q'"
proof (cases "rxq_size q = 0")
  case True
  then show ?thesis by (intro none) (simp_all add: rxq_list_def rxq_pop_def)
next
  case False
  define p where "p = q\<lparr>rxq_head := rxq_head q + 1, rxq_size := rxq_size q - 1\<rparr>"
  have h: "rxq_head q < length (rxq_mem q)" using assms(1) False by (simp add: rxq_wf_def)
  have p: "rxq_wf p" "newcap p = newcap q" using assms(1) False by (auto simp: rxq_wf_def p_def newcap_def)
  have l: "rxq_list q = rxq_mem q ! rxq_head q # rxq_list p"
    using h False by (cases "rxq_size q") (simp_all add: rxq_list_def p_def Cons_nth_drop_Suc [symmetric])
  have pop: "rxq_pop malloc q = and_then
      (if rxq_head p > 65536 \<and> rxq_size p < rxq_cap p div 4 then rxq_grow_and_compact malloc p else Inr p)
      (\<lambda>p. Inr (Some (rxq_mem q ! rxq_head q), p))"
    using False h by (simp add: rxq_pop_def load_def p_def Let_def)
  show ?thesis
  proof (cases "rxq_head p > 65536 \<and> rxq_size p < rxq_cap p div 4")
    case True
    from p(1) assms(2) show ?thesis
    proof (cases rule: grow_cases)
      case fails
      with True pop l p show ?thesis by (intro that(2)) simp_all
    next
      case (grown p')
      with True pop l show ?thesis by (intro that(3)) simp_all
    qed
  next
    case False
    with pop l p show ?thesis by (intro that(3)) auto
  qed
qed

text \<open>With an allocator that succeeds, the queue has the contract of an unbounded queue.\<close>

definition zero_block :: "nat \<Rightarrow> u64 list option" where
  "zero_block n = Some (replicate n 0)"

lemma zero_block_ok: "malloc_ok zero_block"
  by (simp add: malloc_ok_def zero_block_def)

definition push_total :: "rxq \<Rightarrow> u64 \<Rightarrow> rxq" where
  "push_total q ts = (case rxq_push zero_block ts q of Inl _ \<Rightarrow> q | Inr q \<Rightarrow> q)"

definition pop_total :: "rxq \<Rightarrow> u64 option \<times> rxq" where
  "pop_total q = (case rxq_pop zero_block q of Inl _ \<Rightarrow> (None, q) | Inr r \<Rightarrow> r)"

lemma push_total: "rxq_wf q \<Longrightarrow> rxq_wf (push_total q ts) \<and> rxq_list (push_total q ts) = rxq_list q @ [ts]"
  by (erule rxq_push_cases [OF _ zero_block_ok, of q ts]) (simp_all add: push_total_def zero_block_def)

lemma pop_total:
  assumes "rxq_wf q"
  shows "rxq_wf (snd (pop_total q)) \<and> rxq_list (snd (pop_total q)) = tl (rxq_list q)
    \<and> fst (pop_total q) = (if rxq_list q = [] then None else Some (hd (rxq_list q)))
    \<and> (rxq_list q = [] \<longrightarrow> snd (pop_total q) = q)"
  using assms zero_block_ok
proof (cases rule: rxq_pop_cases)
  case (popped q')
  then have "rxq_list q \<noteq> []" "tl (rxq_list q) = rxq_list q'" by (metis list.discI, metis list.sel(3))
  with popped show ?thesis by (simp add: pop_total_def)
qed (simp_all add: pop_total_def zero_block_def assms)

interpretation rxq: fifo push_total pop_total rxq_list rxq_wf "\<lambda>_. True"
proof unfold_locales
  fix q :: rxq and x xs
  assume "rxq_wf q" and "rxq_list q = x # xs"
  with pop_total [of q] show "fst (pop_total q) = Some x \<and> rxq_list (snd (pop_total q)) = xs" by simp
next
  fix q :: rxq
  assume "rxq_wf q" and "rxq_list q = []"
  with pop_total [of q] show "pop_total q = (None, q)" by (simp add: prod_eq_iff)
qed (simp_all add: push_total pop_total)

section \<open>The array of rows\<close>

definition rows_wf :: "rows \<Rightarrow> bool" where
  "rows_wf r \<longleftrightarrow> length (g_rows r) = g_rows_cap r \<and> g_rows_sz r \<le> g_rows_cap r"

definition rows_list :: "rows \<Rightarrow> row_t list" where
  "rows_list r = take (g_rows_sz r) (g_rows r)"

lemma double_until_returns:
  assumes "0 < ncap"
  shows "\<exists>m. double_until need ncap = Some m \<and> need \<le> m \<and> ncap \<le> m"
  using assms
proof (induction "need - ncap" arbitrary: ncap rule: less_induct)
  case less
  show ?case
  proof (cases "ncap < need")
    case True
    then have "need - ncap * 2 < need - ncap" using less.prems by linarith
    then obtain m where "double_until need (ncap * 2) = Some m" "need \<le> m" "ncap * 2 \<le> m"
      using less.hyps [of "ncap * 2"] less.prems by auto
    with True show ?thesis by (subst double_until.simps) auto
  next
    case False
    then show ?thesis by (subst double_until.simps) simp
  qed
qed

lemma rows_push_cases:
  assumes "rows_wf r" and "realloc_ok realloc"
  obtains (fails) "rows_push realloc x r = Some (Inl Exit2)"
  | (pushed) r' where "rows_push realloc x r = Some (Inr r')" "rows_wf r'" "rows_list r' = rows_list r @ [x]"
proof -
  have finish: thesis if r': "rows_wf p" "g_rows_sz p < g_rows_cap p" "rows_list p = rows_list r"
      and p: "rows_push realloc x r = Some (and_then (store (g_rows p) (g_rows_sz p) x)
        (\<lambda>mem. Inr (p\<lparr>g_rows := mem, g_rows_sz := g_rows_sz p + 1\<rparr>)))" for p
  proof (rule pushed)
    let ?p = "p\<lparr>g_rows := (g_rows p)[g_rows_sz p := x], g_rows_sz := g_rows_sz p + 1\<rparr>"
    show "rows_push realloc x r = Some (Inr ?p)" using p r' by (simp add: store_def rows_wf_def)
    show "rows_wf ?p" using r' by (simp add: rows_wf_def)
    show "rows_list ?p = rows_list r @ [x]"
      using r' by (simp add: rows_list_def rows_wf_def take_Suc_conv_app_nth)
  qed
  show thesis
  proof (cases "g_rows_sz r + 1 > g_rows_cap r")
    case True
    have start: "0 < (if g_rows_cap r \<noteq> 0 then g_rows_cap r * 2 else 16384)" by simp
    obtain m where m: "double_until (g_rows_sz r + 1) (if g_rows_cap r \<noteq> 0 then g_rows_cap r * 2 else 16384) = Some m"
        "g_rows_sz r + 1 \<le> m"
      using double_until_returns [OF start] by blast
    show thesis
    proof (cases "realloc (g_rows r) m")
      case None
      with True m show thesis by (intro fails) (simp add: rows_push_def rows_reserve_def)
    next
      case (Some ws)
      have "length (g_rows r) \<le> m" using assms(1) True m(2) by (simp add: rows_wf_def)
      with Some assms(2) have ws: "length ws = m" "take (length (g_rows r)) ws = g_rows r" by (auto simp: realloc_ok_def)
      have "take (g_rows_sz r) ws = take (g_rows_sz r) (g_rows r)"
        using ws(2) assms(1) by (metis min.absorb1 rows_wf_def take_take)
      then show thesis
        using True m Some ws(1) assms(1)
        by (intro finish [of "r\<lparr>g_rows := ws, g_rows_cap := m\<rparr>"]) (simp_all add: rows_wf_def rows_list_def rows_push_def rows_reserve_def)
    qed
  next
    case False
    then show thesis using assms(1) by (intro finish [of r]) (simp_all add: rows_push_def)
  qed
qed

section \<open>Pairing of receive and send times\<close>

text \<open>The reference: pending receive times, oldest first, and the pairs that the completed sends make.\<close>

fun pair_times :: "u64 list \<Rightarrow> poll list \<Rightarrow> (u64 \<times> u64) list \<times> u64 list" where
  "pair_times pending [] = ([], pending)"
| "pair_times pending (Poll_error # ps) = ([], pending)"
| "pair_times pending (Poll_recv t ok # ps) = pair_times (pending @ [t]) ps"
| "pair_times pending (Poll_send t ok # ps) =
     (case pending of
        [] \<Rightarrow> apfst ((#) (t, t)) (pair_times [] ps)
      | x # pending \<Rightarrow> apfst ((#) (x, t)) (pair_times pending ps))"
| "pair_times pending (_ # ps) = pair_times pending ps"

definition heard :: "poll list \<Rightarrow> poll list" where
  "heard ps = takeWhile (\<lambda>p. p \<noteq> Poll_error) ps"

definition recv_times :: "poll list \<Rightarrow> u64 list" where
  "recv_times ps = concat (map (\<lambda>p. case p of Poll_recv t ok \<Rightarrow> [t] | _ \<Rightarrow> []) (heard ps))"

definition send_times :: "poll list \<Rightarrow> u64 list" where
  "send_times ps = concat (map (\<lambda>p. case p of Poll_send t ok \<Rightarrow> [t] | _ \<Rightarrow> []) (heard ps))"

text \<open>No send completes before its message was received.\<close>

fun balanced :: "nat \<Rightarrow> poll list \<Rightarrow> bool" where
  "balanced n [] = True"
| "balanced n (Poll_recv t ok # ps) = balanced (Suc n) ps"
| "balanced n (Poll_send t ok # ps) = (n > 0 \<and> balanced (n - 1) ps)"
| "balanced n (_ # ps) = balanced n ps"

lemma times_simps [simp]:
  "recv_times [] = []" "send_times [] = []"
  "recv_times (p # ps) = (case p of Poll_error \<Rightarrow> [] | Poll_recv t ok \<Rightarrow> t # recv_times ps | _ \<Rightarrow> recv_times ps)"
  "send_times (p # ps) = (case p of Poll_error \<Rightarrow> [] | Poll_send t ok \<Rightarrow> t # send_times ps | _ \<Rightarrow> send_times ps)"
  by (simp_all add: recv_times_def send_times_def heard_def split: poll.split)

lemma pair_times_balanced:
  assumes "balanced (length pending) ps"
  shows "fst (pair_times pending ps) = zip (pending @ recv_times ps) (send_times ps)"
  using assms
proof (induction pending ps rule: pair_times.induct)
  case (4 pending t ok ps)
  then show ?case by (cases pending) simp_all
qed simp_all

definition row_of :: "u32 \<Rightarrow> nat \<Rightarrow> u64 \<times> u64 \<Rightarrow> row_t" where
  "row_of msg_size i x = \<lparr>row_idx = of_nat i, row_size = msg_size, row_rx_ns = fst x, row_tx_ns = snd x\<rparr>"

primrec numbered :: "u32 \<Rightarrow> nat \<Rightarrow> (u64 \<times> u64) list \<Rightarrow> row_t list" where
  "numbered msg_size i [] = []"
| "numbered msg_size i (x # xs) = row_of msg_size i x # numbered msg_size (Suc i) xs"

lemma times_numbered: "map (\<lambda>x. (row_rx_ns x, row_tx_ns x)) (numbered msg_size i xs) = xs"
  by (induction xs arbitrary: i) (simp_all add: row_of_def)

definition server_inv :: "server \<Rightarrow> bool" where
  "server_inv s \<longleftrightarrow> rxq_wf (sv_rxq s) \<and> rows_wf (sv_rows s) \<and> sv_pkt_idx s = of_nat (length (rows_list (sv_rows s)))"

text \<open>What a run from \<open>s\<close> may give: an exit of the program, or the rows and pending times of the reference.\<close>

definition serves :: "u32 \<Rightarrow> server \<Rightarrow> poll list \<Rightarrow> (stop + server) option \<Rightarrow> bool" where
  "serves msg_size s ps r \<longleftrightarrow>
     (case r of
        None \<Rightarrow> False
      | Some (Inl e) \<Rightarrow> e \<noteq> Fault
      | Some (Inr s') \<Rightarrow> rxq_list (sv_rxq s') = snd (pair_times (rxq_list (sv_rxq s)) ps)
          \<and> rows_list (sv_rows s') = rows_list (sv_rows s) @
              numbered msg_size (length (rows_list (sv_rows s))) (fst (pair_times (rxq_list (sv_rxq s)) ps)))"

lemma on_send_cases:
  assumes "server_inv s" and "malloc_ok malloc" and "realloc_ok realloc"
  obtains (stops) e where "on_send malloc realloc msg_size t posted s = Some (Inl e)" "e \<noteq> Fault"
  | (sent) s' where "on_send malloc realloc msg_size t posted s = Some (Inr s')" "server_inv s'"
      "rxq_list (sv_rxq s') = tl (rxq_list (sv_rxq s))"
      "rows_list (sv_rows s') = rows_list (sv_rows s) @ [row_of msg_size (length (rows_list (sv_rows s)))
         (if rxq_list (sv_rxq s) = [] then t else hd (rxq_list (sv_rxq s)), t)]"
proof -
  let ?out = "if rxq_list (sv_rxq s) = [] then None else Some (hd (rxq_list (sv_rxq s)))"
  have wf: "rxq_wf (sv_rxq s)" "rows_wf (sv_rows s)" and idx: "sv_pkt_idx s = of_nat (length (rows_list (sv_rows s)))"
    using assms(1) by (simp_all add: server_inv_def)
  have rest: thesis if q: "rxq_pop malloc (sv_rxq s) = Inr (?out, q)" "rxq_wf q" "rxq_list q = tl (rxq_list (sv_rxq s))" for q
  proof -
    let ?x = "row_of msg_size (length (rows_list (sv_rows s))) (if rxq_list (sv_rxq s) = [] then t else hd (rxq_list (sv_rxq s)), t)"
    from wf(2) assms(3) show thesis
    proof (cases rule: rows_push_cases [where x = ?x])
      case fails
      then show thesis using q idx by (intro stops [of Exit2]) (auto simp: on_send_def row_of_def)
    next
      case (pushed r)
      show thesis
      proof (cases posted)
        case True
        then show thesis using q idx pushed
          by (intro sent [of "\<lparr>sv_rxq = q, sv_rows = r, sv_pkt_idx = sv_pkt_idx s + 1\<rparr>"])
            (auto simp: on_send_def row_of_def server_inv_def)
      next
        case False
        then show thesis using q idx pushed by (intro stops [of Exit1]) (auto simp: on_send_def row_of_def)
      qed
    qed
  qed
  from wf(1) assms(2) show thesis
  proof (cases rule: rxq_pop_cases)
    case none
    with wf(1) show thesis by (intro rest [of "sv_rxq s"]) simp_all
  next
    case fails
    then show thesis by (intro stops [of Exit2]) (simp_all add: on_send_def)
  next
    case (popped q)
    then have "rxq_list (sv_rxq s) \<noteq> []" "tl (rxq_list (sv_rxq s)) = rxq_list q" by (metis list.discI, metis list.sel(3))
    with popped show thesis by (intro rest [of q]) simp_all
  qed
qed

lemma serves_recv:
  assumes "serves msg_size s' ps r" and "rxq_list (sv_rxq s') = rxq_list (sv_rxq s) @ [t]" and "sv_rows s' = sv_rows s"
  shows "serves msg_size s (Poll_recv t posted # ps) r"
  using assms by (simp add: serves_def split: option.splits sum.splits)

lemma serves_send:
  assumes "serves msg_size s' ps r" and "rxq_list (sv_rxq s') = tl (rxq_list (sv_rxq s))"
    and "rows_list (sv_rows s') = rows_list (sv_rows s) @ [row_of msg_size (length (rows_list (sv_rows s)))
         (if rxq_list (sv_rxq s) = [] then t else hd (rxq_list (sv_rxq s)), t)]"
  shows "serves msg_size s (Poll_send t posted # ps) r"
  using assms
  by (cases "rxq_list (sv_rxq s)") (auto simp: serves_def split: option.splits sum.splits)

lemma serve_serves:
  assumes "malloc_ok malloc" and "realloc_ok realloc" and "server_inv s"
  shows "serves msg_size s ps (serve malloc realloc msg_size ps s)"
  using assms(3)
proof (induction ps arbitrary: s)
  case Nil
  then show ?case by (simp add: serves_def)
next
  case (Cons p ps)
  show ?case
  proof (cases p)
    case (Poll_recv t posted)
    from Cons.prems have wf: "rxq_wf (sv_rxq s)" by (simp add: server_inv_def)
    from wf assms(1) show ?thesis
    proof (cases rule: rxq_push_cases [where ts = t])
      case fails
      with Poll_recv show ?thesis by (simp add: on_recv_def serves_def)
    next
      case (pushed q)
      then have "server_inv (s\<lparr>sv_rxq := q\<rparr>)" using Cons.prems by (simp add: server_inv_def)
      from serves_recv [OF Cons.IH [OF this]] pushed Poll_recv show ?thesis
        by (cases posted) (simp_all add: on_recv_def serves_def)
    qed
  next
    case (Poll_send t posted)
    from Cons.prems assms(1,2) show ?thesis
    proof (cases rule: on_send_cases [where msg_size = msg_size and t = t and posted = posted])
      case (stops e)
      with Poll_send show ?thesis by (simp add: serves_def)
    next
      case (sent s')
      from serves_send [OF Cons.IH [OF sent(2)] sent(3,4)] sent(1) Poll_send show ?thesis by simp
    qed
  qed (use Cons.IH [OF Cons.prems] in \<open>simp_all add: serves_def split: option.splits sum.splits\<close>)
qed

text \<open>
  Property C23. The rows of the results pair every completed send with the oldest receive time
  that is still waiting. For any allocator, any polls and any failures, the server returns and
  never accesses memory outside its blocks: it exits as the code says, or its rows are, in order
  and numbered from 0, the pairs of the reference. If no send completes before its message
  was received, row \<open>i\<close> holds the \<open>i\<close>-th receive time and the \<open>i\<close>-th send time.
\<close>

theorem server_pairs:
  assumes "malloc_ok malloc" and "realloc_ok realloc"
  shows "\<exists>r. serve malloc realloc msg_size ps server_start = Some r \<and> r \<noteq> Inl Fault
    \<and> (\<forall>s. r = Inr s \<longrightarrow>
         rows_list (sv_rows s) = numbered msg_size 0 (fst (pair_times [] ps))
         \<and> rxq_list (sv_rxq s) = snd (pair_times [] ps)
         \<and> (balanced 0 ps \<longrightarrow> map (\<lambda>x. (row_rx_ns x, row_tx_ns x)) (rows_list (sv_rows s)) = zip (recv_times ps) (send_times ps)))"
proof -
  have "server_inv server_start"
    by (simp add: server_inv_def server_start_def rxq_wf_def rows_wf_def rows_list_def empty_rxq_def empty_rows_def)
  from serve_serves [OF assms this, of msg_size ps]
  have s: "serves msg_size server_start ps (serve malloc realloc msg_size ps server_start)" .
  have e: "rxq_list (sv_rxq server_start) = []" "rows_list (sv_rows server_start) = []"
    by (simp_all add: server_start_def rxq_list_def rows_list_def empty_rxq_def empty_rows_def)
  obtain r where r: "serve malloc realloc msg_size ps server_start = Some r"
    using s by (auto simp: serves_def split: option.splits)
  show ?thesis
    using s r e pair_times_balanced [of "[]" ps] by (cases r) (auto simp: serves_def times_numbered)
qed

definition demo_realloc :: "row_t list \<Rightarrow> nat \<Rightarrow> row_t list option" where
  "demo_realloc old n = Some (take n (old @ replicate n \<lparr>row_idx = 0, row_size = 0, row_rx_ns = 0, row_tx_ns = 0\<rparr>))"

theorem server_pairs_witness:
  "\<exists>s. serve zero_block demo_realloc 64 [Poll_recv 5 True, Poll_none, Poll_recv 7 True, Poll_send 9 True] server_start = Some (Inr s)
     \<and> map (\<lambda>x. (row_rx_ns x, row_tx_ns x)) (rows_list (sv_rows s)) = [(5, 9)]"
proof -
  let ?ps = "[Poll_recv 5 True, Poll_none, Poll_recv 7 True, Poll_send 9 True]"
  have ok: "realloc_ok demo_realloc" by (simp add: realloc_ok_def demo_realloc_def)
  have "\<exists>s. serve zero_block demo_realloc 64 ?ps server_start = Some (Inr s)"
    by (simp add: on_recv_def rxq_push_def rxq_grow_and_compact_def zero_block_def server_start_def empty_rxq_def store_def
        on_send_def rxq_pop_def load_def Let_def empty_rows_def rows_push_def rows_reserve_def double_until.simps demo_realloc_def)
  then obtain s where s: "serve zero_block demo_realloc 64 ?ps server_start = Some (Inr s)" ..
  from server_pairs [OF zero_block_ok ok, of 64 ?ps] s show ?thesis by auto
qed

section \<open>Growth of the queue\<close>

text \<open>One message at a time: every receive time is taken out before the next one comes.\<close>

definition cycle :: "(nat \<Rightarrow> u64 list option) \<Rightarrow> u64 \<Rightarrow> rxq \<Rightarrow> stop + rxq" where
  "cycle malloc ts q = and_then (rxq_push malloc ts q) (\<lambda>q. and_then (rxq_pop malloc q) (\<lambda>(out, q). Inr q))"

primrec cycles :: "(nat \<Rightarrow> u64 list option) \<Rightarrow> u64 \<Rightarrow> nat \<Rightarrow> rxq \<Rightarrow> stop + rxq" where
  "cycles malloc ts 0 q = Inr q"
| "cycles malloc ts (Suc n) q = and_then (cycles malloc ts n q) (cycle malloc ts)"

lemma cycles_add: "cycles malloc ts (m + n) q = and_then (cycles malloc ts m q) (cycles malloc ts n)"
  by (induction n) (auto simp: and_then_def split: sum.split)

text \<open>An empty queue with its head at \<open>i\<close>.\<close>

definition idle :: "nat \<Rightarrow> nat \<Rightarrow> rxq \<Rightarrow> bool" where
  "idle cap i q \<longleftrightarrow> rxq_wf q \<and> rxq_cap q = cap \<and> rxq_head q = i \<and> rxq_size q = 0"

lemma cycle_pushed:
  assumes "idle cap i q" and "i < cap"
  obtains p where "cycle malloc ts q = and_then
      (if i + 1 > 65536 \<and> 0 < cap div 4 then rxq_grow_and_compact malloc p else Inr p) Inr" "idle cap (i + 1) p"
proof
  let ?q = "q\<lparr>rxq_mem := (rxq_mem q)[i := ts], rxq_size := 1\<rparr>" and ?p = "q\<lparr>rxq_mem := (rxq_mem q)[i := ts], rxq_head := i + 1, rxq_size := 0\<rparr>"
  have "rxq_push malloc ts q = Inr ?q"
    using assms by (simp add: idle_def rxq_push_def store_def rxq_wf_def)
  then show "cycle malloc ts q = and_then
      (if i + 1 > 65536 \<and> 0 < cap div 4 then rxq_grow_and_compact malloc ?p else Inr ?p) Inr"
    using assms by (simp add: cycle_def rxq_pop_def load_def Let_def idle_def rxq_wf_def and_then_def split: sum.split)
  show "idle cap (i + 1) ?p" using assms by (simp add: idle_def rxq_wf_def)
qed

lemma cycles_idle:
  assumes "idle cap 0 q" and "65536 < cap" and "n \<le> 65536"
  shows "\<exists>p. cycles malloc ts n q = Inr p \<and> idle cap n p"
  using assms(3)
proof (induction n)
  case 0
  with assms show ?case by simp
next
  case (Suc n)
  then obtain p where p: "cycles malloc ts n q = Inr p" "idle cap n p" by auto
  have "n < cap" using Suc.prems assms(2) by simp
  then show ?case using Suc.prems p(1) by (auto elim!: cycle_pushed [OF p(2), of malloc ts])
qed

lemma cycles_double:
  assumes "idle cap 0 q" and "65536 < cap" and "malloc_ok malloc" and "malloc (cap * 2) \<noteq> None"
  shows "\<exists>p. cycles malloc ts 65537 q = Inr p \<and> idle (cap * 2) 0 p"
proof -
  obtain p where p: "cycles malloc ts 65536 q = Inr p" "idle cap 65536 p"
    using cycles_idle [OF assms(1,2), of 65536 malloc ts] by auto
  obtain p' where p': "cycle malloc ts p = and_then (rxq_grow_and_compact malloc p') Inr" "idle cap 65537 p'"
  proof (rule cycle_pushed [OF p(2) assms(2), of malloc ts], goal_cases)
    case (1 p')
    moreover have "0 < cap div 4" using assms(2) by (simp add: div_greater_zero_iff)
    ultimately show ?case by (intro 1(1)) simp_all
  qed
  have "newcap p' = cap * 2" "rxq_wf p'" "rxq_size p' = 0" using p'(2) assms(2) by (auto simp: newcap_def idle_def)
  note n = this
  have "cycles malloc ts 65537 q = cycle malloc ts p" using p(1) cycles_add [of malloc ts 65536 1 q] by simp
  moreover from n(2) assms(3) obtain g where "rxq_grow_and_compact malloc p' = Inr g" "idle (cap * 2) 0 g"
    using assms(4) n by (cases rule: grow_cases) (auto simp: idle_def)
  ultimately show ?thesis using p'(1) by simp
qed



end
