(* ===== verification/Spec2Isabelle.thy ===== *)
theory Spec2Isabelle
  imports Accnet_Reach Udp_Stats Rdma_Server
begin

text \<open>
  The accelerated network stack of FireMarshal's default board: two Linux drivers, two user
  libraries and the experiment program that runs on them. Paths below are relative to
  \<^verbatim>\<open>src/boards/default\<close>.

  \<^bold>\<open>The program.\<close> The AccNet driver (\<^verbatim>\<open>drivers/accnet-driver\<close>) is a network driver with NAPI
  polling for a NIC that also has two UDP engines, one per direction, each with 64 byte rings.
  The IOCache driver (\<^verbatim>\<open>drivers/iocache-driver\<close>) manages a hardware table of 64 rows. A row holds
  a connection, the addresses of its two DMA rings, and the task that waits for it. When data
  arrives, the IOCache interrupts, and the handler wakes the tasks of the ready rows. User
  programs do not go through sockets: the libraries (\<^verbatim>\<open>lib\<close>) reserve a row, map the registers
  and rings through the misc devices of the drivers, and move the head and tail registers
  themselves.

  \<^bold>\<open>The theories.\<close>
  \<^item> \<open>FM_Prelude\<close>: machine integers, errno values, shared lemmas on words and lists.
  \<^item> \<open>Mmio\<close>: the device as a parameter, the register accessors of both drivers and of
    \<^verbatim>\<open>lib/common.h\<close>, and the locale \<open>storage_device\<close>: on the bytes of the set \<open>S\<close> the
    device keeps what is written, and reads do not disturb them. The interpretation is memory.
  \<^item> \<open>Fifo\<close>: the contract of a queue and of a bounded queue, as locales.
  \<^item> \<open>Sk_Buff_Cq\<close>: \<open>struct sk_buff_cq\<close> and its operations (\<^verbatim>\<open>accnet.h\<close>, \<^verbatim>\<open>accnet.c\<close>), which
    interpret the bounded queue.
  \<^item> \<open>Accnet_Regs\<close>, \<open>Iocache_Regs\<close>: the register maps of \<^verbatim>\<open>accnet.h\<close> and \<^verbatim>\<open>iocache.h\<close>.
  \<^item> \<open>Accnet_Driver\<close>: the data path of \<^verbatim>\<open>accnet.c\<close>, from \<open>post_send\<close> to \<open>accnet_poll\<close>, over a
    record for \<open>struct accnet_device\<close> and its queues. \<open>Accnet_Data_Path\<close> has its lemmas,
    \<open>Accnet_Reach\<close> the step relation of the driver and its invariants.
  \<^item> \<open>Accnet_Setup\<close>: device tree, interrupt lines, MAC address, UDP engines, probe and remove.
  \<^item> \<open>Misc_Api\<close>, \<open>Accnet_Misc\<close>: ioctl encoding, argument structures, and \<^verbatim>\<open>accnet_misc.c\<close>.
  \<^item> \<open>Iocache_Driver\<close>, \<open>Iocache_Rings\<close>: masks, both interrupt handlers, and the DMA rings of
    \<^verbatim>\<open>iocache.c\<close>. \<open>Iocache_Setup\<close>: \<^verbatim>\<open>iocache_plic.c\<close>, probe and remove.
  \<^item> \<open>Iocache_Misc\<close>: \<^verbatim>\<open>iocache_misc.c\<close>, with its ioctls, \<open>mmap\<close>, waits and timer.
  \<^item> \<open>Common\<close>, \<open>Iocache_Lib\<close>, \<open>Accnet_Lib\<close>: \<^verbatim>\<open>lib/common.h\<close>, \<^verbatim>\<open>lib/iocache_lib.*\<close> and
    \<^verbatim>\<open>lib/accnet_lib.*\<close>. The system calls of the libraries run the handlers of the driver
    theories, so a lemma about a library function is about library and driver together.
  \<^item> \<open>Udp_Ring\<close>, \<open>Udp_Exp\<close>, \<open>Udp_Main\<close>, \<open>Udp_Stats\<close>: \<^verbatim>\<open>lib/udp_exp.c\<close>, with the ring routines, the tests,
    and the command line, reset, statistics and \<open>main\<close>.
  \<^item> \<open>Rdma_Server\<close>: \<^verbatim>\<open>app/rdma/server_ts.c\<close>, an echo server that pairs receive and send times; its
    queue interprets \<open>fifo\<close>.

  \<^bold>\<open>How the code is read.\<close> A struct is a record and a function takes and returns it. Unsigned
  integers are words of their width; an \<open>int\<close> is an \<open>int\<close> with its wrap-around written out
  where it can occur. Hardware is the record \<open>D\<close> of a read and a write function over a state of
  any type, so it may do anything between two accesses, and every read may change it. Calls into
  the kernel that only have an effect there are appended to a log; those that answer are
  functions of an environment record. An error is a negative errno, as in the code, or a value
  of its own where the code would dereference a bad pointer. Loops are recursion on their
  counter, on a list, or on the number of tests of the signal flag that still find it clear;
  \<open>fill_loop\<close> is a \<open>while_option\<close>, and \<open>spin_tx\<close>, which tests only a register, is a partial
  function whose value is None when it does not return. No other fuel is used: the loops of
  the drivers are bounded by the counters that the code has.

  \<^bold>\<open>What is shown.\<close>
  \<^item> AccNet: the socket buffer ring is a bounded FIFO; in every reachable state both rings are
    well formed; buffers are given back in the order in which they were accepted, none lost and
    none twice; completion and receipt take exactly what the device reports; descriptors decode
    to the segments that were posted; the interrupt mask follows the NAPI protocol.
  \<^item> IOCache: the handler wakes the tasks of the ready rows; a task that reserves a row and waits
    is woken whatever the others do on their own rows; a wait with a timer returns; probe and
    remove allocate and free each ring once; user space can map only registers and rings.
  \<^item> Libraries: opening gives the caller its row, registers and rings, closing releases them; a
    connection fills its own row only; addresses survive printing and reading.
  \<^item> Experiments: the ring arithmetic counts modulo the ring size; sending fills without
    overtaking the head; draining empties; the echo and sink servers account for what they
    take; the polling loop ends; every accepted command line satisfies what the tests assume.
  \<^item> RDMA server: it returns, stays inside its blocks, and pairs times in order of arrival.
  \<^item> The properties of kind error, and several others in part, describe behaviour that the
    code does not intend; each has its own text.

  \<^bold>\<open>Not modelled.\<close>
  \<^item> Memory barriers and the order of posted writes: registers change in program order.
  \<^item> Concurrency inside a handler. Handlers and operations are atomic steps; what other tasks and
    interrupts do during a wait is a parameter, and the sequences of steps are arbitrary.
  \<^item> Printing, results files, averages in floating point, and module registration macros.
  \<^item> The socket, file transfer and other RDMA programs (\<^verbatim>\<open>app\<close>, and \<^verbatim>\<open>lib/*_kernel.c\<close>,
    \<^verbatim>\<open>lib/file_*.c\<close>): nearly every line is a call of the operating system or of a library that is
    not part of the repository.
  \<^item> \<^verbatim>\<open>lib/interrupt_exp.c\<close>, which calls functions that the libraries no longer have.
  \<^item> The workload builder in Python (\<^verbatim>\<open>src/wlutil\<close>) and the distribution modules, whose effects
    are on the file system and on other programs; generated and third-party sources (the Linux,
    buildroot and firmware submodules).
\<close>

end
